theory Spec2Isabelle
  imports Complex_Main
begin

section \<open>Geodash: the simulation step of GameRunner\<close>

text \<open>
  A shallow embedding of \<^verbatim>\<open>update\<close> in \<^verbatim>\<open>components/GameRunner.tsx\<close>, with the
  types of \<^verbatim>\<open>types.ts\<close> and the constants of \<^verbatim>\<open>constants.ts\<close>. A JavaScript
  \<^verbatim>\<open>number\<close> is modelled as a real: all arithmetic is exact. The React refs that
  \<^verbatim>\<open>update\<close> mutates are the fields of one record that is passed in and returned. Host
  callbacks are appended to a log in call order. \<^verbatim>\<open>spawnParticles\<close> draws from
  \<^verbatim>\<open>Math.random\<close>; the model logs the arguments of each call and leaves the
  particles themselves, the visual trail and the drawing code out.
\<close>

subsection \<open>types.ts\<close>

datatype EntityType =
    PLAYER | BLOCK | SPIKE | HALF_SPIKE
  | ORB_JUMP | ORB_JUMP_PURPLE | ORB_JUMP_RED | ORB_GRAVITY
  | PORTAL_GRAVITY
  | PORTAL_SPEED_SLOW | PORTAL_SPEED_NORMAL | PORTAL_SPEED_FAST | PORTAL_SPEED_VERY_FAST
  | FLOOR

datatype GameMode = CLASSIC | FREE

record Vector2 =
  x_vec :: real
  y_vec :: real

record LevelObject =
  id_obj :: string
  type_obj :: EntityType
  x_obj :: real
  y_obj :: real
  rotation_obj :: "real option"

record LevelData =
  objects :: "LevelObject list"
  length_lvl :: real
  gameMode :: GameMode

text \<open>
  \<^verbatim>\<open>Player\<close>, with the property \<^verbatim>\<open>lastPortalX\<close> that the gravity portal attaches to the
  player object at run time; \<open>None\<close> is \<^verbatim>\<open>undefined\<close>.
\<close>

record Player =
  position :: Vector2
  velocity :: Vector2
  isGrounded :: bool
  isDead :: bool
  rotation :: real
  gravityScale :: real
  canOrbJump :: bool
  speedMultiplier :: real
  lastPortalX :: "real option"

subsection \<open>constants.ts\<close>

abbreviation TILE_SIZE :: real where "TILE_SIZE \<equiv> 48"
abbreviation GRAVITY :: real where "GRAVITY \<equiv> 2"
abbreviation JUMP_FORCE :: real where "JUMP_FORCE \<equiv> - 24"
abbreviation ORB_JUMP_FORCE :: real where "ORB_JUMP_FORCE \<equiv> - 21"
abbreviation ORB_JUMP_PURPLE_FORCE :: real where "ORB_JUMP_PURPLE_FORCE \<equiv> - 15"
abbreviation ORB_JUMP_RED_FORCE :: real where "ORB_JUMP_RED_FORCE \<equiv> - 34"
abbreviation MOVE_SPEED :: real where "MOVE_SPEED \<equiv> 9"
abbreviation TERMINAL_VELOCITY :: real where "TERMINAL_VELOCITY \<equiv> 30"
abbreviation ROTATION_SPEED :: real where "ROTATION_SPEED \<equiv> 6"
abbreviation CEILING_HEIGHT :: real where "CEILING_HEIGHT \<equiv> 12"
abbreviation PORTAL_HEIGHT_BLOCKS :: real where "PORTAL_HEIGHT_BLOCKS \<equiv> 3"

definition COLOR_PLAYER :: string where "COLOR_PLAYER = ''#fbbf24''"
definition COLOR_ORB_JUMP :: string where "COLOR_ORB_JUMP = ''#facc15''"
definition COLOR_ORB_PURPLE :: string where "COLOR_ORB_PURPLE = ''#a855f7''"
definition COLOR_ORB_RED :: string where "COLOR_ORB_RED = ''#ef4444''"
definition COLOR_ORB_GRAVITY :: string where "COLOR_ORB_GRAVITY = ''#3b82f6''"
definition COLOR_PORTAL_GRAVITY :: string where "COLOR_PORTAL_GRAVITY = ''#10b981''"

subsection \<open>The state of a run\<close>

text \<open>The props of the component that \<^verbatim>\<open>update\<close> reads; \<open>hasOnTestComplete\<close> says
  whether the optional prop \<^verbatim>\<open>onTestComplete\<close> was passed.\<close>

record Props =
  isProcedural :: bool
  isTestMode :: bool
  hasOnTestComplete :: bool

record Input =
  jump :: bool
  jumpPressedThisFrame :: bool

datatype Callback =
    OnDie
  | OnWin
  | OnTestComplete "Vector2 list" "Vector2 option"

text \<open>One call \<^verbatim>\<open>spawnParticles(x, y, count, color, speedMult)\<close>.\<close>

record Burst =
  x_burst :: real
  y_burst :: real
  count_burst :: nat
  color_burst :: string
  speedMult_burst :: real

record Rect =
  x_rect :: real
  y_rect :: real
  w_rect :: real
  h_rect :: real

text \<open>The refs: \<^verbatim>\<open>playerRef\<close>, \<^verbatim>\<open>inputRef\<close>, \<^verbatim>\<open>cameraRef\<close>, \<^verbatim>\<open>shakeRef\<close>,
  \<^verbatim>\<open>timeRef\<close>, \<^verbatim>\<open>recordedTrailRef\<close>, then the two logs.\<close>

record Game =
  player :: Player
  input :: Input
  camera :: Vector2
  shake :: real
  time :: real
  recordedTrail :: "Vector2 list"
  bursts :: "Burst list"
  calls :: "Callback list"

text \<open>The early \<^verbatim>\<open>return\<close> out of \<^verbatim>\<open>update\<close> from inside the loop over the objects.\<close>

datatype 'a flow = Continue 'a | Return 'a

subsection \<open>JavaScript arithmetic\<close>

text \<open>\<^verbatim>\<open>a % b\<close> takes the sign of the dividend; \<^verbatim>\<open>Math.round\<close> rounds halves up.\<close>

definition js_trunc :: "real \<Rightarrow> int" where
  "js_trunc a = (if 0 \<le> a then \<lfloor>a\<rfloor> else \<lceil>a\<rceil>)"

definition js_rem :: "real \<Rightarrow> real \<Rightarrow> real" where
  "js_rem a b = a - b * of_int (js_trunc (a / b))"

definition js_round :: "real \<Rightarrow> real" where
  "js_round a = of_int \<lfloor>a + 1 / 2\<rfloor>"

subsection \<open>Helpers of update\<close>

definition checkCollision :: "Rect \<Rightarrow> Rect \<Rightarrow> bool" where
  "checkCollision r1 r2 \<longleftrightarrow>
     x_rect r1 < x_rect r2 + w_rect r2 \<and>
     x_rect r1 + w_rect r1 > x_rect r2 \<and>
     y_rect r1 < y_rect r2 + h_rect r2 \<and>
     y_rect r1 + h_rect r1 > y_rect r2"

definition spawnParticles :: "real \<Rightarrow> real \<Rightarrow> nat \<Rightarrow> string \<Rightarrow> real \<Rightarrow> Game \<Rightarrow> Game" where
  "spawnParticles px py n c m g =
     g\<lparr>bursts := bursts g @
        [\<lparr>x_burst = px, y_burst = py, count_burst = n, color_burst = c, speedMult_burst = m\<rparr>]\<rparr>"

text \<open>The branch that every death shares:
  \<^verbatim>\<open>if (isTestMode && onTestComplete) onTestComplete(recordedTrailRef.current, player.position);
  else onDie();\<close>\<close>

definition report_death :: "Props \<Rightarrow> Game \<Rightarrow> Game" where
  "report_death cfg g =
     (if isTestMode cfg \<and> hasOnTestComplete cfg
      then g\<lparr>calls := calls g @ [OnTestComplete (recordedTrail g) (Some (position (player g)))]\<rparr>
      else g\<lparr>calls := calls g @ [OnDie]\<rparr>)"

text \<open>Death on a spike or against a block: \<^verbatim>\<open>isDead = true\<close>, the camera shake, the
  callback; the caller then returns from \<^verbatim>\<open>update\<close>.\<close>

definition crash :: "Props \<Rightarrow> Game \<Rightarrow> Game" where
  "crash cfg g =
     report_death cfg (g\<lparr>player := (player g)\<lparr>isDead := True\<rparr>, shake := 20\<rparr>)"

subsection \<open>Ground and stability check\<close>

definition block_supports :: "real \<Rightarrow> Player \<Rightarrow> LevelObject \<Rightarrow> bool" where
  "block_supports gravityMult p obj \<longleftrightarrow>
     type_obj obj = BLOCK \<and>
     (let pX = x_vec (position p) + TILE_SIZE / 2;
          oX = x_obj obj * TILE_SIZE;
          oY = - y_obj obj * TILE_SIZE
      in pX > oX \<and> pX < oX + TILE_SIZE \<and>
         (if gravityMult = 1 then \<bar>y_vec (position p) - oY\<bar> < 5
          else \<bar>y_vec (position p) - (oY + 2 * TILE_SIZE)\<bar> < 5))"

primrec find_support :: "real \<Rightarrow> Player \<Rightarrow> LevelObject list \<Rightarrow> bool" where
  "find_support gravityMult p [] = False"
| "find_support gravityMult p (obj # objs) =
     (if block_supports gravityMult p obj then True else find_support gravityMult p objs)"

definition plane_supports :: "LevelData \<Rightarrow> real \<Rightarrow> Player \<Rightarrow> bool" where
  "plane_supports lvl gravityMult p \<longleftrightarrow>
     (if gravityMult = 1 then y_vec (position p) \<ge> 0
      else gameMode lvl \<noteq> FREE \<and>
           y_vec (position p) \<le> - (CEILING_HEIGHT * TILE_SIZE) + TILE_SIZE + 2)"

definition stability_check :: "LevelData \<Rightarrow> Input \<Rightarrow> real \<Rightarrow> Player \<Rightarrow> Player" where
  "stability_check lvl inp gravityMult p =
     (if isGrounded p \<and> \<not> jump inp then
        (if plane_supports lvl gravityMult p \<or> find_support gravityMult p (objects lvl)
         then p else p\<lparr>isGrounded := False\<rparr>)
      else p)"

subsection \<open>Physics update\<close>

definition apply_gravity :: "real \<Rightarrow> Player \<Rightarrow> Player" where
  "apply_gravity gravityMult p =
     (if \<not> isGrounded p
      then p\<lparr>velocity := (velocity p)\<lparr>y_vec := y_vec (velocity p) + GRAVITY * gravityMult\<rparr>\<rparr>
      else p\<lparr>velocity := (velocity p)\<lparr>y_vec := 0\<rparr>\<rparr>)"

definition apply_speed :: "Player \<Rightarrow> Player" where
  "apply_speed p = p\<lparr>velocity := (velocity p)\<lparr>x_vec := MOVE_SPEED * speedMultiplier p\<rparr>\<rparr>"

definition apply_jump :: "real \<Rightarrow> Game \<Rightarrow> Game" where
  "apply_jump gravityMult g =
     (if jump (input g) \<and> isGrounded (player g) then
        spawnParticles (x_vec (position (player g)) + 24) (y_vec (position (player g))) 10
          ''white'' 1
          (g\<lparr>player := (player g)
               \<lparr>velocity := (velocity (player g))\<lparr>y_vec := JUMP_FORCE * gravityMult\<rparr>,
                isGrounded := False,
                canOrbJump := False\<rparr>\<rparr>)
      else g)"

definition clamp_terminal :: "real \<Rightarrow> Player \<Rightarrow> Player" where
  "clamp_terminal gravityMult p =
     (if gravityMult = 1 then
        (if y_vec (velocity p) > TERMINAL_VELOCITY
         then p\<lparr>velocity := (velocity p)\<lparr>y_vec := TERMINAL_VELOCITY\<rparr>\<rparr> else p)
      else
        (if y_vec (velocity p) < - TERMINAL_VELOCITY
         then p\<lparr>velocity := (velocity p)\<lparr>y_vec := - TERMINAL_VELOCITY\<rparr>\<rparr> else p))"

definition advance_x :: "Player \<Rightarrow> Player" where
  "advance_x p = p\<lparr>position := (position p)\<lparr>x_vec := x_vec (position p) + x_vec (velocity p)\<rparr>\<rparr>"

definition rotate :: "real \<Rightarrow> Player \<Rightarrow> Player" where
  "rotate gravityMult p =
     (if \<not> isGrounded p then p\<lparr>rotation := rotation p + ROTATION_SPEED * gravityMult\<rparr>
      else if js_rem (rotation p) 90 \<noteq> 0
           then p\<lparr>rotation := js_round (rotation p / 90) * 90\<rparr> else p)"

definition advance_y :: "Player \<Rightarrow> Player" where
  "advance_y p = p\<lparr>position := (position p)\<lparr>y_vec := y_vec (position p) + y_vec (velocity p)\<rparr>\<rparr>"

subsection \<open>Collision detection\<close>

text \<open>The constants of one tick that the loop over the objects reads.\<close>

record Ctx =
  gravityMult_ctx :: real
  prevY_ctx :: real
  pRect_ctx :: Rect
  pCenterX_ctx :: real
  pCenterY_ctx :: real

definition mk_ctx :: "real \<Rightarrow> real \<Rightarrow> Player \<Rightarrow> Ctx" where
  "mk_ctx gravityMult prevY p =
     \<lparr>gravityMult_ctx = gravityMult,
      prevY_ctx = prevY,
      pRect_ctx = \<lparr>x_rect = x_vec (position p) + 10,
                   y_rect = y_vec (position p) - TILE_SIZE + 10,
                   w_rect = TILE_SIZE - 20,
                   h_rect = TILE_SIZE - 20\<rparr>,
      pCenterX_ctx = x_vec (position p) + TILE_SIZE / 2,
      pCenterY_ctx = y_vec (position p) - TILE_SIZE / 2\<rparr>"

definition is_orb :: "EntityType \<Rightarrow> bool" where
  "is_orb t \<longleftrightarrow> t = ORB_JUMP \<or> t = ORB_GRAVITY \<or> t = ORB_JUMP_PURPLE \<or> t = ORB_JUMP_RED"

definition is_portal :: "EntityType \<Rightarrow> bool" where
  "is_portal t \<longleftrightarrow> t = PORTAL_GRAVITY \<or> t = PORTAL_SPEED_SLOW \<or> t = PORTAL_SPEED_NORMAL \<or>
     t = PORTAL_SPEED_FAST \<or> t = PORTAL_SPEED_VERY_FAST"

text \<open>\<^verbatim>\<open>dist < orbRadius\<close>, with \<^verbatim>\<open>dist = Math.sqrt(dx*dx + dy*dy)\<close> and
  \<^verbatim>\<open>orbRadius = 32\<close>.\<close>

definition orb_near :: "Ctx \<Rightarrow> LevelObject \<Rightarrow> bool" where
  "orb_near c obj \<longleftrightarrow>
     (let dx = pCenterX_ctx c - (x_obj obj * TILE_SIZE + TILE_SIZE / 2);
          dy = pCenterY_ctx c - (- y_obj obj * TILE_SIZE + TILE_SIZE / 2);
          dist = sqrt (dx * dx + dy * dy)
      in dist < 32)"

definition orb_color :: "EntityType \<Rightarrow> string" where
  "orb_color t =
     (if t = ORB_JUMP_RED then COLOR_ORB_RED
      else if t = ORB_JUMP_PURPLE then COLOR_ORB_PURPLE
      else if t = ORB_GRAVITY then COLOR_ORB_GRAVITY
      else COLOR_ORB_JUMP)"

definition orb_effect :: "real \<Rightarrow> EntityType \<Rightarrow> Player \<Rightarrow> Player" where
  "orb_effect gravityMult t p =
     (if t = ORB_JUMP then
        p\<lparr>velocity := (velocity p)\<lparr>y_vec := ORB_JUMP_FORCE * gravityMult\<rparr>, isGrounded := False\<rparr>
      else if t = ORB_JUMP_PURPLE then
        p\<lparr>velocity := (velocity p)\<lparr>y_vec := ORB_JUMP_PURPLE_FORCE * gravityMult\<rparr>,
          isGrounded := False\<rparr>
      else if t = ORB_JUMP_RED then
        p\<lparr>velocity := (velocity p)\<lparr>y_vec := ORB_JUMP_RED_FORCE * gravityMult\<rparr>,
          isGrounded := False\<rparr>
      else if t = ORB_GRAVITY then
        p\<lparr>gravityScale := gravityScale p * (- 1),
          velocity := (velocity p)\<lparr>y_vec := JUMP_FORCE * (1 / 2) * (gravityScale p * (- 1))\<rparr>,
          isGrounded := False\<rparr>
      else p)"

definition handle_orb :: "Ctx \<Rightarrow> LevelObject \<Rightarrow> Game \<Rightarrow> Game" where
  "handle_orb c obj g =
     (let isJumpInputActive =
            (jumpPressedThisFrame (input g) \<or> (jump (input g) \<and> canOrbJump (player g)))
      in if orb_near c obj \<and> isJumpInputActive \<and> canOrbJump (player g) then
           (let g1 = g\<lparr>player := (player g)\<lparr>canOrbJump := False\<rparr>,
                       input := (input g)\<lparr>jumpPressedThisFrame := False\<rparr>\<rparr>;
                g2 = spawnParticles (x_obj obj * TILE_SIZE + TILE_SIZE / 2)
                       (- y_obj obj * TILE_SIZE + TILE_SIZE / 2) 15 (orb_color (type_obj obj)) 1 g1
            in g2\<lparr>player := orb_effect (gravityMult_ctx c) (type_obj obj) (player g2)\<rparr>)
         else g)"

definition portal_rect :: "LevelObject \<Rightarrow> Rect" where
  "portal_rect obj =
     \<lparr>x_rect = x_obj obj * TILE_SIZE + 15,
      y_rect = - y_obj obj * TILE_SIZE - (PORTAL_HEIGHT_BLOCKS - 1) * TILE_SIZE,
      w_rect = 18,
      h_rect = PORTAL_HEIGHT_BLOCKS * TILE_SIZE\<rparr>"

definition speed_portal :: "EntityType \<Rightarrow> Player \<Rightarrow> Player" where
  "speed_portal t p =
     (if t = PORTAL_SPEED_SLOW then p\<lparr>speedMultiplier := 8 / 10\<rparr>
      else if t = PORTAL_SPEED_NORMAL then p\<lparr>speedMultiplier := 1\<rparr>
      else if t = PORTAL_SPEED_FAST then p\<lparr>speedMultiplier := 12 / 10\<rparr>
      else if t = PORTAL_SPEED_VERY_FAST then p\<lparr>speedMultiplier := 14 / 10\<rparr>
      else p)"

text \<open>\<^verbatim>\<open>(player as any).lastPortalX || -1000\<close>: \<^verbatim>\<open>undefined\<close> and \<^verbatim>\<open>0\<close> are falsy.\<close>

definition lastPortalX_or :: "Player \<Rightarrow> real" where
  "lastPortalX_or p =
     (case lastPortalX p of None \<Rightarrow> - 1000 | Some v \<Rightarrow> if v = 0 then - 1000 else v)"

definition gravity_portal :: "Ctx \<Rightarrow> Game \<Rightarrow> Game" where
  "gravity_portal c g =
     (if \<bar>x_vec (position (player g)) - lastPortalX_or (player g)\<bar> > TILE_SIZE * 2 then
        (let g1 = g\<lparr>player := (player g)\<lparr>gravityScale := gravityScale (player g) * (- 1)\<rparr>\<rparr>;
             g2 = spawnParticles (pCenterX_ctx c) (pCenterY_ctx c) 20 COLOR_PORTAL_GRAVITY 2 g1
         in g2\<lparr>player := (player g2)\<lparr>lastPortalX := Some (x_vec (position (player g2)))\<rparr>\<rparr>)
      else g)"

definition handle_portal :: "Ctx \<Rightarrow> LevelObject \<Rightarrow> Game \<Rightarrow> Game" where
  "handle_portal c obj g =
     (if checkCollision (pRect_ctx c) (portal_rect obj) then
        (let g1 = g\<lparr>player := speed_portal (type_obj obj) (player g)\<rparr>
         in if type_obj obj = PORTAL_GRAVITY then gravity_portal c g1 else g1)
      else g)"

definition hitBox :: "LevelObject \<Rightarrow> Rect" where
  "hitBox obj =
     (let objX = x_obj obj * TILE_SIZE; objY = - y_obj obj * TILE_SIZE in
      if type_obj obj = SPIKE then
        \<lparr>x_rect = objX + 14, y_rect = objY + 14, w_rect = TILE_SIZE - 28, h_rect = TILE_SIZE - 28\<rparr>
      else if type_obj obj = HALF_SPIKE then
        \<lparr>x_rect = objX + 14, y_rect = objY + 28, w_rect = TILE_SIZE - 28, h_rect = TILE_SIZE - 28\<rparr>
      else
        \<lparr>x_rect = objX, y_rect = objY, w_rect = TILE_SIZE, h_rect = TILE_SIZE\<rparr>)"

text \<open>The landing test of a block that the hitbox overlaps; it reads the velocity the
  player has at that moment and the \<^verbatim>\<open>prevY\<close> of the tick.\<close>

definition lands :: "Ctx \<Rightarrow> LevelObject \<Rightarrow> Player \<Rightarrow> bool" where
  "lands c obj p \<longleftrightarrow>
     (let objY = - y_obj obj * TILE_SIZE in
      if gravityMult_ctx c = 1 then y_vec (velocity p) \<ge> 0 \<and> prevY_ctx c \<le> objY + 15
      else y_vec (velocity p) \<le> 0 \<and> prevY_ctx c - TILE_SIZE \<ge> objY + TILE_SIZE - 15)"

definition land_y :: "Ctx \<Rightarrow> LevelObject \<Rightarrow> real" where
  "land_y c obj =
     (let objY = - y_obj obj * TILE_SIZE in
      if gravityMult_ctx c = 1 then objY else objY + TILE_SIZE + TILE_SIZE)"

definition handle_block :: "Props \<Rightarrow> Ctx \<Rightarrow> LevelObject \<Rightarrow> Game \<Rightarrow> Game flow" where
  "handle_block cfg c obj g =
     (if lands c obj (player g) then
        Continue (g\<lparr>player := (player g)
                    \<lparr>position := (position (player g))\<lparr>y_vec := land_y c obj\<rparr>,
                     velocity := (velocity (player g))\<lparr>y_vec := 0\<rparr>,
                     isGrounded := True\<rparr>\<rparr>)
      else Return (crash cfg g))"

definition handle_obj :: "Props \<Rightarrow> Ctx \<Rightarrow> LevelObject \<Rightarrow> Game \<Rightarrow> Game flow" where
  "handle_obj cfg c obj g =
     (if is_orb (type_obj obj) then Continue (handle_orb c obj g)
      else if is_portal (type_obj obj) then Continue (handle_portal c obj g)
      else if checkCollision (pRect_ctx c) (hitBox obj) then
        (if type_obj obj = SPIKE \<or> type_obj obj = HALF_SPIKE then Return (crash cfg g)
         else if type_obj obj = BLOCK then handle_block cfg c obj g
         else Continue g)
      else Continue g)"

text \<open>\<^verbatim>\<open>for (const obj of currentLevel.objects)\<close>, left at the first \<^verbatim>\<open>return\<close>.\<close>

fun collide :: "Props \<Rightarrow> Ctx \<Rightarrow> LevelObject list \<Rightarrow> Game \<Rightarrow> Game flow" where
  "collide cfg c [] g = Continue g"
| "collide cfg c (obj # objs) g =
     (case handle_obj cfg c obj g of
        Return g' \<Rightarrow> Return g'
      | Continue g' \<Rightarrow> collide cfg c objs g')"

subsection \<open>Floor and ceiling, camera, win\<close>

definition floor_ceiling :: "Props \<Rightarrow> LevelData \<Rightarrow> real \<Rightarrow> Game \<Rightarrow> Game" where
  "floor_ceiling cfg lvl gravityMult g =
     (let p = player g in
      if \<not> isDead p then
        (if gravityMult = 1 then
           (if y_vec (position p) \<ge> 0 then
              g\<lparr>player := p\<lparr>position := (position p)\<lparr>y_vec := 0\<rparr>,
                             velocity := (velocity p)\<lparr>y_vec := 0\<rparr>,
                             isGrounded := True\<rparr>\<rparr>
            else g)
         else if gameMode lvl = FREE then
           (if y_vec (position p) < - 3000 \<or> y_vec (position p) > 1000
            then report_death cfg (g\<lparr>player := p\<lparr>isDead := True\<rparr>\<rparr>)
            else g)
         else
           (if y_vec (position p) - TILE_SIZE \<le> - (CEILING_HEIGHT * TILE_SIZE) then
              g\<lparr>player := p\<lparr>position := (position p)
                                \<lparr>y_vec := - (CEILING_HEIGHT * TILE_SIZE) + TILE_SIZE\<rparr>,
                             velocity := (velocity p)\<lparr>y_vec := 0\<rparr>,
                             isGrounded := True\<rparr>\<rparr>
            else g))
      else g)"

definition move_camera :: "LevelData \<Rightarrow> Game \<Rightarrow> Game" where
  "move_camera lvl g =
     (let g1 = g\<lparr>camera := (camera g)\<lparr>x_vec := x_vec (position (player g)) - 300\<rparr>\<rparr> in
      if gameMode lvl = FREE then
        g1\<lparr>camera := (camera g1)
             \<lparr>y_vec := y_vec (camera g1) +
                 (y_vec (position (player g1)) - 150 - y_vec (camera g1)) * (1 / 10)\<rparr>\<rparr>
      else g1\<lparr>camera := (camera g1)\<lparr>y_vec := 0\<rparr>\<rparr>)"

definition check_win :: "Props \<Rightarrow> LevelData \<Rightarrow> Game \<Rightarrow> Game" where
  "check_win cfg lvl g =
     (if \<not> isProcedural cfg \<and> x_vec (position (player g)) > length_lvl lvl * TILE_SIZE then
        (if isTestMode cfg \<and> hasOnTestComplete cfg
         then g\<lparr>calls := calls g @ [OnTestComplete (recordedTrail g) None]\<rparr>
         else g\<lparr>calls := calls g @ [OnWin]\<rparr>)
      else g)"

subsection \<open>update\<close>

definition decay_shake :: "real \<Rightarrow> real" where
  "decay_shake s = (let s1 = (if s > 0 then s * (9 / 10) else s) in if s1 < 1 / 2 then 0 else s1)"

definition record_trail :: "Props \<Rightarrow> Game \<Rightarrow> Game" where
  "record_trail cfg g =
     (if isTestMode cfg \<and> \<not> isDead (player g) \<and> js_rem (time g) (1 / 10) < 5 / 100
      then g\<lparr>recordedTrail := recordedTrail g @ [position (player g)]\<rparr>
      else g)"

text \<open>From the stability check to the vertical advance; the result carries the \<^verbatim>\<open>prevY\<close>
  that the source computes just before it adds the velocity to the position.\<close>

definition integrate :: "LevelData \<Rightarrow> real \<Rightarrow> Game \<Rightarrow> real \<times> Game" where
  "integrate lvl gravityMult g =
     (let g1 = g\<lparr>player := stability_check lvl (input g) gravityMult (player g)\<rparr>;
          g2 = g1\<lparr>player := apply_speed (apply_gravity gravityMult (player g1))\<rparr>;
          g3 = apply_jump gravityMult g2;
          g4 = g3\<lparr>player := rotate gravityMult (advance_x (clamp_terminal gravityMult (player g3)))\<rparr>;
          prevY = y_vec (position (player g4)) - y_vec (velocity (player g4))
      in (prevY, g4\<lparr>player := advance_y (player g4)\<rparr>))"

text \<open>What follows the loop when no object made \<^verbatim>\<open>update\<close> return.\<close>

definition finish :: "Props \<Rightarrow> LevelData \<Rightarrow> real \<Rightarrow> Game \<Rightarrow> Game" where
  "finish cfg lvl gravityMult g =
     (let g1 = floor_ceiling cfg lvl gravityMult g;
          g2 = g1\<lparr>input := (input g1)\<lparr>jumpPressedThisFrame := False\<rparr>\<rparr>
      in check_win cfg lvl (move_camera lvl g2))"

definition update :: "Props \<Rightarrow> LevelData \<Rightarrow> Game \<Rightarrow> Game" where
  "update cfg lvl g0 =
     (let g = g0\<lparr>time := time g0 + 5 / 100, shake := decay_shake (shake g0)\<rparr>;
          gravityMult = gravityScale (player g)
      in if isDead (player g) then
           spawnParticles (x_vec (position (player g)) + 24) (y_vec (position (player g)) - 24) 5
             COLOR_PLAYER (1 / 2) g
         else
           (let (prevY, g1) = integrate lvl gravityMult (record_trail cfg g);
                c = mk_ctx gravityMult prevY (player g1)
            in case collide cfg c (objects lvl) g1 of
                 Return g2 \<Rightarrow> g2
               | Continue g2 \<Rightarrow> finish cfg lvl gravityMult g2))"

subsection \<open>The input latch and runs\<close>

text \<open>\<^verbatim>\<open>handleKeyDown\<close> and \<^verbatim>\<open>handleMouseDown\<close>; \<^verbatim>\<open>handleKeyUp\<close> and \<^verbatim>\<open>handleMouseUp\<close>.\<close>

definition press :: "Game \<Rightarrow> Game" where
  "press g =
     g\<lparr>input := \<lparr>jump = True,
                  jumpPressedThisFrame =
                    (if \<not> jump (input g) then True else jumpPressedThisFrame (input g))\<rparr>\<rparr>"

definition release :: "Game \<Rightarrow> Game" where
  "release g =
     g\<lparr>input := \<lparr>jump = False, jumpPressedThisFrame = False\<rparr>,
       player := (player g)\<lparr>canOrbJump := True\<rparr>\<rparr>"

text \<open>The state that the effect on \<^verbatim>\<open>initialLevel\<close> sets up at the start of a run.\<close>

definition initial :: Game where
  "initial =
     \<lparr>player = \<lparr>position = \<lparr>x_vec = 0, y_vec = 0\<rparr>,
                velocity = \<lparr>x_vec = MOVE_SPEED, y_vec = 0\<rparr>,
                isGrounded = True, isDead = False, rotation = 0, gravityScale = 1,
                canOrbJump = True, speedMultiplier = 1, lastPortalX = None\<rparr>,
      input = \<lparr>jump = False, jumpPressedThisFrame = False\<rparr>,
      camera = \<lparr>x_vec = 0, y_vec = 0\<rparr>,
      shake = 0, time = 0, recordedTrail = [], bursts = [], calls = []\<rparr>"

text \<open>What happens to a mounted runner: an animation frame, or an input event between
  two frames.\<close>

datatype Event = Tick | Press | Release

fun step :: "Props \<Rightarrow> LevelData \<Rightarrow> Event \<Rightarrow> Game \<Rightarrow> Game" where
  "step cfg lvl Tick g = update cfg lvl g"
| "step cfg lvl Press g = press g"
| "step cfg lvl Release g = release g"

fun run :: "Props \<Rightarrow> LevelData \<Rightarrow> Event list \<Rightarrow> Game \<Rightarrow> Game" where
  "run cfg lvl [] g = g"
| "run cfg lvl (e # es) g = run cfg lvl es (step cfg lvl e g)"

subsection \<open>Example props, levels and states\<close>

definition play_props :: Props where
  "play_props = \<lparr>isProcedural = False, isTestMode = False, hasOnTestComplete = False\<rparr>"

definition test_props :: Props where
  "test_props = \<lparr>isProcedural = False, isTestMode = True, hasOnTestComplete = True\<rparr>"

definition empty_level :: "real \<Rightarrow> GameMode \<Rightarrow> LevelData" where
  "empty_level n m = \<lparr>objects = [], length_lvl = n, gameMode = m\<rparr>"

definition tile :: "EntityType \<Rightarrow> real \<Rightarrow> real \<Rightarrow> LevelObject" where
  "tile t a b = \<lparr>id_obj = ''1'', type_obj = t, x_obj = a, y_obj = b, rotation_obj = Some 0\<rparr>"

definition single_level :: "EntityType \<Rightarrow> real \<Rightarrow> real \<Rightarrow> GameMode \<Rightarrow> LevelData" where
  "single_level t a b m = \<lparr>objects = [tile t a b], length_lvl = 50, gameMode = m\<rparr>"

text \<open>The player of \<open>initial\<close> moved to a position, airborne or not, with a vertical
  velocity and a gravity sign.\<close>

definition player_at :: "real \<Rightarrow> real \<Rightarrow> real \<Rightarrow> bool \<Rightarrow> real \<Rightarrow> Player" where
  "player_at a b v gr s =
     \<lparr>position = \<lparr>x_vec = a, y_vec = b\<rparr>, velocity = \<lparr>x_vec = MOVE_SPEED, y_vec = v\<rparr>,
      isGrounded = gr, isDead = False, rotation = 0, gravityScale = s,
      canOrbJump = True, speedMultiplier = 1, lastPortalX = None\<rparr>"

text \<open>A player running on the floor of a level with nothing in the way and no key down.\<close>

definition cruising :: "real \<Rightarrow> Game \<Rightarrow> bool" where
  "cruising a g \<longleftrightarrow>
     player g = player_at a 0 0 True 1 \<and> input g = \<lparr>jump = False, jumpPressedThisFrame = False\<rparr>"

subsection \<open>Names for the parts of a tick\<close>

text \<open>The state with which the loop over the objects starts in a tick begun alive, and
  the constants \<^verbatim>\<open>gravityMult\<close>, \<^verbatim>\<open>prevY\<close>, \<^verbatim>\<open>pRect\<close>, \<^verbatim>\<open>pCenterX\<close>, \<^verbatim>\<open>pCenterY\<close> of that tick.\<close>

definition before_loop :: "Props \<Rightarrow> LevelData \<Rightarrow> Game \<Rightarrow> Game" where
  "before_loop cfg lvl g =
     snd (integrate lvl (gravityScale (player g))
       (record_trail cfg (g\<lparr>time := time g + 5 / 100, shake := decay_shake (shake g)\<rparr>)))"

definition tick_ctx :: "Props \<Rightarrow> LevelData \<Rightarrow> Game \<Rightarrow> Ctx" where
  "tick_ctx cfg lvl g =
     mk_ctx (gravityScale (player g))
       (fst (integrate lvl (gravityScale (player g))
          (record_trail cfg (g\<lparr>time := time g + 5 / 100, shake := decay_shake (shake g)\<rparr>))))
       (player (before_loop cfg lvl g))"

definition no_blocks :: "LevelData \<Rightarrow> bool" where
  "no_blocks lvl \<longleftrightarrow> list_all (\<lambda>obj. type_obj obj \<noteq> BLOCK) (objects lvl)"

text \<open>A run state whose player is the given one, everything else as at the start.\<close>

definition game_of :: "Player \<Rightarrow> Game" where
  "game_of p = initial\<lparr>player := p\<rparr>"

subsection \<open>Notions used in the properties\<close>

text \<open>The re-entry test of the gravity portal as the specification words it: against
  the place of the last flip, if there is one.\<close>

definition portal_flips :: "Player \<Rightarrow> bool" where
  "portal_flips p \<longleftrightarrow>
     (case lastPortalX p of None \<Rightarrow> True
      | Some v \<Rightarrow> \<bar>x_vec (position p) - v\<bar> > 2 * TILE_SIZE)"

text \<open>What holds of the player between the events of a run.\<close>

definition player_inv :: "Player \<Rightarrow> bool" where
  "player_inv p \<longleftrightarrow>
     0 \<le> x_vec (position p) \<and> 0 < speedMultiplier p \<and>
     (gravityScale p = 1 \<or> gravityScale p = - 1) \<and>
     (case lastPortalX p of None \<Rightarrow> True | Some v \<Rightarrow> 0 < v)"

text \<open>The same inside the loop of a tick, after the horizontal advance.\<close>

definition loop_inv :: "Player \<Rightarrow> bool" where
  "loop_inv p \<longleftrightarrow> 0 < x_vec (position p) \<and> player_inv p"

definition portal_level :: LevelData where
  "portal_level = single_level PORTAL_GRAVITY 1 1 CLASSIC"

definition portal_run :: Game where
  "portal_run = run play_props portal_level [Tick, Tick] initial"

text \<open>A block at tile (6, 1); the key goes down after three ticks, the player jumps on the
  fourth tick and is on its way down 24 ticks later.\<close>

definition side_entry_run :: Game where
  "side_entry_run =
     run play_props (single_level BLOCK 6 1 CLASSIC) ([Tick, Tick, Tick, Press] @ replicate 24 Tick)
       initial"

text \<open>The orbs. Every activation of an orb calls \<^verbatim>\<open>spawnParticles\<close> with 15 particles at
  the centre of the orb, and no other call asks for 15: the log tells which orbs fired.\<close>

definition orb_burst :: "LevelObject \<Rightarrow> Burst" where
  "orb_burst obj =
     \<lparr>x_burst = x_obj obj * TILE_SIZE + TILE_SIZE / 2,
      y_burst = - y_obj obj * TILE_SIZE + TILE_SIZE / 2,
      count_burst = 15, color_burst = orb_color (type_obj obj), speedMult_burst = 1\<rparr>"

definition orb_bursts :: "Game \<Rightarrow> Burst list" where
  "orb_bursts g = filter (\<lambda>b. count_burst b = 15) (bursts g)"

text \<open>An orb within reach of the player, and the input and the lock that let an orb fire.\<close>

definition orb_in_range :: "Ctx \<Rightarrow> LevelObject \<Rightarrow> bool" where
  "orb_in_range c obj \<longleftrightarrow> is_orb (type_obj obj) \<and> orb_near c obj"

definition orb_ready :: "Game \<Rightarrow> bool" where
  "orb_ready g \<longleftrightarrow>
     canOrbJump (player g) \<and> (jumpPressedThisFrame (input g) \<or> jump (input g))"

text \<open>The orbs that one pass over the objects fires, if nothing ends the pass early.\<close>

definition fired :: "Ctx \<Rightarrow> LevelObject list \<Rightarrow> Game \<Rightarrow> Burst list" where
  "fired c objs g =
     (if orb_ready g
      then (case find (orb_in_range c) objs of None \<Rightarrow> [] | Some obj \<Rightarrow> [orb_burst obj])
      else [])"

text \<open>An orb at tile (0, 2). The first press is spent on a jump off the floor; the key is
  released and pressed again while the player is in the air beside the orb.\<close>

definition orb_level :: LevelData where
  "orb_level = single_level ORB_JUMP 0 2 CLASSIC"

definition orb_run :: Game where
  "orb_run = run play_props orb_level [Press, Tick, Release, Press] initial"

subsection \<open>Mirror images\<close>

text \<open>The reflection in the plane half-way between the floor (\<open>y = 0\<close>) and the ceiling of
  CLASSIC mode (\<open>y = - 576\<close>). The player occupies \<open>y - 48\<close> to \<open>y\<close>, so its image has
  \<open>y' = - 528 - y\<close>; velocity and gravity sign change sign. A tile in row \<open>r\<close> goes to row
  \<open>13 - r\<close>, a portal, whose strip reaches two rows up, to row \<open>11 - r\<close>.\<close>

definition mirror_vec :: "Vector2 \<Rightarrow> Vector2" where
  "mirror_vec v = v\<lparr>y_vec := - (CEILING_HEIGHT * TILE_SIZE) + TILE_SIZE - y_vec v\<rparr>"

text \<open>Two players that are mirror images; the rotation, which is only drawn, is left out.\<close>

definition mirrored :: "Player \<Rightarrow> Player \<Rightarrow> bool" where
  "mirrored p q \<longleftrightarrow>
     position q = mirror_vec (position p) \<and>
     x_vec (velocity q) = x_vec (velocity p) \<and>
     y_vec (velocity q) = - y_vec (velocity p) \<and>
     gravityScale q = - gravityScale p \<and>
     isGrounded q = isGrounded p \<and> isDead q = isDead p \<and> canOrbJump q = canOrbJump p \<and>
     speedMultiplier q = speedMultiplier p \<and> lastPortalX q = lastPortalX p"

fun mirror_call :: "Callback \<Rightarrow> Callback" where
  "mirror_call (OnTestComplete tr d) = OnTestComplete (map mirror_vec tr) (map_option mirror_vec d)"
| "mirror_call OnDie = OnDie"
| "mirror_call OnWin = OnWin"

text \<open>Two run states that are mirror images; the particle requests, which are only drawn,
  are left out.\<close>

definition mirrored_game :: "Game \<Rightarrow> Game \<Rightarrow> bool" where
  "mirrored_game s t \<longleftrightarrow>
     mirrored (player s) (player t) \<and> input t = input s \<and> camera t = camera s \<and>
     shake t = shake s \<and> time t = time s \<and>
     recordedTrail t = map mirror_vec (recordedTrail s) \<and>
     calls t = map mirror_call (calls s)"

definition mirror_obj :: "LevelObject \<Rightarrow> LevelObject" where
  "mirror_obj obj =
     obj\<lparr>y_obj := (if is_portal (type_obj obj) then 11 - y_obj obj else 13 - y_obj obj)\<rparr>"

definition mirror_level :: "LevelData \<Rightarrow> LevelData" where
  "mirror_level lvl = lvl\<lparr>objects := map mirror_obj (objects lvl)\<rparr>"

text \<open>The levels that have a mirror image: CLASSIC mode, no HALF_SPIKE (no entity has the
  upper 20 pixels of a tile as its hitbox), blocks in whole rows.\<close>

definition mirrorable :: "LevelData \<Rightarrow> bool" where
  "mirrorable lvl \<longleftrightarrow>
     gameMode lvl = CLASSIC \<and>
     list_all (\<lambda>obj. type_obj obj \<noteq> HALF_SPIKE \<and>
                     (type_obj obj = BLOCK \<longrightarrow> y_obj obj = of_int \<lfloor>y_obj obj\<rfloor>))
       (objects lvl)"

text \<open>The stability check allows 2 pixels below the ceiling and none above the floor. A
  player that stands still stands on a plane or a block, outside these two strips.\<close>

definition off_strips :: "real \<Rightarrow> bool" where
  "off_strips y \<longleftrightarrow> \<not> (- 2 \<le> y \<and> y < 0) \<and> \<not> (- 528 < y \<and> y \<le> - 526)"

definition sym_inv :: "Player \<Rightarrow> bool" where
  "sym_inv p \<longleftrightarrow>
     (gravityScale p = 1 \<or> gravityScale p = - 1) \<and>
     (isGrounded p \<longrightarrow> off_strips (y_vec (position p)))"

definition mirrored_ctx :: "Ctx \<Rightarrow> Ctx \<Rightarrow> bool" where
  "mirrored_ctx c d \<longleftrightarrow>
     gravityMult_ctx d = - gravityMult_ctx c \<and>
     prevY_ctx d = - 528 - prevY_ctx c \<and>
     x_rect (pRect_ctx d) = x_rect (pRect_ctx c) \<and>
     y_rect (pRect_ctx d) = - 576 - (y_rect (pRect_ctx c) + h_rect (pRect_ctx c)) \<and>
     w_rect (pRect_ctx d) = w_rect (pRect_ctx c) \<and>
     h_rect (pRect_ctx d) = h_rect (pRect_ctx c) \<and>
     pCenterX_ctx d = pCenterX_ctx c \<and>
     pCenterY_ctx d = - 576 - pCenterY_ctx c"

text \<open>The mirror image of a run state.\<close>

definition mirror_player :: "Player \<Rightarrow> Player" where
  "mirror_player p =
     p\<lparr>position := mirror_vec (position p),
       velocity := (velocity p)\<lparr>y_vec := - y_vec (velocity p)\<rparr>,
       gravityScale := - gravityScale p\<rparr>"

definition mirror_game :: "Game \<Rightarrow> Game" where
  "mirror_game g =
     g\<lparr>player := mirror_player (player g),
       recordedTrail := map mirror_vec (recordedTrail g),
       calls := map mirror_call (calls g)\<rparr>"

text \<open>A player in the air beside a spike, and a player that is taken to stand one pixel
  above the floor.\<close>

definition beside_spike :: Game where
  "beside_spike = game_of (player_at 20 (- 30) 0 False 1)"

definition above_floor :: Game where
  "above_floor = game_of (player_at 20 (- 1) 0 True 1)"

subsection \<open>Orb impulses\<close>

text \<open>The vertical velocity that an activated orb leaves: the force of its kind
  (\<^verbatim>\<open>ORB_JUMP_FORCE\<close>, \<^verbatim>\<open>ORB_JUMP_PURPLE_FORCE\<close>, \<^verbatim>\<open>ORB_JUMP_RED_FORCE\<close>) times the
  gravity sign the tick began with; the gravity orb gives half of \<^verbatim>\<open>JUMP_FORCE\<close>, in the
  direction of the gravity it has just flipped to.\<close>

definition orb_impulse :: "EntityType \<Rightarrow> real \<Rightarrow> real \<Rightarrow> real" where
  "orb_impulse t gravityMult gravityNow =
     (if t = ORB_GRAVITY then - 12 * (- gravityNow)
      else if t = ORB_JUMP_PURPLE then - 15 * gravityMult
      else if t = ORB_JUMP_RED then - 34 * gravityMult
      else - 21 * gravityMult)"

text \<open>A height at which the end of the tick neither puts the player on the floor or the
  ceiling nor finds it out of bounds.\<close>

definition off_planes :: "LevelData \<Rightarrow> real \<Rightarrow> real \<Rightarrow> bool" where
  "off_planes lvl gravityMult y \<longleftrightarrow>
     (if gravityMult = 1 then y < 0
      else if gameMode lvl = FREE then - 3000 \<le> y \<and> y \<le> 1000
      else - 528 < y)"

text \<open>An orb at tile (0, 1), whose centre (24, -24) is the centre of the player at the start
  of a run; the key goes down before the first tick.\<close>

definition orb_floor_level :: LevelData where
  "orb_floor_level = single_level ORB_JUMP 0 1 CLASSIC"

definition orb_floor_run :: Game where
  "orb_floor_run = run play_props orb_floor_level [Press] initial"

text \<open>An orb at tile (5, 1), and beside it a player in the air at (216, -24) that falls
  with velocity 22, the key just pressed: the next tick takes it to the floor.\<close>

definition orb_landing_state :: Game where
  "orb_landing_state = press (game_of (player_at 216 (- 24) 22 False 1))"

subsection \<open>A test run that leaves the bounds past the end of the level\<close>

text \<open>A FREE level of length 19 with a gravity portal at tile (1, 1), on which a run in test
  mode starts with the key going down; and a player that rises under inverted gravity, above
  the portal.\<close>

definition free_portal_level :: LevelData where
  "free_portal_level =
     \<lparr>objects = [tile PORTAL_GRAVITY 1 1], length_lvl = 19, gameMode = FREE\<rparr>"

definition free_portal_run :: "nat \<Rightarrow> Game" where
  "free_portal_run n = run test_props free_portal_level (Press # replicate n Tick) initial"

definition rising :: "real \<Rightarrow> real \<Rightarrow> real \<Rightarrow> Game \<Rightarrow> bool" where
  "rising a b v g \<longleftrightarrow>
     position (player g) = \<lparr>x_vec = a, y_vec = b\<rparr> \<and> y_vec (velocity (player g)) = v \<and>
     \<not> isGrounded (player g) \<and> \<not> isDead (player g) \<and> gravityScale (player g) = - 1 \<and>
     speedMultiplier (player g) = 1 \<and> b \<le> - 112 \<and> - 30 \<le> v \<and> v \<le> - 24"

section \<open>Properties\<close>

subsection \<open>Evaluation\<close>

text \<open>The distance test without the square root, for evaluation.\<close>

lemma orb_near_code [code]:
  "orb_near c obj \<longleftrightarrow>
     (let dx = pCenterX_ctx c - (x_obj obj * TILE_SIZE + TILE_SIZE / 2);
          dy = pCenterY_ctx c - (- y_obj obj * TILE_SIZE + TILE_SIZE / 2)
      in dx * dx + dy * dy < 1024)"
proof -
  have "sqrt 1024 = 32"
    using real_sqrt_abs2 [of 32] by simp
  then have "sqrt a < 32 \<longleftrightarrow> a < 1024" for a
    using real_sqrt_less_iff [of a 1024] by simp
  then show ?thesis
    by (simp add: orb_near_def Let_def)
qed

subsection \<open>Unfolding a tick\<close>

lemmas tick_defs = update_def integrate_def finish_def record_trail_def stability_check_def
  plane_supports_def apply_gravity_def apply_speed_def apply_jump_def clamp_terminal_def
  advance_x_def advance_y_def rotate_def mk_ctx_def floor_ceiling_def move_camera_def
  check_win_def decay_shake_def spawnParticles_def report_death_def

lemma js_rem_0 [simp]: "js_rem 0 b = 0"
  by (simp add: js_rem_def js_trunc_def)

lemma run_append: "run cfg lvl (es @ fs) g = run cfg lvl fs (run cfg lvl es g)"
  by (induction es arbitrary: g) simp_all

lemma update_dead: "isDead (player g) \<Longrightarrow> player (update cfg lvl g) = player g"
  by (simp add: update_def spawnParticles_def)

subsection \<open>Host callbacks of a normal run\<close>

lemma run_ticks_Suc:
  "run cfg lvl (replicate (Suc k) Tick) g = update cfg lvl (run cfg lvl (replicate k Tick) g)"
  using run_append [of cfg lvl "replicate k Tick" "[Tick]" g]
  by (simp add: replicate_append_same)

lemma cruise_tick:
  assumes "cruising a g"
  shows "cruising (a + 9) (update play_props (empty_level n CLASSIC) g)"
    and "calls (update play_props (empty_level n CLASSIC) g) =
         calls g @ (if a + 9 > n * 48 then [OnWin] else [])"
  using assms
  by (simp_all add: cruising_def player_at_def tick_defs play_props_def empty_level_def Let_def)

lemma cruise_quiet:
  "cruising a g \<Longrightarrow> a + 9 * real k \<le> n * 48 \<Longrightarrow>
   cruising (a + 9 * real k) (run play_props (empty_level n CLASSIC) (replicate k Tick) g) \<and>
   calls (run play_props (empty_level n CLASSIC) (replicate k Tick) g) = calls g"
proof (induction k arbitrary: a g)
  case 0
  then show ?case by simp
next
  case (Suc k)
  have le: "a + 9 \<le> n * 48"
    using Suc.prems(2) by (simp add: algebra_simps)
  note c = cruise_tick [OF Suc.prems(1), of n]
  have "a + 9 + 9 * real k \<le> n * 48"
    using Suc.prems(2) by (simp add: algebra_simps)
  from Suc.IH [OF c(1) this] show ?case
    using le by (simp add: c(2) algebra_simps)
qed

text \<open>
  C1. A normal run (not procedural, not a test) on the empty level of length 50: the
  player crosses \<open>50 * 48 = 2400\<close> on tick 267, where \<^verbatim>\<open>onWin\<close> is called for the first
  time, and tick 268 calls it again. The log holds no call after 266 ticks, one after 267
  and two after 268.
\<close>

theorem win_emitted_again:
  "calls (run play_props (empty_level 50 CLASSIC) (replicate 266 Tick) initial) = [] \<and>
   calls (run play_props (empty_level 50 CLASSIC) (replicate 267 Tick) initial) = [OnWin] \<and>
   calls (run play_props (empty_level 50 CLASSIC) (replicate 268 Tick) initial) = [OnWin, OnWin]"
proof -
  let ?r = "\<lambda>k. run play_props (empty_level 50 CLASSIC) (replicate k Tick)"
  have c0: "cruising 0 initial"
    by (simp add: cruising_def initial_def player_at_def)
  have q: "cruising 2394 (?r 266 initial) \<and> calls (?r 266 initial) = []"
    using cruise_quiet [OF c0, of 266 50] by (simp add: initial_def)
  have s1: "?r 267 initial = update play_props (empty_level 50 CLASSIC) (?r 266 initial)"
    using run_ticks_Suc [of play_props "empty_level 50 CLASSIC" 266 initial] by simp
  have s2: "?r 268 initial = update play_props (empty_level 50 CLASSIC) (?r 267 initial)"
    using run_ticks_Suc [of play_props "empty_level 50 CLASSIC" 267 initial] by simp
  have t1: "cruising 2403 (?r 267 initial) \<and> calls (?r 267 initial) = [OnWin]"
    using cruise_tick [of 2394 "?r 266 initial" 50] q by (simp add: s1)
  have t2: "calls (?r 268 initial) = [OnWin, OnWin]"
    using cruise_tick [of 2403 "?r 267 initial" 50] t1 by (simp add: s2)
  show ?thesis
    using q t1 t2 by simp
qed

subsection \<open>The one-shot input flag\<close>

text \<open>
  C6. A block at tile (1, 1), a key press between the first and the second tick: the
  player is alive when the second tick starts, jumps into the side of the block and dies
  there, and \<^verbatim>\<open>update\<close> returns from inside the loop, before the line that clears
  \<^verbatim>\<open>jumpPressedThisFrame\<close>. The flag is still set when the tick ends.
\<close>

theorem pressed_flag_survives_crash:
  "\<not> isDead (player (run play_props (single_level BLOCK 1 1 CLASSIC) [Tick, Press] initial)) \<and>
   isDead (player (run play_props (single_level BLOCK 1 1 CLASSIC) [Tick, Press, Tick] initial)) \<and>
   jumpPressedThisFrame
     (input (run play_props (single_level BLOCK 1 1 CLASSIC) [Tick, Press, Tick] initial))"
  by code_simp

subsection \<open>Death is final\<close>

text \<open>
  C9. Once \<open>isDead\<close> is set, simulation ticks change no field of the player: after any
  number of ticks the position, the velocity and every other field of \<open>Player\<close> are
  the ones before, and so the player stays dead.
\<close>

theorem dead_player_unchanged:
  "isDead (player g) \<Longrightarrow> player (run cfg lvl (replicate n Tick) g) = player g"
  by (induction n arbitrary: g) (simp_all add: update_dead)

theorem dead_player_unchanged_witness:
  "isDead (player (crash play_props initial)) \<and>
   player (run play_props (empty_level 50 CLASSIC) (replicate 3 Tick) (crash play_props initial)) =
   player (crash play_props initial)"
  using dead_player_unchanged [of "crash play_props initial" play_props "empty_level 50 CLASSIC" 3]
  by (simp add: crash_def report_death_def)

subsection \<open>Spikes\<close>

text \<open>
  C10. The lethal rectangle of a HALF_SPIKE at tile \<open>(x, y)\<close> has its top-left corner at
  \<open>(48 x + 14, - 48 y + 28)\<close> and is 20 wide and 20 high: 14 in from the left and the
  right, the bottom 20 of the 48. When the loop reaches the object, the player dies of it
  (the loop returns from \<^verbatim>\<open>update\<close> with \<open>isDead\<close> set) if and only if the inset hitbox
  of the player overlaps that rectangle; without an overlap the object changes nothing.
\<close>

theorem half_spike_hitbox:
  assumes "type_obj obj = HALF_SPIKE"
  defines "box \<equiv> \<lparr>x_rect = 48 * x_obj obj + 14, y_rect = - 48 * y_obj obj + 28,
                    w_rect = 20, h_rect = 20\<rparr>"
  shows "hitBox obj = box \<and>
         handle_obj cfg (mk_ctx gm prevY p) obj g =
           (if checkCollision \<lparr>x_rect = x_vec (position p) + 10, y_rect = y_vec (position p) - 38,
                                w_rect = 28, h_rect = 28\<rparr> box
            then Return (crash cfg g) else Continue g) \<and>
         isDead (player (crash cfg g))"
  using assms
  by (simp add: hitBox_def handle_obj_def is_orb_def is_portal_def mk_ctx_def crash_def
      report_death_def mult.commute)

theorem half_spike_hitbox_witness:
  "type_obj (tile HALF_SPIKE 1 1) = HALF_SPIKE \<and>
   hitBox (tile HALF_SPIKE 1 1) = \<lparr>x_rect = 62, y_rect = - 20, w_rect = 20, h_rect = 20\<rparr> \<and>
   handle_obj play_props (mk_ctx 1 0 (player_at 27 0 0 True 1)) (tile HALF_SPIKE 1 1) initial =
     Return (crash play_props initial)"
  using half_spike_hitbox [of "tile HALF_SPIKE 1 1" play_props 1 0 "player_at 27 0 0 True 1" initial]
  by (simp add: tile_def player_at_def checkCollision_def)

lemmas obj_defs = handle_obj_def handle_orb_def handle_portal_def handle_block_def
  gravity_portal_def speed_portal_def orb_effect_def spawnParticles_def Let_def

lemma handle_obj_Continue:
  assumes "handle_obj cfg c obj g = Continue g'"
  shows "calls g' = calls g" and "recordedTrail g' = recordedTrail g"
    and "isDead (player g') = isDead (player g)"
    and "x_vec (position (player g')) = x_vec (position (player g))"
    and "jump (input g') = jump (input g)"
  using assms by (auto simp add: obj_defs split: if_splits)

lemma handle_obj_Return:
  assumes "handle_obj cfg c obj g = Return g'"
  shows "g' = crash cfg g"
  using assms by (auto simp add: obj_defs split: if_splits)

lemma collide_Continue:
  assumes "collide cfg c objs g = Continue g'"
  shows "calls g' = calls g \<and> recordedTrail g' = recordedTrail g \<and>
         isDead (player g') = isDead (player g) \<and>
         x_vec (position (player g')) = x_vec (position (player g)) \<and>
         jump (input g') = jump (input g)"
  using assms
proof (induction objs arbitrary: g)
  case Nil
  then show ?case by simp
next
  case (Cons obj objs)
  then obtain g1 where h: "handle_obj cfg c obj g = Continue g1" and r: "collide cfg c objs g1 = Continue g'"
    by (auto split: flow.splits)
  show ?case
    using Cons.IH [OF r] handle_obj_Continue [OF h] by simp
qed

lemma collide_Return:
  assumes "collide cfg c objs g = Return g'"
  shows "\<exists>g1. g' = crash cfg g1 \<and> calls g1 = calls g \<and> recordedTrail g1 = recordedTrail g \<and>
           isDead (player g1) = isDead (player g) \<and>
           x_vec (position (player g1)) = x_vec (position (player g)) \<and>
           jump (input g1) = jump (input g)"
  using assms
proof (induction objs arbitrary: g)
  case Nil
  then show ?case by simp
next
  case (Cons obj objs)
  show ?case
  proof (cases "handle_obj cfg c obj g")
    case (Continue g1)
    then have r: "collide cfg c objs g1 = Return g'"
      using Cons.prems by simp
    show ?thesis
      using Cons.IH [OF r] handle_obj_Continue [OF Continue] by auto
  next
    case (Return g1)
    then have "g' = crash cfg g"
      using Cons.prems handle_obj_Return by simp
    then show ?thesis by auto
  qed
qed

lemma crash_simps:
  "isDead (player (crash cfg g))"
  "recordedTrail (crash cfg g) = recordedTrail g"
  "position (player (crash cfg g)) = position (player g)"
  "calls (crash cfg g) = calls g @
     [if isTestMode cfg \<and> hasOnTestComplete cfg
      then OnTestComplete (recordedTrail g) (Some (position (player g))) else OnDie]"
  by (simp_all add: crash_def report_death_def)

subsection \<open>What the stages of a tick leave alone\<close>

lemma update_alive:
  assumes "\<not> isDead (player g)"
  shows "update cfg lvl g =
     (let ga = g\<lparr>time := time g + 5 / 100, shake := decay_shake (shake g)\<rparr>;
          gm = gravityScale (player g);
          r = integrate lvl gm (record_trail cfg ga);
          c = mk_ctx gm (fst r) (player (snd r))
      in case collide cfg c (objects lvl) (snd r) of
           Return g2 \<Rightarrow> g2
         | Continue g2 \<Rightarrow> finish cfg lvl gm g2)"
  using assms by (simp add: update_def Let_def split: prod.splits flow.splits)

lemma stage_isDead [simp]:
  "isDead (stability_check lvl inp gm p) = isDead p"
  "isDead (apply_gravity gm p) = isDead p"
  "isDead (apply_speed p) = isDead p"
  "isDead (clamp_terminal gm p) = isDead p"
  "isDead (advance_x p) = isDead p"
  "isDead (rotate gm p) = isDead p"
  "isDead (advance_y p) = isDead p"
  by (simp_all add: stability_check_def apply_gravity_def apply_speed_def clamp_terminal_def
      advance_x_def rotate_def advance_y_def)

lemma apply_jump_frame [simp]:
  "calls (apply_jump gm g) = calls g"
  "recordedTrail (apply_jump gm g) = recordedTrail g"
  "input (apply_jump gm g) = input g"
  "isDead (player (apply_jump gm g)) = isDead (player g)"
  by (simp_all add: apply_jump_def spawnParticles_def)

lemma integrate_frame [simp]:
  "calls (snd (integrate lvl gm g)) = calls g"
  "recordedTrail (snd (integrate lvl gm g)) = recordedTrail g"
  "input (snd (integrate lvl gm g)) = input g"
  "isDead (player (snd (integrate lvl gm g))) = isDead (player g)"
  by (simp_all add: integrate_def Let_def)

lemma record_trail_frame:
  "calls (record_trail cfg g) = calls g"
  "player (record_trail cfg g) = player g"
  "input (record_trail cfg g) = input g"
  by (simp_all add: record_trail_def)

lemma move_camera_frame:
  "calls (move_camera lvl g) = calls g"
  "player (move_camera lvl g) = player g"
  "input (move_camera lvl g) = input g"
  "recordedTrail (move_camera lvl g) = recordedTrail g"
  by (simp_all add: move_camera_def Let_def)

lemma check_win_frame:
  "player (check_win cfg lvl g) = player g"
  "input (check_win cfg lvl g) = input g"
  "recordedTrail (check_win cfg lvl g) = recordedTrail g"
  "calls (check_win cfg lvl g) = calls g @
     (if \<not> isProcedural cfg \<and> x_vec (position (player g)) > length_lvl lvl * TILE_SIZE
      then [if isTestMode cfg \<and> hasOnTestComplete cfg
            then OnTestComplete (recordedTrail g) None else OnWin]
      else [])"
  by (simp_all add: check_win_def)

lemma floor_ceiling_frame:
  "recordedTrail (floor_ceiling cfg lvl gm g) = recordedTrail g"
  "input (floor_ceiling cfg lvl gm g) = input g"
  "x_vec (position (player (floor_ceiling cfg lvl gm g))) = x_vec (position (player g))"
  by (simp_all add: floor_ceiling_def report_death_def Let_def)

text \<open>The out-of-bounds test of FREE mode, where \<open>floor_ceiling\<close> makes it.\<close>

lemma floor_ceiling_dead:
  assumes "\<not> isDead (player g)"
  shows "isDead (player (floor_ceiling cfg lvl gm g)) \<longleftrightarrow>
           gm \<noteq> 1 \<and> gameMode lvl = FREE \<and>
           (y_vec (position (player g)) < - 3000 \<or> y_vec (position (player g)) > 1000)"
    and "isDead (player (floor_ceiling cfg lvl gm g)) \<Longrightarrow>
           position (player (floor_ceiling cfg lvl gm g)) = position (player g) \<and>
           calls (floor_ceiling cfg lvl gm g) = calls g @
             [if isTestMode cfg \<and> hasOnTestComplete cfg
              then OnTestComplete (recordedTrail g) (Some (position (player g))) else OnDie]"
    and "\<not> isDead (player (floor_ceiling cfg lvl gm g)) \<Longrightarrow>
           calls (floor_ceiling cfg lvl gm g) = calls g"
proof -
  let ?y = "y_vec (position (player g))"
  consider (floor) "gm = 1" | (oob) "gm \<noteq> 1" "gameMode lvl = FREE" "?y < - 3000 \<or> ?y > 1000"
    | (inb) "gm \<noteq> 1" "gameMode lvl = FREE" "\<not> (?y < - 3000 \<or> ?y > 1000)"
    | (ceil) "gm \<noteq> 1" "gameMode lvl \<noteq> FREE"
    by blast
  then have "(isDead (player (floor_ceiling cfg lvl gm g)) \<longleftrightarrow>
           gm \<noteq> 1 \<and> gameMode lvl = FREE \<and> (?y < - 3000 \<or> ?y > 1000)) \<and>
     (isDead (player (floor_ceiling cfg lvl gm g)) \<longrightarrow>
           position (player (floor_ceiling cfg lvl gm g)) = position (player g) \<and>
           calls (floor_ceiling cfg lvl gm g) = calls g @
             [if isTestMode cfg \<and> hasOnTestComplete cfg
              then OnTestComplete (recordedTrail g) (Some (position (player g))) else OnDie]) \<and>
     (\<not> isDead (player (floor_ceiling cfg lvl gm g)) \<longrightarrow>
           calls (floor_ceiling cfg lvl gm g) = calls g)"
    using assms
    by cases (simp_all add: floor_ceiling_def report_death_def Let_def)
  then show "isDead (player (floor_ceiling cfg lvl gm g)) \<longleftrightarrow>
           gm \<noteq> 1 \<and> gameMode lvl = FREE \<and>
           (y_vec (position (player g)) < - 3000 \<or> y_vec (position (player g)) > 1000)"
    and "isDead (player (floor_ceiling cfg lvl gm g)) \<Longrightarrow>
           position (player (floor_ceiling cfg lvl gm g)) = position (player g) \<and>
           calls (floor_ceiling cfg lvl gm g) = calls g @
             [if isTestMode cfg \<and> hasOnTestComplete cfg
              then OnTestComplete (recordedTrail g) (Some (position (player g))) else OnDie]"
    and "\<not> isDead (player (floor_ceiling cfg lvl gm g)) \<Longrightarrow>
           calls (floor_ceiling cfg lvl gm g) = calls g"
    by blast+
qed

lemma finish_frame [simp]:
  "recordedTrail (finish cfg lvl gm g) = recordedTrail g"
  "x_vec (position (player (finish cfg lvl gm g))) = x_vec (position (player g))"
  "player (finish cfg lvl gm g) = player (floor_ceiling cfg lvl gm g)"
  by (simp_all add: finish_def Let_def check_win_frame move_camera_frame floor_ceiling_frame)

lemma finish_calls:
  "calls (finish cfg lvl gm g) = calls (floor_ceiling cfg lvl gm g) @
     (if \<not> isProcedural cfg \<and> x_vec (position (player g)) > length_lvl lvl * TILE_SIZE
      then [if isTestMode cfg \<and> hasOnTestComplete cfg
            then OnTestComplete (recordedTrail g) None else OnWin]
      else [])"
  by (simp add: finish_def Let_def check_win_frame move_camera_frame floor_ceiling_frame)

lemma update_dead_calls: "isDead (player g) \<Longrightarrow> calls (update cfg lvl g) = calls g"
  by (simp add: update_def spawnParticles_def)

lemma update_loop:
  assumes "\<not> isDead (player g)"
  shows "update cfg lvl g =
     (case collide cfg (tick_ctx cfg lvl g) (objects lvl) (before_loop cfg lvl g) of
        Return g2 \<Rightarrow> g2
      | Continue g2 \<Rightarrow> finish cfg lvl (gravityScale (player g)) g2)"
  unfolding before_loop_def tick_ctx_def
  using update_alive [OF assms, of cfg lvl] by (simp only: Let_def)

lemma before_loop_frame [simp]:
  "calls (before_loop cfg lvl g) = calls g"
  "isDead (player (before_loop cfg lvl g)) = isDead (player g)"
  "input (before_loop cfg lvl g) = input g"
  by (simp_all add: before_loop_def record_trail_frame)

text \<open>The two ways a tick begun alive can end: some object made \<open>update\<close> return, or the
  loop ran through and \<open>finish\<close> followed.\<close>

lemma update_cases:
  assumes "\<not> isDead (player g)"
  obtains (crashed) g1 where "update cfg lvl g = crash cfg g1" "calls g1 = calls g"
      "\<not> isDead (player g1)"
    | (finished) g2 where "update cfg lvl g = finish cfg lvl (gravityScale (player g)) g2"
      "collide cfg (tick_ctx cfg lvl g) (objects lvl) (before_loop cfg lvl g) = Continue g2"
      "calls g2 = calls g" "\<not> isDead (player g2)"
proof (cases "collide cfg (tick_ctx cfg lvl g) (objects lvl) (before_loop cfg lvl g)")
  case (Continue g2)
  then have "update cfg lvl g = finish cfg lvl (gravityScale (player g)) g2"
    by (simp add: update_loop [OF assms])
  then show thesis
    using collide_Continue [OF Continue] assms finished Continue by simp
next
  case (Return g2)
  then have u2: "update cfg lvl g = g2"
    by (simp add: update_loop [OF assms])
  obtain g1 where "g2 = crash cfg g1" "calls g1 = calls (before_loop cfg lvl g)"
      "isDead (player g1) = isDead (player (before_loop cfg lvl g))"
    using collide_Return [OF Return] by blast
  then show thesis
    using u2 assms crashed by simp
qed

subsection \<open>Test mode\<close>

lemma test_tick:
  assumes tm: "isTestMode cfg" "hasOnTestComplete cfg" and alive: "\<not> isDead (player g)"
  shows "let g' = update cfg lvl g;
             done = OnTestComplete (recordedTrail g');
             pos = position (player g');
             ended = (\<not> isProcedural cfg \<and> x_vec pos > length_lvl lvl * TILE_SIZE)
         in (isDead (player g') \<longrightarrow>
               calls g' = calls g @ [done (Some pos)] \<or>
               gameMode lvl = FREE \<and> ended \<and> calls g' = calls g @ [done (Some pos), done None]) \<and>
            (\<not> isDead (player g') \<longrightarrow>
               calls g' = calls g @ (if ended then [done None] else []))"
  using alive
proof (cases rule: update_cases [of g cfg lvl])
  case (crashed g1)
  then show ?thesis
    using tm by (simp add: crash_simps Let_def)
next
  case (finished g2)
  let ?f = "floor_ceiling cfg lvl (gravityScale (player g)) g2"
  show ?thesis
  proof (cases "isDead (player ?f)")
    case True
    from floor_ceiling_dead(1,2) [OF finished(4), of cfg lvl "gravityScale (player g)"] True
    show ?thesis
      using tm finished(1,3)
      by (simp add: Let_def finish_calls floor_ceiling_frame)
  next
    case False
    from floor_ceiling_dead(3) [OF finished(4) False]
    show ?thesis
      using tm finished(1,3) False
      by (simp add: Let_def finish_calls floor_ceiling_frame)
  qed
qed

lemma test_run_calls:
  assumes tm: "isTestMode cfg" "hasOnTestComplete cfg"
    and "OnDie \<notin> set (calls g) \<and> OnWin \<notin> set (calls g)"
  shows "OnDie \<notin> set (calls (run cfg lvl es g)) \<and> OnWin \<notin> set (calls (run cfg lvl es g))"
  using assms(3)
proof (induction es arbitrary: g)
  case Nil
  then show ?case by simp
next
  case (Cons e es)
  have "OnDie \<notin> set (calls (step cfg lvl e g)) \<and> OnWin \<notin> set (calls (step cfg lvl e g))"
  proof (cases e)
    case Tick
    show ?thesis
    proof (cases "isDead (player g)")
      case True
      then show ?thesis using Cons.prems Tick by (simp add: update_dead_calls)
    next
      case False
      from test_tick [OF tm False, of lvl] show ?thesis
        using Cons.prems Tick by (auto simp add: Let_def split: if_splits)
    qed
  next
    case Press
    then show ?thesis using Cons.prems by (simp add: press_def)
  next
    case Release
    then show ?thesis using Cons.prems by (simp add: release_def)
  qed
  then show ?case
    using Cons.IH by simp
qed

lemma floor_ceiling_band:
  assumes "gm \<noteq> 1" "gameMode lvl = FREE" "\<not> isDead (player g)"
    "\<not> isDead (player (floor_ceiling cfg lvl gm g))"
  shows "- 3000 \<le> y_vec (position (player (floor_ceiling cfg lvl gm g))) \<and>
         y_vec (position (player (floor_ceiling cfg lvl gm g))) \<le> 1000"
proof -
  have "\<not> (y_vec (position (player g)) < - 3000 \<or> y_vec (position (player g)) > 1000)"
    using floor_ceiling_dead(1) [OF assms(3), of cfg lvl gm] assms by simp
  then show ?thesis
    using assms by (simp add: floor_ceiling_def Let_def)
qed

lemma free_band:
  assumes "gameMode lvl = FREE" "\<not> isDead (player g)" "gravityScale (player g) \<noteq> 1"
  shows "isDead (player (update cfg lvl g)) \<or>
         (- 3000 \<le> y_vec (position (player (update cfg lvl g))) \<and>
          y_vec (position (player (update cfg lvl g))) \<le> 1000)"
  using assms(2)
proof (cases rule: update_cases [of g cfg lvl])
  case (crashed g1)
  then show ?thesis by (simp add: crash_simps)
next
  case (finished g2)
  then show ?thesis
    using floor_ceiling_band [OF assms(3,1) finished(4), of cfg] by auto
qed

subsection \<open>The movement of a tick, field by field\<close>

lemma stability_check_fields [simp]:
  "position (stability_check lvl inp gm p) = position p"
  "velocity (stability_check lvl inp gm p) = velocity p"
  "gravityScale (stability_check lvl inp gm p) = gravityScale p"
  "canOrbJump (stability_check lvl inp gm p) = canOrbJump p"
  "speedMultiplier (stability_check lvl inp gm p) = speedMultiplier p"
  "lastPortalX (stability_check lvl inp gm p) = lastPortalX p"
  by (simp_all add: stability_check_def)

lemma stability_check_grounded:
  "isGrounded (stability_check lvl inp gm p) \<longleftrightarrow>
     isGrounded p \<and> (jump inp \<or> plane_supports lvl gm p \<or> find_support gm p (objects lvl))"
  by (auto simp add: stability_check_def)

lemma apply_gravity_fields [simp]:
  "position (apply_gravity gm p) = position p"
  "x_vec (velocity (apply_gravity gm p)) = x_vec (velocity p)"
  "y_vec (velocity (apply_gravity gm p)) =
     (if isGrounded p then 0 else y_vec (velocity p) + 2 * gm)"
  "isGrounded (apply_gravity gm p) = isGrounded p"
  "gravityScale (apply_gravity gm p) = gravityScale p"
  "canOrbJump (apply_gravity gm p) = canOrbJump p"
  "speedMultiplier (apply_gravity gm p) = speedMultiplier p"
  "lastPortalX (apply_gravity gm p) = lastPortalX p"
  by (simp_all add: apply_gravity_def)

lemma apply_speed_fields [simp]:
  "position (apply_speed p) = position p"
  "x_vec (velocity (apply_speed p)) = 9 * speedMultiplier p"
  "y_vec (velocity (apply_speed p)) = y_vec (velocity p)"
  "isGrounded (apply_speed p) = isGrounded p"
  "gravityScale (apply_speed p) = gravityScale p"
  "canOrbJump (apply_speed p) = canOrbJump p"
  "speedMultiplier (apply_speed p) = speedMultiplier p"
  "lastPortalX (apply_speed p) = lastPortalX p"
  by (simp_all add: apply_speed_def)

lemma apply_jump_fields [simp]:
  "position (player (apply_jump gm g)) = position (player g)"
  "x_vec (velocity (player (apply_jump gm g))) = x_vec (velocity (player g))"
  "y_vec (velocity (player (apply_jump gm g))) =
     (if jump (input g) \<and> isGrounded (player g) then - 24 * gm else y_vec (velocity (player g)))"
  "isGrounded (player (apply_jump gm g)) \<longleftrightarrow> isGrounded (player g) \<and> \<not> jump (input g)"
  "gravityScale (player (apply_jump gm g)) = gravityScale (player g)"
  "canOrbJump (player (apply_jump gm g)) \<longleftrightarrow>
     canOrbJump (player g) \<and> \<not> (jump (input g) \<and> isGrounded (player g))"
  "speedMultiplier (player (apply_jump gm g)) = speedMultiplier (player g)"
  "lastPortalX (player (apply_jump gm g)) = lastPortalX (player g)"
  by (auto simp add: apply_jump_def spawnParticles_def)

lemma clamp_terminal_fields [simp]:
  "position (clamp_terminal gm p) = position p"
  "x_vec (velocity (clamp_terminal gm p)) = x_vec (velocity p)"
  "y_vec (velocity (clamp_terminal gm p)) =
     (if gm = 1 then min (y_vec (velocity p)) 30 else max (y_vec (velocity p)) (- 30))"
  "isGrounded (clamp_terminal gm p) = isGrounded p"
  "gravityScale (clamp_terminal gm p) = gravityScale p"
  "canOrbJump (clamp_terminal gm p) = canOrbJump p"
  "speedMultiplier (clamp_terminal gm p) = speedMultiplier p"
  "lastPortalX (clamp_terminal gm p) = lastPortalX p"
  by (simp_all add: clamp_terminal_def)

lemma advance_x_fields [simp]:
  "x_vec (position (advance_x p)) = x_vec (position p) + x_vec (velocity p)"
  "y_vec (position (advance_x p)) = y_vec (position p)"
  "velocity (advance_x p) = velocity p"
  "isGrounded (advance_x p) = isGrounded p"
  "gravityScale (advance_x p) = gravityScale p"
  "canOrbJump (advance_x p) = canOrbJump p"
  "speedMultiplier (advance_x p) = speedMultiplier p"
  "lastPortalX (advance_x p) = lastPortalX p"
  by (simp_all add: advance_x_def)

lemma rotate_fields [simp]:
  "position (rotate gm p) = position p"
  "velocity (rotate gm p) = velocity p"
  "isGrounded (rotate gm p) = isGrounded p"
  "gravityScale (rotate gm p) = gravityScale p"
  "canOrbJump (rotate gm p) = canOrbJump p"
  "speedMultiplier (rotate gm p) = speedMultiplier p"
  "lastPortalX (rotate gm p) = lastPortalX p"
  by (simp_all add: rotate_def)

lemma advance_y_fields [simp]:
  "x_vec (position (advance_y p)) = x_vec (position p)"
  "y_vec (position (advance_y p)) = y_vec (position p) + y_vec (velocity p)"
  "velocity (advance_y p) = velocity p"
  "isGrounded (advance_y p) = isGrounded p"
  "gravityScale (advance_y p) = gravityScale p"
  "canOrbJump (advance_y p) = canOrbJump p"
  "speedMultiplier (advance_y p) = speedMultiplier p"
  "lastPortalX (advance_y p) = lastPortalX p"
  by (simp_all add: advance_y_def)

text \<open>The vertical velocity with which a tick moves the player.\<close>

lemma integrate_velocity:
  "y_vec (velocity (player (snd (integrate lvl gm g)))) =
     (let gr = isGrounded (stability_check lvl (input g) gm (player g));
          v = (if jump (input g) \<and> gr then - 24 * gm
               else if gr then 0 else y_vec (velocity (player g)) + 2 * gm)
      in if gm = 1 then min v 30 else max v (- 30))"
  by (auto simp add: integrate_def Let_def)

lemma integrate_position:
  "y_vec (position (player (snd (integrate lvl gm g)))) =
     y_vec (position (player g)) + y_vec (velocity (player (snd (integrate lvl gm g))))"
  "fst (integrate lvl gm g) =
     y_vec (position (player g)) - y_vec (velocity (player (snd (integrate lvl gm g))))"
  "x_vec (position (player (snd (integrate lvl gm g)))) =
     x_vec (position (player g)) + 9 * speedMultiplier (player g)"
  by (simp_all add: integrate_def Let_def)

lemma integrate_fields:
  "isGrounded (player (snd (integrate lvl gm g))) \<longleftrightarrow>
     isGrounded (stability_check lvl (input g) gm (player g)) \<and> \<not> jump (input g)"
  "canOrbJump (player (snd (integrate lvl gm g))) \<longleftrightarrow>
     canOrbJump (player g) \<and>
     \<not> (jump (input g) \<and> isGrounded (stability_check lvl (input g) gm (player g)))"
  "gravityScale (player (snd (integrate lvl gm g))) = gravityScale (player g)"
  "speedMultiplier (player (snd (integrate lvl gm g))) = speedMultiplier (player g)"
  "lastPortalX (player (snd (integrate lvl gm g))) = lastPortalX (player g)"
  by (simp_all add: integrate_def Let_def)

subsection \<open>Out of bounds in FREE mode\<close>

lemma before_loop_fields:
  "y_vec (position (player (before_loop cfg lvl g))) =
     y_vec (position (player g)) + y_vec (velocity (player (before_loop cfg lvl g)))"
  "y_vec (velocity (player (before_loop cfg lvl g))) =
     (let gm = gravityScale (player g);
          gr = isGrounded (stability_check lvl (input g) gm (player g));
          v = (if jump (input g) \<and> gr then - 24 * gm
               else if gr then 0 else y_vec (velocity (player g)) + 2 * gm)
      in if gm = 1 then min v 30 else max v (- 30))"
  "x_vec (position (player (before_loop cfg lvl g))) =
     x_vec (position (player g)) + 9 * speedMultiplier (player g)"
  by (auto simp add: before_loop_def integrate_position integrate_velocity record_trail_frame
      Let_def)

lemma handle_obj_no_block:
  assumes "type_obj obj \<noteq> BLOCK" "handle_obj cfg c obj g = Continue g'"
  shows "position (player g') = position (player g)"
  using assms by (auto simp add: obj_defs split: if_splits)

lemma collide_no_block:
  assumes "list_all (\<lambda>obj. type_obj obj \<noteq> BLOCK) objs" "collide cfg c objs g = Continue g'"
  shows "position (player g') = position (player g)"
  using assms
proof (induction objs arbitrary: g)
  case Nil
  then show ?case by simp
next
  case (Cons obj objs)
  then obtain g1 where h: "handle_obj cfg c obj g = Continue g1"
      and r: "collide cfg c objs g1 = Continue g'"
    by (auto split: flow.splits)
  show ?case
    using Cons.IH [OF _ r] handle_obj_no_block [OF _ h] Cons.prems(1) by simp
qed

lemma find_support_no_block:
  "list_all (\<lambda>obj. type_obj obj \<noteq> BLOCK) objs \<Longrightarrow> \<not> find_support gm p objs"
  by (induction objs) (simp_all add: block_supports_def)

text \<open>Without a block to land on, the tick ends where the movement put the player, and
  in FREE mode under inverted gravity it ends in death exactly when that is out of bounds
  or a spike was hit.\<close>

lemma free_no_blocks:
  assumes "gameMode lvl = FREE" "\<not> isDead (player g)" "gravityScale (player g) \<noteq> 1"
    "no_blocks lvl"
    "y_vec (position (player (before_loop cfg lvl g))) < - 3000 \<or>
     y_vec (position (player (before_loop cfg lvl g))) > 1000"
  shows "isDead (player (update cfg lvl g))"
  using assms(2)
proof (cases rule: update_cases [of g cfg lvl])
  case (crashed g1)
  then show ?thesis by (simp add: crash_simps)
next
  case (finished g2)
  have "position (player g2) = position (player (before_loop cfg lvl g))"
    using collide_no_block [OF _ finished(2)] assms(4) by (simp add: no_blocks_def)
  then show ?thesis
    using floor_ceiling_dead(1) [OF finished(4), of cfg lvl "gravityScale (player g)"] assms
      finished(1) by simp
qed

lemma free_above:
  assumes "gameMode lvl = FREE" "\<not> isDead (player g)" "gravityScale (player g) = - 1"
    "no_blocks lvl" "y_vec (position (player g)) = - 3001"
    "\<not> (isGrounded (player g) \<and> jump (input g))" "y_vec (velocity (player g)) \<le> 2"
  shows "isDead (player (update cfg lvl g))"
proof -
  have "\<not> isGrounded (stability_check lvl (input g) (- 1) (player g))"
    using assms find_support_no_block [of "objects lvl" "- 1" "player g"]
    by (auto simp add: stability_check_grounded plane_supports_def no_blocks_def)
  then have "y_vec (position (player (before_loop cfg lvl g))) < - 3000"
    using assms by (simp add: before_loop_fields Let_def)
  then show ?thesis
    using free_no_blocks [of lvl g cfg] assms by simp
qed

lemma free_below:
  assumes "gameMode lvl = FREE" "\<not> isDead (player g)" "gravityScale (player g) = - 1"
    "no_blocks lvl" "y_vec (position (player g)) = 1001"
    "(isGrounded (player g) \<and> jump (input g)) \<or> y_vec (velocity (player g)) > 1"
  shows "isDead (player (update cfg lvl g))"
proof -
  have "jump (input g) \<Longrightarrow> isGrounded (stability_check lvl (input g) (- 1) (player g)) = isGrounded (player g)"
    by (simp add: stability_check_grounded)
  moreover have "\<not> jump (input g) \<Longrightarrow> \<not> isGrounded (stability_check lvl (input g) (- 1) (player g))"
    using assms find_support_no_block [of "objects lvl" "- 1" "player g"]
    by (auto simp add: stability_check_grounded plane_supports_def no_blocks_def)
  ultimately have "y_vec (position (player (before_loop cfg lvl g))) > 1000"
    using assms by (auto simp add: before_loop_fields Let_def)
  then show ?thesis
    using free_no_blocks [of lvl g cfg] assms by simp
qed

text \<open>
  C2, as the claim has it, fails. In FREE mode, with no object in the level: an airborne
  player at \<open>y = - 3001\<close> under normal gravity is alive after the tick; a player at
  \<open>y = 1001\<close> under normal gravity is put back on the floor, alive; and under inverted
  gravity a player at \<open>y = - 3001\<close> that moves down with velocity 12 is back inside the
  band after the tick, alive. With a block in row 64, a player at \<open>y = - 3001\<close> that rises
  under inverted gravity lands on the underside of the block, at \<open>y = - 2976\<close>, alive.
\<close>

theorem free_out_of_bounds_counterexample:
  "\<not> isDead (player (update play_props (empty_level 50 FREE)
        (game_of (player_at 100 (- 3001) 0 False 1)))) \<and>
   \<not> isDead (player (update play_props (empty_level 50 FREE)
        (game_of (player_at 100 1001 0 True 1)))) \<and>
   \<not> isDead (player (update play_props (empty_level 50 FREE)
        (game_of (player_at 100 (- 3001) 12 False (- 1))))) \<and>
   \<not> isDead (player (update play_props (single_level BLOCK 2 64 FREE)
        (game_of (player_at 100 (- 3001) (- 12) False (- 1))))) \<and>
   y_vec (position (player (update play_props (single_level BLOCK 2 64 FREE)
        (game_of (player_at 100 (- 3001) (- 12) False (- 1)))))) = - 2976"
  by code_simp

text \<open>
  C2, amended. In FREE mode the out-of-bounds test is made under inverted gravity only,
  and on the position that the movement and the collisions of the tick produce. A tick
  begun alive under inverted gravity ends with the player dead or with
  \<open>- 3000 \<le> y \<le> 1000\<close>. In a level without blocks, a player at \<open>y = - 3001\<close> is dead
  after the tick unless it jumps off a surface or its vertical velocity is above 2, and a
  player at \<open>y = 1001\<close> is dead after the tick if it jumps off a surface or its vertical
  velocity is above 1.
\<close>

theorem free_out_of_bounds:
  assumes "gameMode lvl = FREE" and "\<not> isDead (player g)" and "gravityScale (player g) = - 1"
  shows "(isDead (player (update cfg lvl g)) \<or>
          (- 3000 \<le> y_vec (position (player (update cfg lvl g))) \<and>
           y_vec (position (player (update cfg lvl g))) \<le> 1000)) \<and>
         (no_blocks lvl \<and> y_vec (position (player g)) = - 3001 \<and>
          \<not> (isGrounded (player g) \<and> jump (input g)) \<and> y_vec (velocity (player g)) \<le> 2 \<longrightarrow>
          isDead (player (update cfg lvl g))) \<and>
         (no_blocks lvl \<and> y_vec (position (player g)) = 1001 \<and>
          ((isGrounded (player g) \<and> jump (input g)) \<or> y_vec (velocity (player g)) > 1) \<longrightarrow>
          isDead (player (update cfg lvl g)))"
proof -
  have "gravityScale (player g) \<noteq> 1"
    using assms(3) by simp
  then show ?thesis
    using free_band [OF assms(1,2), of cfg] free_above [OF assms, of cfg]
      free_below [OF assms, of cfg] by blast
qed

theorem free_out_of_bounds_witness:
  "gameMode (empty_level 50 FREE) = FREE \<and>
   \<not> isDead (player (game_of (player_at 100 (- 3001) (- 30) False (- 1)))) \<and>
   gravityScale (player (game_of (player_at 100 (- 3001) (- 30) False (- 1)))) = - 1 \<and>
   isDead (player (update play_props (empty_level 50 FREE)
     (game_of (player_at 100 (- 3001) (- 30) False (- 1)))))"
  using free_out_of_bounds [of "empty_level 50 FREE"
      "game_of (player_at 100 (- 3001) (- 30) False (- 1))" play_props]
  by (simp add: empty_level_def game_of_def player_at_def initial_def no_blocks_def)

subsection \<open>Invariants of a run\<close>

text \<open>What a loop iteration that does not return can have done.\<close>

lemma handle_obj_Continue_cases:
  assumes "handle_obj cfg c obj g = Continue g'"
  obtains (orb) "is_orb (type_obj obj)" "g' = handle_orb c obj g"
    | (portal) "is_portal (type_obj obj)" "g' = handle_portal c obj g"
    | (block) "type_obj obj = BLOCK" "checkCollision (pRect_ctx c) (hitBox obj)"
        "lands c obj (player g)"
        "g' = g\<lparr>player := (player g)
                \<lparr>position := (position (player g))\<lparr>y_vec := land_y c obj\<rparr>,
                 velocity := (velocity (player g))\<lparr>y_vec := 0\<rparr>,
                 isGrounded := True\<rparr>\<rparr>"
    | (miss) "g' = g"
  using assms by (auto simp add: handle_obj_def handle_block_def split: if_splits)

lemma handle_orb_inv: "loop_inv (player g) \<Longrightarrow> loop_inv (player (handle_orb c obj g))"
  by (auto simp add: handle_orb_def orb_effect_def spawnParticles_def Let_def loop_inv_def
      player_inv_def)

lemma handle_portal_inv: "loop_inv (player g) \<Longrightarrow> loop_inv (player (handle_portal c obj g))"
  by (auto simp add: handle_portal_def gravity_portal_def speed_portal_def spawnParticles_def
      Let_def loop_inv_def player_inv_def)

lemma handle_obj_inv:
  assumes "loop_inv (player g)" "handle_obj cfg c obj g = Continue g'"
  shows "loop_inv (player g')"
  using assms(2)
proof (cases rule: handle_obj_Continue_cases)
  case orb
  then show ?thesis using assms(1) handle_orb_inv by simp
next
  case portal
  then show ?thesis using assms(1) handle_portal_inv by simp
next
  case block
  then show ?thesis using assms(1) by (simp add: loop_inv_def player_inv_def)
next
  case miss
  then show ?thesis using assms(1) by simp
qed

lemma crash_inv: "loop_inv (player g) \<Longrightarrow> loop_inv (player (crash cfg g))"
  by (simp add: crash_def report_death_def loop_inv_def player_inv_def)

lemma collide_inv:
  assumes "loop_inv (player g)"
  shows "collide cfg c objs g = Continue g' \<Longrightarrow> loop_inv (player g')"
    and "collide cfg c objs g = Return g' \<Longrightarrow> loop_inv (player g')"
  using assms
proof (induction objs arbitrary: g)
  case Nil
  { case 1 then show ?case by simp }
  { case 2 then show ?case by simp }
next
  case (Cons obj objs)
  { case 1
    then obtain g1 where h: "handle_obj cfg c obj g = Continue g1"
        and r: "collide cfg c objs g1 = Continue g'"
      by (auto split: flow.splits)
    show ?case
      using Cons.IH(1) [OF r] handle_obj_inv [OF 1(2) h] by simp }
  { case 2
    show ?case
    proof (cases "handle_obj cfg c obj g")
      case (Continue g1)
      then have r: "collide cfg c objs g1 = Return g'"
        using 2(1) by simp
      show ?thesis
        using Cons.IH(2) [OF r] handle_obj_inv [OF 2(2) Continue] by simp
    next
      case (Return g1)
      then show ?thesis
        using 2 handle_obj_Return [OF Return] crash_inv [of g cfg] by auto
    qed }
qed


lemma finish_player_inv:
  "loop_inv (player g) \<Longrightarrow> loop_inv (player (finish cfg lvl gm g))"
  by (simp add: floor_ceiling_def report_death_def loop_inv_def player_inv_def Let_def)

lemma before_loop_more:
  "gravityScale (player (before_loop cfg lvl g)) = gravityScale (player g)"
  "speedMultiplier (player (before_loop cfg lvl g)) = speedMultiplier (player g)"
  "lastPortalX (player (before_loop cfg lvl g)) = lastPortalX (player g)"
  "isGrounded (player (before_loop cfg lvl g)) \<longleftrightarrow>
     isGrounded (stability_check lvl (input g) (gravityScale (player g)) (player g)) \<and>
     \<not> jump (input g)"
  "canOrbJump (player (before_loop cfg lvl g)) \<longleftrightarrow>
     canOrbJump (player g) \<and>
     \<not> (jump (input g) \<and>
        isGrounded (stability_check lvl (input g) (gravityScale (player g)) (player g)))"
  by (simp_all add: before_loop_def integrate_fields record_trail_frame)

lemma before_loop_inv:
  assumes "player_inv (player g)"
  shows "loop_inv (player (before_loop cfg lvl g))"
proof -
  have "0 < 9 * speedMultiplier (player g)"
    using assms by (simp add: player_inv_def)
  then show ?thesis
    using assms
    by (simp add: loop_inv_def player_inv_def before_loop_fields before_loop_more)
qed

lemma update_inv:
  assumes "player_inv (player g)"
  shows "player_inv (player (update cfg lvl g))"
proof (cases "isDead (player g)")
  case True
  then show ?thesis using assms by (simp add: update_dead)
next
  case False
  note l = before_loop_inv [OF assms, of cfg lvl]
  show ?thesis
  proof (cases "collide cfg (tick_ctx cfg lvl g) (objects lvl) (before_loop cfg lvl g)")
    case (Continue g2)
    then show ?thesis
      using collide_inv(1) [OF l Continue] finish_player_inv [of g2 cfg lvl]
      by (simp add: update_loop [OF False] loop_inv_def)
  next
    case (Return g2)
    then show ?thesis
      using collide_inv(2) [OF l Return] by (simp add: update_loop [OF False] loop_inv_def)
  qed
qed

lemma run_inv:
  "player_inv (player g) \<Longrightarrow> player_inv (player (run cfg lvl es g))"
proof (induction es arbitrary: g)
  case Nil
  then show ?case by simp
next
  case (Cons e es)
  have "player_inv (player (step cfg lvl e g))"
    using Cons.prems update_inv [of g cfg lvl]
    by (cases e) (simp_all add: press_def release_def player_inv_def)
  then show ?case
    using Cons.IH by simp
qed

lemma initial_inv: "player_inv (player initial)"
  by (simp add: initial_def player_inv_def)

lemma portal_step:
  assumes "type_obj obj = PORTAL_GRAVITY"
      and "checkCollision (pRect_ctx c) (portal_rect obj)"
      and "loop_inv (player g)"
  shows "\<exists>g'. handle_obj cfg c obj g = Continue g' \<and>
           (if portal_flips (player g)
            then gravityScale (player g') = - gravityScale (player g) \<and>
                 lastPortalX (player g') = Some (x_vec (position (player g)))
            else g' = g)"
  using assms
  by (auto simp add: handle_obj_def is_orb_def is_portal_def handle_portal_def speed_portal_def
      gravity_portal_def lastPortalX_or_def portal_flips_def spawnParticles_def Let_def
      loop_inv_def player_inv_def split: option.splits)

lemma tick_ctx_fields:
  "gravityMult_ctx (tick_ctx cfg lvl g) = gravityScale (player g)"
  "pRect_ctx (tick_ctx cfg lvl g) =
     \<lparr>x_rect = x_vec (position (player (before_loop cfg lvl g))) + 10,
      y_rect = y_vec (position (player (before_loop cfg lvl g))) - 38,
      w_rect = 28, h_rect = 28\<rparr>"
  "pCenterX_ctx (tick_ctx cfg lvl g) = x_vec (position (player (before_loop cfg lvl g))) + 24"
  "pCenterY_ctx (tick_ctx cfg lvl g) = y_vec (position (player (before_loop cfg lvl g))) - 24"
  "prevY_ctx (tick_ctx cfg lvl g) =
     y_vec (position (player g)) - y_vec (velocity (player (before_loop cfg lvl g)))"
  by (simp_all add: tick_ctx_def mk_ctx_def before_loop_def integrate_position
      record_trail_frame)

subsection \<open>The gravity portal\<close>

text \<open>
  C5. Take any tick of any run, begun alive, and any gravity portal of the level that the
  loop of that tick reaches with the hitbox of the player overlapping the strip of the
  portal (18 wide, 15 in from the left of the tile, three tiles high). Handling the
  portal negates the gravity sign if and only if the horizontal position of the player
  differs by more than \<open>2 * 48 = 96\<close> from the position recorded at the last flip by a
  gravity portal, or nothing is recorded. A flip records the current position; without a
  flip the portal changes nothing.
\<close>

theorem gravity_portal_cooldown:
  assumes "g = run cfg lvl es initial" and "\<not> isDead (player g)"
      and "objects lvl = pre @ obj # post"
      and "collide cfg (tick_ctx cfg lvl g) pre (before_loop cfg lvl g) = Continue gm"
      and "type_obj obj = PORTAL_GRAVITY"
      and "checkCollision (pRect_ctx (tick_ctx cfg lvl g)) (portal_rect obj)"
  shows "portal_rect obj = \<lparr>x_rect = 48 * x_obj obj + 15, y_rect = - 48 * y_obj obj - 96,
                             w_rect = 18, h_rect = 144\<rparr> \<and>
         (\<exists>g'. handle_obj cfg (tick_ctx cfg lvl g) obj gm = Continue g' \<and>
           (gravityScale (player g') = - gravityScale (player gm) \<longleftrightarrow> portal_flips (player gm)) \<and>
           (portal_flips (player gm) \<longrightarrow>
              lastPortalX (player g') = Some (x_vec (position (player gm)))) \<and>
           (\<not> portal_flips (player gm) \<longrightarrow> g' = gm) \<and>
           (lastPortalX (player gm) = None \<longrightarrow> portal_flips (player gm)))"
proof -
  have "player_inv (player g)"
    using assms(1) run_inv [OF initial_inv] by simp
  then have l: "loop_inv (player gm)"
    using before_loop_inv collide_inv(1) [OF _ assms(4)] by blast
  then have nz: "gravityScale (player gm) \<noteq> - gravityScale (player gm)"
    by (auto simp add: loop_inv_def player_inv_def)
  obtain g' where h: "handle_obj cfg (tick_ctx cfg lvl g) obj gm = Continue g'"
      and e: "if portal_flips (player gm)
         then gravityScale (player g') = - gravityScale (player gm) \<and>
              lastPortalX (player g') = Some (x_vec (position (player gm)))
         else g' = gm"
    using portal_step [OF assms(5,6) l, of cfg] by blast
  have "(gravityScale (player g') = - gravityScale (player gm) \<longleftrightarrow> portal_flips (player gm))"
    using e nz by (cases "portal_flips (player gm)") simp_all
  moreover have "lastPortalX (player gm) = None \<longrightarrow> portal_flips (player gm)"
    by (simp add: portal_flips_def)
  moreover have "portal_rect obj = \<lparr>x_rect = 48 * x_obj obj + 15, y_rect = - 48 * y_obj obj - 96,
                             w_rect = 18, h_rect = 144\<rparr>"
    by (simp add: portal_rect_def mult.commute)
  ultimately show ?thesis
    using h e by auto
qed

theorem gravity_portal_cooldown_witness:
  "\<not> isDead (player portal_run) \<and>
   checkCollision (pRect_ctx (tick_ctx play_props portal_level portal_run))
     (portal_rect (tile PORTAL_GRAVITY 1 1)) \<and>
   (\<exists>g'. handle_obj play_props (tick_ctx play_props portal_level portal_run)
           (tile PORTAL_GRAVITY 1 1) (before_loop play_props portal_level portal_run) =
         Continue g' \<and>
         gravityScale (player g') = - 1 \<and> lastPortalX (player g') = Some 27)"
proof -
  let ?c = "tick_ctx play_props portal_level portal_run"
  let ?b = "before_loop play_props portal_level portal_run"
  have a: "\<not> isDead (player portal_run) \<and> checkCollision (pRect_ctx ?c)
      (portal_rect (tile PORTAL_GRAVITY 1 1)) \<and> gravityScale (player ?b) = 1 \<and>
      lastPortalX (player ?b) = None \<and> x_vec (position (player ?b)) = 27"
    by code_simp
  have r: "portal_run = run play_props portal_level [Tick, Tick] initial"
    by (simp add: portal_run_def)
  have o: "objects portal_level = [] @ tile PORTAL_GRAVITY 1 1 # []"
    by (simp add: portal_level_def single_level_def)
  have c: "collide play_props ?c [] ?b = Continue ?b"
    by simp
  have t: "type_obj (tile PORTAL_GRAVITY 1 1) = PORTAL_GRAVITY"
    by (simp add: tile_def)
  show ?thesis
    using gravity_portal_cooldown [OF r _ o c t] a by auto
qed

subsection \<open>Landing on a block\<close>

lemma side_entry_state:
  "side_entry_run =
     \<lparr>player = \<lparr>position = \<lparr>x_vec = 243, y_vec = - 24\<rparr>,
                velocity = \<lparr>x_vec = 9, y_vec = 22\<rparr>, isGrounded = False,
                isDead = False, rotation = 144, gravityScale = 1, canOrbJump = False,
                speedMultiplier = 1, lastPortalX = None\<rparr>,
      input = \<lparr>jump = True, jumpPressedThisFrame = False\<rparr>,
      camera = \<lparr>x_vec = - 57, y_vec = 0\<rparr>, shake = 0, time = 27 / 20,
      recordedTrail = [],
      bursts = [\<lparr>x_burst = 51, y_burst = 0, count_burst = 10, color_burst = ''white'',
                 speedMult_burst = 1\<rparr>],
      calls = []\<rparr>"
  by code_simp

text \<open>What the loop does with a block that the hitbox overlaps: the test reads
  \<^verbatim>\<open>prevY\<close>, which \<open>integrate\<close> computes as the vertical position before the advance of
  this tick less the velocity of that advance.\<close>

lemma block_step:
  assumes "type_obj obj = BLOCK" "checkCollision (pRect_ctx c) (hitBox obj)"
  shows "handle_obj cfg c obj g =
     (if (if gravityMult_ctx c = 1
          then y_vec (velocity (player g)) \<ge> 0 \<and> prevY_ctx c \<le> - 48 * y_obj obj + 15
          else y_vec (velocity (player g)) \<le> 0 \<and> prevY_ctx c - 48 \<ge> - 48 * y_obj obj + 48 - 15)
      then Continue (g\<lparr>player := (player g)
              \<lparr>position := (position (player g))
                 \<lparr>y_vec := (if gravityMult_ctx c = 1 then - 48 * y_obj obj
                            else - 48 * y_obj obj + 96)\<rparr>,
               velocity := (velocity (player g))\<lparr>y_vec := 0\<rparr>,
               isGrounded := True\<rparr>\<rparr>)
      else Return (crash cfg g))"
  using assms
  by (simp add: handle_obj_def is_orb_def is_portal_def handle_block_def lands_def land_y_def
      Let_def mult.commute)

text \<open>A fall onto a block. Before the tick the hitbox of the player is above the top of
  the block; the tick moves it into the block, whatever the velocity. Then the landing
  is accepted, and the hitbox cannot have passed the block: the velocity is at most 30,
  the block is 48 thick.\<close>

lemma fall_lands:
  assumes alive: "\<not> isDead (player g)" and down: "gravityScale (player g) = 1"
    and objs: "objects lvl = [obj]" and b: "type_obj obj = BLOCK" and row: "1 \<le> y_obj obj"
    and above: "y_vec (position (player g)) - 10 \<le> - 48 * y_obj obj"
    and over: "checkCollision (pRect_ctx (tick_ctx cfg lvl g)) (hitBox obj)"
  shows "\<not> isDead (player (update cfg lvl g)) \<and> isGrounded (player (update cfg lvl g)) \<and>
         y_vec (position (player (update cfg lvl g))) = - 48 * y_obj obj \<and>
         y_vec (velocity (player (update cfg lvl g))) = 0"
proof -
  let ?b = "before_loop cfg lvl g"
  let ?c = "tick_ctx cfg lvl g"
  let ?v = "y_vec (velocity (player ?b))"
  have v30: "?v \<le> 30"
    using down by (simp add: before_loop_fields(2) Let_def)
  have y: "y_vec (position (player ?b)) = y_vec (position (player g)) + ?v"
    by (simp add: before_loop_fields(1))
  have "y_rect (pRect_ctx ?c) + h_rect (pRect_ctx ?c) > - 48 * y_obj obj"
    using over b by (simp add: checkCollision_def hitBox_def Let_def)
  then have pos: "y_vec (position (player g)) + ?v - 10 > - 48 * y_obj obj"
    using y by (simp add: tick_ctx_fields)
  then have v0: "?v > 0"
    using above by simp
  have prev: "prevY_ctx ?c \<le> - 48 * y_obj obj + 15"
    using above v0 by (simp add: tick_ctx_fields)
  have gm: "gravityMult_ctx ?c = 1"
    using down by (simp add: tick_ctx_fields)
  define g1 where "g1 = ?b\<lparr>player := (player ?b)
        \<lparr>position := (position (player ?b))\<lparr>y_vec := - 48 * y_obj obj\<rparr>,
         velocity := (velocity (player ?b))\<lparr>y_vec := 0\<rparr>,
         isGrounded := True\<rparr>\<rparr>"
  have "handle_obj cfg ?c obj ?b = Continue g1"
    using block_step [OF b over, of cfg ?b] gm prev v0 by (simp add: g1_def)
  then have "update cfg lvl g = finish cfg lvl 1 g1"
    using down by (simp add: update_loop [OF alive] objs)
  moreover have "player (floor_ceiling cfg lvl 1 g1) = player g1"
    using row alive by (simp add: floor_ceiling_def Let_def g1_def)
  ultimately show ?thesis
    using alive by (simp add: g1_def)
qed

lemma fall_does_not_pass:
  assumes "gravityScale (player g) = 1"
    and "y_vec (position (player g)) - 10 \<le> - 48 * y_obj obj"
  shows "y_rect (pRect_ctx (tick_ctx cfg lvl g)) < - 48 * y_obj obj + 48"
proof -
  have "y_vec (velocity (player (before_loop cfg lvl g))) \<le> 30"
    using assms(1) by (simp add: before_loop_fields(2) Let_def)
  then show ?thesis
    using assms(2) by (simp add: tick_ctx_fields before_loop_fields(1))
qed

text \<open>
  C3. The block is at tile (6, 1): its top, the landing plane, is at \<open>y = - 48\<close>. Before the
  tick the player is falling beside the block at \<open>y = - 24\<close>, which is 24 past the landing
  plane, with velocity 22. The tick moves its hitbox into the block at \<open>y = 0\<close>, and the
  landing is accepted: the player is alive afterwards, standing on top of the block at
  \<open>y = - 48\<close>. The test compared \<^verbatim>\<open>prevY = - 24 - 24 = - 48\<close>, not the previous position
  \<open>- 24\<close>, with \<open>- 48 + 15\<close>.
\<close>

theorem landing_from_beside_block:
  "position (player side_entry_run) = \<lparr>x_vec = 243, y_vec = - 24\<rparr> \<and>
   y_vec (velocity (player side_entry_run)) = 22 \<and>
   \<not> isDead (player side_entry_run) \<and>
   y_vec (position (player side_entry_run)) > - 48 * y_obj (tile BLOCK 6 1) + 15 \<and>
   checkCollision (pRect_ctx (tick_ctx play_props (single_level BLOCK 6 1 CLASSIC) side_entry_run))
     (hitBox (tile BLOCK 6 1)) \<and>
   prevY_ctx (tick_ctx play_props (single_level BLOCK 6 1 CLASSIC) side_entry_run) = - 48 \<and>
   y_vec (position (player (before_loop play_props (single_level BLOCK 6 1 CLASSIC) side_entry_run))) = 0 \<and>
   \<not> isDead (player (update play_props (single_level BLOCK 6 1 CLASSIC) side_entry_run)) \<and>
   isGrounded (player (update play_props (single_level BLOCK 6 1 CLASSIC) side_entry_run)) \<and>
   position (player (update play_props (single_level BLOCK 6 1 CLASSIC) side_entry_run)) =
     \<lparr>x_vec = 252, y_vec = - 48\<rparr>"
  unfolding side_entry_state by code_simp

subsection \<open>Orbs\<close>

lemma handle_orb_fire:
  assumes "orb_near c obj" "orb_ready g"
  shows "orb_bursts (handle_orb c obj g) = orb_bursts g @ [orb_burst obj]"
    and "\<not> canOrbJump (player (handle_orb c obj g))"
    and "jump (input (handle_orb c obj g)) = jump (input g)"
  using assms
  by (auto simp add: handle_orb_def orb_ready_def orb_bursts_def orb_burst_def orb_effect_def
      spawnParticles_def Let_def)

lemma handle_orb_skip:
  assumes "\<not> (orb_near c obj \<and> orb_ready g)"
  shows "handle_orb c obj g = g"
  using assms by (auto simp add: handle_orb_def orb_ready_def Let_def)

lemma handle_portal_orbs:
  "orb_bursts (handle_portal c obj g) = orb_bursts g"
  "canOrbJump (player (handle_portal c obj g)) = canOrbJump (player g)"
  "input (handle_portal c obj g) = input g"
  by (simp_all add: handle_portal_def gravity_portal_def speed_portal_def spawnParticles_def
      orb_bursts_def Let_def)

lemma crash_orbs:
  "orb_bursts (crash cfg g) = orb_bursts g"
  "canOrbJump (player (crash cfg g)) = canOrbJump (player g)"
  "input (crash cfg g) = input g"
  by (simp_all add: crash_def report_death_def orb_bursts_def)

text \<open>One iteration: the orb fires if it is in range and the lock and the input allow it;
  nothing else touches the lock or asks for 15 particles.\<close>

lemma handle_obj_orbs:
  assumes "handle_obj cfg c obj g = Continue g'"
  shows "orb_bursts g' = orb_bursts g @ fired c [obj] g"
    and "orb_ready g' \<longleftrightarrow> orb_ready g \<and> \<not> orb_in_range c obj"
    and "jump (input g') = jump (input g)"
  using assms
proof (atomize (full), cases rule: handle_obj_Continue_cases)
  case orb
  then show "orb_bursts g' = orb_bursts g @ fired c [obj] g \<and>
      (orb_ready g' \<longleftrightarrow> orb_ready g \<and> \<not> orb_in_range c obj) \<and>
      jump (input g') = jump (input g)"
    using handle_orb_fire [of c obj g] handle_orb_skip [of c obj g]
    by (cases "orb_near c obj \<and> orb_ready g") (auto simp add: fired_def orb_in_range_def orb_ready_def)
next
  case portal
  then have "\<not> is_orb (type_obj obj)"
    by (auto simp add: is_orb_def is_portal_def)
  then show "orb_bursts g' = orb_bursts g @ fired c [obj] g \<and>
      (orb_ready g' \<longleftrightarrow> orb_ready g \<and> \<not> orb_in_range c obj) \<and>
      jump (input g') = jump (input g)"
    using portal by (simp add: handle_portal_orbs fired_def orb_in_range_def orb_ready_def)
next
  case block
  then have "\<not> is_orb (type_obj obj)"
    by (simp add: is_orb_def)
  then show "orb_bursts g' = orb_bursts g @ fired c [obj] g \<and>
      (orb_ready g' \<longleftrightarrow> orb_ready g \<and> \<not> orb_in_range c obj) \<and>
      jump (input g') = jump (input g)"
    using block by (simp add: fired_def orb_in_range_def orb_ready_def orb_bursts_def)
next
  case miss
  have "\<not> is_orb (type_obj obj) \<or> \<not> (orb_near c obj \<and> orb_ready g)"
    using assms miss handle_orb_fire(1) [of c obj g]
    by (auto simp add: handle_obj_def split: if_splits)
  then show "orb_bursts g' = orb_bursts g @ fired c [obj] g \<and>
      (orb_ready g' \<longleftrightarrow> orb_ready g \<and> \<not> orb_in_range c obj) \<and>
      jump (input g') = jump (input g)"
    using miss by (auto simp add: fired_def orb_in_range_def)
qed

lemma fired_Cons:
  "fired c (obj # objs) g =
     (if orb_ready g \<and> orb_in_range c obj then [orb_burst obj] else fired c objs g)"
  by (simp add: fired_def)

lemma fired_not_ready: "\<not> orb_ready g \<Longrightarrow> fired c objs g = []"
  by (simp add: fired_def)

lemma fired_length: "length (fired c objs g) \<le> 1"
  by (simp add: fired_def split: option.splits)

text \<open>The whole pass, run to its end: exactly the first orb in range fires, if the lock and
  the input allow it.\<close>

lemma collide_Continue_orbs:
  assumes "collide cfg c objs g = Continue g'"
  shows "orb_bursts g' = orb_bursts g @ fired c objs g \<and>
         (orb_ready g' \<longleftrightarrow> orb_ready g \<and> fired c objs g = []) \<and>
         (canOrbJump (player g') \<longrightarrow> canOrbJump (player g) \<and> fired c objs g = [])"
  using assms
proof (induction objs arbitrary: g)
  case Nil
  then show ?case by (auto simp add: fired_def)
next
  case (Cons obj objs)
  then obtain g1 where h: "handle_obj cfg c obj g = Continue g1"
      and r: "collide cfg c objs g1 = Continue g'"
    by (auto split: flow.splits)
  note o = handle_obj_orbs [OF h]
  note i = Cons.IH [OF r]
  have lock: "canOrbJump (player g1) \<longrightarrow> canOrbJump (player g)"
    using h by (cases rule: handle_obj_Continue_cases)
      (auto simp add: handle_orb_def handle_portal_orbs Let_def orb_effect_def spawnParticles_def)
  show ?case
  proof (cases "orb_ready g \<and> orb_in_range c obj")
    case True
    then have "\<not> orb_ready g1"
      using o(2) by simp
    moreover have "\<not> canOrbJump (player g1)"
      using True h handle_orb_fire(2) [of c obj g]
      by (auto simp add: handle_obj_def orb_in_range_def)
    ultimately show ?thesis
      using i o(1) True lock by (simp add: fired_Cons fired_not_ready fired_def)
  next
    case False
    then have e: "fired c [obj] g = []" "orb_ready g1 = orb_ready g"
      using o(2) by (auto simp add: fired_def)
    have "fired c objs g1 = fired c objs g"
      using e(2) by (simp add: fired_def)
    moreover have "fired c (obj # objs) g = fired c objs g"
      using False by (auto simp add: fired_Cons)
    ultimately show ?thesis
      using i o(1) e lock by simp
  qed
qed

text \<open>A pass that a crash ends: the first orb in range has fired if the pass got to it.\<close>

lemma collide_Return_orbs:
  assumes "collide cfg c objs g = Return g'"
  shows "(orb_bursts g' = orb_bursts g \<or>
          (fired c objs g \<noteq> [] \<and> orb_bursts g' = orb_bursts g @ fired c objs g \<and>
           \<not> canOrbJump (player g'))) \<and>
         (canOrbJump (player g') \<longrightarrow> canOrbJump (player g))"
  using assms
proof (induction objs arbitrary: g)
  case Nil
  then show ?case by simp
next
  case (Cons obj objs)
  show ?case
  proof (cases "handle_obj cfg c obj g")
    case (Return g1)
    then have "g' = crash cfg g"
      using Cons.prems handle_obj_Return by simp
    then show ?thesis
      by (simp add: crash_orbs)
  next
    case (Continue g1)
    then have r: "collide cfg c objs g1 = Return g'"
      using Cons.prems by simp
    note o = handle_obj_orbs [OF Continue]
    note i = Cons.IH [OF r]
    have lock: "canOrbJump (player g1) \<longrightarrow> canOrbJump (player g)"
      using Continue by (cases rule: handle_obj_Continue_cases)
        (auto simp add: handle_orb_def handle_portal_orbs Let_def orb_effect_def spawnParticles_def)
    show ?thesis
    proof (cases "orb_ready g \<and> orb_in_range c obj")
      case True
      then have n: "\<not> orb_ready g1" "fired c (obj # objs) g = [orb_burst obj]"
          "fired c [obj] g = [orb_burst obj]"
        using o(2) by (simp_all add: fired_Cons fired_def)
      then have "fired c objs g1 = []"
        by (simp add: fired_not_ready)
      moreover have "\<not> canOrbJump (player g1)"
        using True Continue handle_orb_fire(2) [of c obj g]
        by (auto simp add: handle_obj_def orb_in_range_def)
      ultimately show ?thesis
        using i o(1) n lock by auto
    next
      case False
      then have e: "fired c [obj] g = []" "orb_ready g1 = orb_ready g"
        using o(2) by (auto simp add: fired_def)
      have "fired c objs g1 = fired c objs g"
        using e(2) by (simp add: fired_def)
      moreover have "fired c (obj # objs) g = fired c objs g"
        using False by (auto simp add: fired_Cons)
      ultimately show ?thesis
        using i o(1) e lock by auto
    qed
  qed
qed

lemma before_loop_orbs:
  "orb_bursts (before_loop cfg lvl g) = orb_bursts g"
  by (simp add: before_loop_def integrate_def apply_jump_def spawnParticles_def orb_bursts_def
      record_trail_def Let_def)

lemma finish_orbs:
  "orb_bursts (finish cfg lvl gm g) = orb_bursts g"
  "canOrbJump (player (finish cfg lvl gm g)) = canOrbJump (player g)"
  by (simp_all add: finish_def floor_ceiling_def report_death_def move_camera_def check_win_def
      orb_bursts_def Let_def)

lemma update_dead_orbs: "isDead (player g) \<Longrightarrow> orb_bursts (update cfg lvl g) = orb_bursts g"
  by (simp add: update_def spawnParticles_def orb_bursts_def)

text \<open>One tick: no orb fires, or just the first orb in range does, which takes the lock.\<close>

lemma update_orbs:
  "(orb_bursts (update cfg lvl g) = orb_bursts g \<or>
    (\<not> isDead (player g) \<and> canOrbJump (player g) \<and> \<not> canOrbJump (player (update cfg lvl g)) \<and>
     fired (tick_ctx cfg lvl g) (objects lvl) (before_loop cfg lvl g) \<noteq> [] \<and>
     orb_bursts (update cfg lvl g) =
       orb_bursts g @ fired (tick_ctx cfg lvl g) (objects lvl) (before_loop cfg lvl g))) \<and>
   (canOrbJump (player (update cfg lvl g)) \<longrightarrow> canOrbJump (player g))"
proof (cases "isDead (player g)")
  case True
  then show ?thesis
    by (simp add: update_dead_orbs update_dead)
next
  case False
  let ?F = "fired (tick_ctx cfg lvl g) (objects lvl) (before_loop cfg lvl g)"
  have b: "canOrbJump (player (before_loop cfg lvl g)) \<longrightarrow> canOrbJump (player g)"
    by (simp add: before_loop_more)
  have f: "?F \<noteq> [] \<longrightarrow> canOrbJump (player g)"
    using b by (auto simp add: fired_def orb_ready_def)
  show ?thesis
  proof (cases "collide cfg (tick_ctx cfg lvl g) (objects lvl) (before_loop cfg lvl g)")
    case (Continue g2)
    then have u: "update cfg lvl g = finish cfg lvl (gravityScale (player g)) g2"
      by (simp add: update_loop [OF False])
    have o: "orb_bursts (update cfg lvl g) = orb_bursts g2"
        "canOrbJump (player (update cfg lvl g)) = canOrbJump (player g2)"
      unfolding u by (rule finish_orbs)+
    from collide_Continue_orbs [OF Continue] have
      "orb_bursts g2 = orb_bursts g @ ?F"
      "canOrbJump (player g2) \<longrightarrow> canOrbJump (player (before_loop cfg lvl g)) \<and> ?F = []"
      by (simp_all add: before_loop_orbs)
    then show ?thesis
      unfolding o using b f False by (cases "?F = []") auto
  next
    case (Return g2)
    then have u: "update cfg lvl g = g2"
      by (simp add: update_loop [OF False])
    from collide_Return_orbs [OF Return] have
      "orb_bursts g2 = orb_bursts g \<or>
       (?F \<noteq> [] \<and> orb_bursts g2 = orb_bursts g @ ?F \<and> \<not> canOrbJump (player g2))"
      "canOrbJump (player g2) \<longrightarrow> canOrbJump (player (before_loop cfg lvl g))"
      by (simp_all add: before_loop_orbs)
    then show ?thesis
      unfolding u using b f False by auto
  qed
qed

text \<open>Between releases of the key the lock is never given back, so at most one orb fires.\<close>

lemma step_orbs:
  assumes "e \<noteq> Release"
  shows "\<exists>xs. orb_bursts (step cfg lvl e g) = orb_bursts g @ xs \<and>
           length xs + (if canOrbJump (player (step cfg lvl e g)) then 1 else 0)
             \<le> (if canOrbJump (player g) then 1 else 0)"
proof (cases e)
  case Tick
  show ?thesis
    using update_orbs [of cfg lvl g] fired_length [of "tick_ctx cfg lvl g" "objects lvl" "before_loop cfg lvl g"]
    by (auto simp add: Tick)
next
  case Press
  then show ?thesis by (simp add: press_def orb_bursts_def)
next
  case Release
  then show ?thesis using assms by simp
qed

lemma run_orbs:
  assumes "Release \<notin> set es"
  shows "\<exists>xs. orb_bursts (run cfg lvl es g) = orb_bursts g @ xs \<and>
           length xs + (if canOrbJump (player (run cfg lvl es g)) then 1 else 0)
             \<le> (if canOrbJump (player g) then 1 else 0)"
  using assms
proof (induction es arbitrary: g)
  case Nil
  then show ?case by simp
next
  case (Cons e es)
  then have "e \<noteq> Release" "Release \<notin> set es"
    by auto
  from step_orbs [OF this(1), of cfg lvl g] obtain xs where
    x: "orb_bursts (step cfg lvl e g) = orb_bursts g @ xs"
      "length xs + (if canOrbJump (player (step cfg lvl e g)) then 1 else 0)
         \<le> (if canOrbJump (player g) then 1 else 0)"
    by blast
  from Cons.IH [OF \<open>Release \<notin> set es\<close>, of "step cfg lvl e g"] obtain ys where
    y: "orb_bursts (run cfg lvl es (step cfg lvl e g)) = orb_bursts (step cfg lvl e g) @ ys"
      "length ys + (if canOrbJump (player (run cfg lvl es (step cfg lvl e g))) then 1 else 0)
         \<le> (if canOrbJump (player (step cfg lvl e g)) then 1 else 0)"
    by blast
  have "orb_bursts (run cfg lvl (e # es) g) = orb_bursts g @ (xs @ ys)"
    using x(1) y(1) by simp
  moreover have "length (xs @ ys) + (if canOrbJump (player (run cfg lvl (e # es) g)) then 1 else 0)
      \<le> (if canOrbJump (player g) then 1 else 0)"
    using x(2) y(2) by (simp split: if_splits)
  ultimately show ?case
    by blast
qed

lemma collide_append:
  "collide cfg c (pre @ rest) g =
     (case collide cfg c pre g of Return r \<Rightarrow> Return r | Continue g1 \<Rightarrow> collide cfg c rest g1)"
  by (induction pre arbitrary: g) (simp_all split: flow.splits)

lemma find_none_fired:
  "\<forall>obj \<in> set pre. \<not> orb_in_range c obj \<Longrightarrow> fired c pre g = []"
proof -
  assume "\<forall>obj \<in> set pre. \<not> orb_in_range c obj"
  then have "find (orb_in_range c) pre = None"
    by (simp add: find_None_iff)
  then show ?thesis
    by (simp add: fired_def)
qed

text \<open>A tick in which the pass reaches an orb in range, first of its kind, with the lock
  and the input ready: that orb fires, and no other.\<close>

lemma update_fires:
  assumes alive: "\<not> isDead (player g)"
    and ready: "orb_ready (before_loop cfg lvl g)"
    and objs: "objects lvl = pre @ obj # post"
    and first: "\<forall>ob \<in> set pre. \<not> orb_in_range (tick_ctx cfg lvl g) ob"
    and near: "orb_in_range (tick_ctx cfg lvl g) obj"
    and reach: "collide cfg (tick_ctx cfg lvl g) pre (before_loop cfg lvl g) = Continue gm"
  shows "orb_bursts (update cfg lvl g) = orb_bursts g @ [orb_burst obj]"
    and "\<not> canOrbJump (player (update cfg lvl g))"
proof -
  let ?c = "tick_ctx cfg lvl g"
  let ?b = "before_loop cfg lvl g"
  have m: "orb_bursts gm = orb_bursts g" "orb_ready gm"
    using collide_Continue_orbs [OF reach] find_none_fired [OF first] ready
    by (simp_all add: before_loop_orbs)
  have o: "is_orb (type_obj obj)" "orb_near ?c obj"
    using near by (simp_all add: orb_in_range_def)
  define g1 where "g1 = handle_orb ?c obj gm"
  have h: "handle_obj cfg ?c obj gm = Continue g1"
    using o by (simp add: handle_obj_def g1_def)
  have g1: "orb_bursts g1 = orb_bursts g @ [orb_burst obj]" "\<not> canOrbJump (player g1)"
    using handle_orb_fire(1,2) [OF o(2) m(2)] m(1) by (simp_all add: g1_def)
  then have nr: "fired ?c post g1 = []"
    by (simp add: fired_def orb_ready_def)
  have split: "collide cfg ?c (objects lvl) ?b = collide cfg ?c post g1"
    using reach h by (simp add: objs collide_append)
  show "orb_bursts (update cfg lvl g) = orb_bursts g @ [orb_burst obj]"
    and "\<not> canOrbJump (player (update cfg lvl g))"
  proof (atomize (full), cases "collide cfg ?c post g1")
    case (Continue g2)
    then have u: "update cfg lvl g = finish cfg lvl (gravityScale (player g)) g2"
      using split by (simp add: update_loop [OF alive])
    have "orb_bursts (update cfg lvl g) = orb_bursts g2"
        "canOrbJump (player (update cfg lvl g)) = canOrbJump (player g2)"
      unfolding u by (rule finish_orbs)+
    then show "orb_bursts (update cfg lvl g) = orb_bursts g @ [orb_burst obj] \<and>
        \<not> canOrbJump (player (update cfg lvl g))"
      using collide_Continue_orbs [OF Continue] g1 nr by simp
  next
    case (Return g2)
    then have u: "update cfg lvl g = g2"
      using split by (simp add: update_loop [OF alive])
    show "orb_bursts (update cfg lvl g) = orb_bursts g @ [orb_burst obj] \<and>
        \<not> canOrbJump (player (update cfg lvl g))"
      unfolding u using collide_Return_orbs [OF Return] g1 nr by auto
  qed
qed

lemma orb_run_state:
  "orb_run =
     \<lparr>player = \<lparr>position = \<lparr>x_vec = 9, y_vec = - 24\<rparr>,
                velocity = \<lparr>x_vec = 9, y_vec = - 24\<rparr>, isGrounded = False,
                isDead = False, rotation = 6, gravityScale = 1, canOrbJump = True,
                speedMultiplier = 1, lastPortalX = None\<rparr>,
      input = \<lparr>jump = True, jumpPressedThisFrame = True\<rparr>,
      camera = \<lparr>x_vec = - 291, y_vec = 0\<rparr>, shake = 0, time = 1 / 20,
      recordedTrail = [],
      bursts = [\<lparr>x_burst = 24, y_burst = 0, count_burst = 10, color_burst = ''white'',
                 speedMult_burst = 1\<rparr>],
      calls = []\<rparr>"
  by code_simp

subsection \<open>What an activated orb does to the player\<close>

lemma handle_orb_effect:
  assumes "orb_near c obj" "orb_ready g" "is_orb (type_obj obj)"
  shows "y_vec (velocity (player (handle_orb c obj g))) =
           orb_impulse (type_obj obj) (gravityMult_ctx c) (gravityScale (player g))"
    and "gravityScale (player (handle_orb c obj g)) =
           (if type_obj obj = ORB_GRAVITY then - gravityScale (player g)
            else gravityScale (player g))"
    and "\<not> isGrounded (player (handle_orb c obj g))"
    and "\<not> jumpPressedThisFrame (input (handle_orb c obj g))"
    and "position (player (handle_orb c obj g)) = position (player g)"
  using assms
  by (auto simp add: handle_orb_def orb_ready_def orb_effect_def orb_impulse_def is_orb_def
      spawnParticles_def Let_def)

lemma collide_orbs_locked:
  "\<forall>ob \<in> set objs. is_orb (type_obj ob) \<Longrightarrow> \<not> canOrbJump (player g) \<Longrightarrow>
   collide cfg c objs g = Continue g"
proof (induction objs)
  case Nil
  then show ?case by simp
next
  case (Cons ob objs)
  have "handle_orb c ob g = g"
    using Cons.prems(2) by (simp add: handle_orb_skip orb_ready_def)
  then show ?case
    using Cons by (simp add: handle_obj_def)
qed

lemma floor_ceiling_off_planes:
  "off_planes lvl gm (y_vec (position (player g))) \<Longrightarrow>
   player (floor_ceiling cfg lvl gm g) = player g"
  by (simp add: floor_ceiling_def off_planes_def Let_def split: if_splits)

lemma update_lock:
  assumes "\<not> isDead (player g)" "\<not> canOrbJump (player (before_loop cfg lvl g))"
  shows "\<not> canOrbJump (player (update cfg lvl g))"
proof (cases "collide cfg (tick_ctx cfg lvl g) (objects lvl) (before_loop cfg lvl g)")
  case (Continue g2)
  then have u: "update cfg lvl g = finish cfg lvl (gravityScale (player g)) g2"
    by (simp add: update_loop [OF assms(1)])
  have "canOrbJump (player (update cfg lvl g)) = canOrbJump (player g2)"
    unfolding u by (rule finish_orbs)
  then show ?thesis
    using collide_Continue_orbs [OF Continue] assms(2) by simp
next
  case (Return g2)
  then have u: "update cfg lvl g = g2"
    by (simp add: update_loop [OF assms(1)])
  show ?thesis
    unfolding u using collide_Return_orbs [OF Return] assms(2) by simp
qed

text \<open>A press by a player that stands on a surface is spent on the jump, which takes the
  lock: no orb fires in that tick or later, until the key is released.\<close>

lemma ground_jump_no_orb:
  assumes "\<not> isDead (player s)" "isGrounded (player s)" "jump (input s)" "Release \<notin> set es"
  shows "\<not> canOrbJump (player (before_loop cfg lvl s))"
    and "orb_bursts (run cfg lvl (Tick # es) s) = orb_bursts s"
proof -
  show b: "\<not> canOrbJump (player (before_loop cfg lvl s))"
    using assms(2,3) by (simp add: before_loop_more stability_check_grounded)
  then have "fired (tick_ctx cfg lvl s) (objects lvl) (before_loop cfg lvl s) = []"
    by (simp add: fired_def orb_ready_def)
  then have u: "orb_bursts (update cfg lvl s) = orb_bursts s"
    using update_orbs [of cfg lvl s] by auto
  have "\<not> canOrbJump (player (update cfg lvl s))"
    using update_lock [OF assms(1) b] .
  then show "orb_bursts (run cfg lvl (Tick # es) s) = orb_bursts s"
    using run_orbs [OF assms(4), of cfg lvl "update cfg lvl s"] u by auto
qed

text \<open>A tick in which the first orb in range fires: the state with which the loop goes on,
  and the player at the end of the tick if only orbs follow and the floor, the ceiling and
  the bounds are out of reach.\<close>

lemma update_fires_effect:
  assumes alive: "\<not> isDead (player g)"
    and ready: "orb_ready (before_loop cfg lvl g)"
    and objs: "objects lvl = pre @ obj # post"
    and first: "\<forall>ob \<in> set pre. \<not> orb_in_range (tick_ctx cfg lvl g) ob"
    and near: "orb_in_range (tick_ctx cfg lvl g) obj"
    and reach: "collide cfg (tick_ctx cfg lvl g) pre (before_loop cfg lvl g) = Continue gm"
  shows "handle_obj cfg (tick_ctx cfg lvl g) obj gm = Continue (handle_orb (tick_ctx cfg lvl g) obj gm)"
    and "y_vec (velocity (player (handle_orb (tick_ctx cfg lvl g) obj gm))) =
           orb_impulse (type_obj obj) (gravityScale (player g)) (gravityScale (player gm))"
    and "gravityScale (player (handle_orb (tick_ctx cfg lvl g) obj gm)) =
           (if type_obj obj = ORB_GRAVITY then - gravityScale (player gm)
            else gravityScale (player gm))"
    and "\<not> isGrounded (player (handle_orb (tick_ctx cfg lvl g) obj gm))"
    and "\<not> canOrbJump (player (handle_orb (tick_ctx cfg lvl g) obj gm))"
    and "\<not> jumpPressedThisFrame (input (handle_orb (tick_ctx cfg lvl g) obj gm))"
    and "position (player (handle_orb (tick_ctx cfg lvl g) obj gm)) = position (player gm)"
    and "(\<forall>ob \<in> set post. is_orb (type_obj ob)) \<Longrightarrow>
         off_planes lvl (gravityScale (player g)) (y_vec (position (player gm))) \<Longrightarrow>
         player (update cfg lvl g) = player (handle_orb (tick_ctx cfg lvl g) obj gm)"
proof -
  let ?c = "tick_ctx cfg lvl g"
  let ?b = "before_loop cfg lvl g"
  let ?g1 = "handle_orb ?c obj gm"
  have m: "orb_ready gm"
    using collide_Continue_orbs [OF reach] find_none_fired [OF first] ready by simp
  have o: "is_orb (type_obj obj)" "orb_near ?c obj"
    using near by (simp_all add: orb_in_range_def)
  show h: "handle_obj cfg ?c obj gm = Continue ?g1"
    using o by (simp add: handle_obj_def)
  note e = handle_orb_effect [OF o(2) m o(1)]
  show "y_vec (velocity (player ?g1)) =
      orb_impulse (type_obj obj) (gravityScale (player g)) (gravityScale (player gm))"
    using e(1) by (simp add: tick_ctx_fields)
  show "gravityScale (player ?g1) =
      (if type_obj obj = ORB_GRAVITY then - gravityScale (player gm) else gravityScale (player gm))"
    by (rule e(2))
  show "\<not> isGrounded (player ?g1)"
    by (rule e(3))
  show l: "\<not> canOrbJump (player ?g1)"
    by (rule handle_orb_fire(2) [OF o(2) m])
  show "\<not> jumpPressedThisFrame (input ?g1)"
    by (rule e(4))
  show p: "position (player ?g1) = position (player gm)"
    by (rule e(5))
  assume post: "\<forall>ob \<in> set post. is_orb (type_obj ob)"
    and off: "off_planes lvl (gravityScale (player g)) (y_vec (position (player gm)))"
  have "collide cfg ?c (objects lvl) ?b = collide cfg ?c post ?g1"
    using reach h by (simp add: objs collide_append)
  also have "\<dots> = Continue ?g1"
    using collide_orbs_locked [OF post l] .
  finally have u: "update cfg lvl g = finish cfg lvl (gravityScale (player g)) ?g1"
    by (simp add: update_loop [OF alive])
  have "player (floor_ceiling cfg lvl (gravityScale (player g)) ?g1) = player ?g1"
    using off p by (simp add: floor_ceiling_off_planes)
  then show "player (update cfg lvl g) = player ?g1"
    unfolding u by simp
qed

lemma orb_floor_run_state:
  "orb_floor_run =
     \<lparr>player = \<lparr>position = \<lparr>x_vec = 0, y_vec = 0\<rparr>,
                velocity = \<lparr>x_vec = 9, y_vec = 0\<rparr>, isGrounded = True,
                isDead = False, rotation = 0, gravityScale = 1, canOrbJump = True,
                speedMultiplier = 1, lastPortalX = None\<rparr>,
      input = \<lparr>jump = True, jumpPressedThisFrame = True\<rparr>,
      camera = \<lparr>x_vec = 0, y_vec = 0\<rparr>, shake = 0, time = 0,
      recordedTrail = [], bursts = [], calls = []\<rparr>"
  unfolding orb_floor_run_def by code_simp

text \<open>
  C4, the specification's sentence against the code. An orb at tile (0, 1) has its centre
  at (24, -24), which is the centre of the player that stands at the start of a run. The
  key goes down: the player is on the floor with no vertical velocity, the key has just
  been pressed and is held, the lock is free, and in the tick that follows the orb is in
  range when the loop comes to it. Yet the tick spends the press on a jump off the floor
  (vertical velocity -24, not the -21 of the orb), the jump takes the lock, and the orb does
  not fire, in that tick or in any of the thirty ticks that follow with the key held.
\<close>

theorem orb_single_activation_counterexample:
  "position (player orb_floor_run) = \<lparr>x_vec = 0, y_vec = 0\<rparr> \<and>
   y_vec (velocity (player orb_floor_run)) = 0 \<and>
   isGrounded (player orb_floor_run) \<and> \<not> isDead (player orb_floor_run) \<and>
   canOrbJump (player orb_floor_run) \<and>
   jump (input orb_floor_run) \<and> jumpPressedThisFrame (input orb_floor_run) \<and>
   x_burst (orb_burst (tile ORB_JUMP 0 1)) = x_vec (position (player orb_floor_run)) + 24 \<and>
   y_burst (orb_burst (tile ORB_JUMP 0 1)) = y_vec (position (player orb_floor_run)) - 24 \<and>
   orb_in_range (tick_ctx play_props orb_floor_level orb_floor_run) (tile ORB_JUMP 0 1) \<and>
   y_vec (velocity (player (update play_props orb_floor_level orb_floor_run))) = - 24 \<and>
   \<not> canOrbJump (player (update play_props orb_floor_level orb_floor_run)) \<and>
   jump (input (update play_props orb_floor_level orb_floor_run)) \<and>
   orb_bursts (update play_props orb_floor_level orb_floor_run) = [] \<and>
   orb_bursts (run play_props orb_floor_level (replicate 30 Tick) orb_floor_run) = []"
proof -
  have a: "position (player orb_floor_run) = \<lparr>x_vec = 0, y_vec = 0\<rparr> \<and>
      y_vec (velocity (player orb_floor_run)) = 0 \<and>
      isGrounded (player orb_floor_run) \<and> \<not> isDead (player orb_floor_run) \<and>
      canOrbJump (player orb_floor_run) \<and>
      jump (input orb_floor_run) \<and> jumpPressedThisFrame (input orb_floor_run) \<and>
      x_burst (orb_burst (tile ORB_JUMP 0 1)) = x_vec (position (player orb_floor_run)) + 24 \<and>
      y_burst (orb_burst (tile ORB_JUMP 0 1)) = y_vec (position (player orb_floor_run)) - 24 \<and>
      orb_in_range (tick_ctx play_props orb_floor_level orb_floor_run) (tile ORB_JUMP 0 1) \<and>
      y_vec (velocity (player (update play_props orb_floor_level orb_floor_run))) = - 24 \<and>
      \<not> canOrbJump (player (update play_props orb_floor_level orb_floor_run)) \<and>
      jump (input (update play_props orb_floor_level orb_floor_run)) \<and>
      orb_bursts (update play_props orb_floor_level orb_floor_run) = [] \<and>
      orb_bursts orb_floor_run = []"
    unfolding orb_floor_run_state by code_simp
  have r: "replicate 30 Tick = Tick # replicate 29 Tick"
    using replicate_Suc [of 29 Tick] by simp
  have "Release \<notin> set (replicate 29 Tick)"
    by simp
  from ground_jump_no_orb(2) [OF _ _ _ this, of orb_floor_run play_props orb_floor_level] a
  have "orb_bursts (run play_props orb_floor_level (replicate 30 Tick) orb_floor_run) = []"
    unfolding r by simp
  then show ?thesis
    using a by simp
qed

text \<open>
  C4, amended to what the code does. In one tick at most one orb fires, and it is the
  first orb of the level, in the order of the objects, that is within 32 of the centre of
  the player. Over any stretch of a run without a release of the key at most one orb fires.
  A press by a player that stands on a surface is spent on the jump, which takes the lock:
  no orb fires until the key is released. Exactly one orb fires over a stretch that begins
  with a tick in which, after the movement, the lock is free and the key is pressed or held,
  and the pass over the objects reaches an orb in range, the first in range. The pass then
  goes on with the vertical velocity set to the impulse of the orb (-21, -15 or -34 times
  the gravity sign of the tick; for the gravity orb the gravity sign is flipped and the
  velocity is -12 times the new sign), the position unchanged, the player off the ground,
  the lock taken and the press consumed. If only orbs follow in the level and the player is
  clear of the floor, the ceiling and the bounds, that is the player at the end of the tick.
\<close>

theorem orb_activation:
  "(\<exists>xs. orb_bursts (update cfg lvl g) = orb_bursts g @ xs \<and>
      (xs = [] \<or>
       (\<exists>obj. find (orb_in_range (tick_ctx cfg lvl g)) (objects lvl) = Some obj \<and>
          xs = [orb_burst obj]))) \<and>
   (Release \<notin> set es \<longrightarrow>
      (\<exists>xs. orb_bursts (run cfg lvl es g) = orb_bursts g @ xs \<and> length xs \<le> 1)) \<and>
   (\<not> isDead (player s) \<and> isGrounded (player s) \<and> jump (input s) \<and> Release \<notin> set es \<longrightarrow>
      \<not> canOrbJump (player (before_loop cfg lvl s)) \<and>
      orb_bursts (run cfg lvl (Tick # es) s) = orb_bursts s) \<and>
   (\<not> isDead (player g) \<and> orb_ready (before_loop cfg lvl g) \<and>
    objects lvl = pre @ obj # post \<and>
    (\<forall>ob \<in> set pre. \<not> orb_in_range (tick_ctx cfg lvl g) ob) \<and>
    orb_in_range (tick_ctx cfg lvl g) obj \<and>
    collide cfg (tick_ctx cfg lvl g) pre (before_loop cfg lvl g) = Continue gm \<and>
    Release \<notin> set es \<longrightarrow>
      (\<exists>g1. handle_obj cfg (tick_ctx cfg lvl g) obj gm = Continue g1 \<and>
         y_vec (velocity (player g1)) =
           orb_impulse (type_obj obj) (gravityScale (player g)) (gravityScale (player gm)) \<and>
         gravityScale (player g1) =
           (if type_obj obj = ORB_GRAVITY then - gravityScale (player gm)
            else gravityScale (player gm)) \<and>
         position (player g1) = position (player gm) \<and>
         \<not> isGrounded (player g1) \<and> \<not> canOrbJump (player g1) \<and>
         \<not> jumpPressedThisFrame (input g1) \<and>
         ((\<forall>ob \<in> set post. is_orb (type_obj ob)) \<and>
          off_planes lvl (gravityScale (player g)) (y_vec (position (player gm))) \<longrightarrow>
            player (update cfg lvl g) = player g1)) \<and>
      orb_bursts (run cfg lvl (Tick # es) g) = orb_bursts g @ [orb_burst obj])"
proof (intro conjI impI)
  let ?F = "fired (tick_ctx cfg lvl g) (objects lvl) (before_loop cfg lvl g)"
  have "?F = [] \<or> (\<exists>obj. find (orb_in_range (tick_ctx cfg lvl g)) (objects lvl) = Some obj \<and>
      ?F = [orb_burst obj])"
    by (auto simp add: fired_def split: option.splits)
  then show "\<exists>xs. orb_bursts (update cfg lvl g) = orb_bursts g @ xs \<and>
      (xs = [] \<or>
       (\<exists>obj. find (orb_in_range (tick_ctx cfg lvl g)) (objects lvl) = Some obj \<and>
          xs = [orb_burst obj]))"
    using update_orbs [of cfg lvl g] by (metis append_Nil2)
next
  assume "Release \<notin> set es"
  from run_orbs [OF this, of cfg lvl g]
  show "\<exists>xs. orb_bursts (run cfg lvl es g) = orb_bursts g @ xs \<and> length xs \<le> 1"
    by (auto split: if_splits)
next
  assume a: "\<not> isDead (player s) \<and> isGrounded (player s) \<and> jump (input s) \<and> Release \<notin> set es"
  then show "\<not> canOrbJump (player (before_loop cfg lvl s))"
    using ground_jump_no_orb(1) [of s es cfg lvl] by simp
next
  assume a: "\<not> isDead (player s) \<and> isGrounded (player s) \<and> jump (input s) \<and> Release \<notin> set es"
  then show "orb_bursts (run cfg lvl (Tick # es) s) = orb_bursts s"
    using ground_jump_no_orb(2) [of s es cfg lvl] by simp
next
  assume a: "\<not> isDead (player g) \<and> orb_ready (before_loop cfg lvl g) \<and>
    objects lvl = pre @ obj # post \<and>
    (\<forall>ob \<in> set pre. \<not> orb_in_range (tick_ctx cfg lvl g) ob) \<and>
    orb_in_range (tick_ctx cfg lvl g) obj \<and>
    collide cfg (tick_ctx cfg lvl g) pre (before_loop cfg lvl g) = Continue gm \<and>
    Release \<notin> set es"
  then have h: "\<not> isDead (player g)" "orb_ready (before_loop cfg lvl g)"
      "objects lvl = pre @ obj # post"
      "\<forall>ob \<in> set pre. \<not> orb_in_range (tick_ctx cfg lvl g) ob"
      "orb_in_range (tick_ctx cfg lvl g) obj"
      "collide cfg (tick_ctx cfg lvl g) pre (before_loop cfg lvl g) = Continue gm"
    by simp_all
  note e = update_fires_effect [OF h]
  show "\<exists>g1. handle_obj cfg (tick_ctx cfg lvl g) obj gm = Continue g1 \<and>
         y_vec (velocity (player g1)) =
           orb_impulse (type_obj obj) (gravityScale (player g)) (gravityScale (player gm)) \<and>
         gravityScale (player g1) =
           (if type_obj obj = ORB_GRAVITY then - gravityScale (player gm)
            else gravityScale (player gm)) \<and>
         position (player g1) = position (player gm) \<and>
         \<not> isGrounded (player g1) \<and> \<not> canOrbJump (player g1) \<and>
         \<not> jumpPressedThisFrame (input g1) \<and>
         ((\<forall>ob \<in> set post. is_orb (type_obj ob)) \<and>
          off_planes lvl (gravityScale (player g)) (y_vec (position (player gm))) \<longrightarrow>
            player (update cfg lvl g) = player g1)"
    using e by blast
next
  assume a: "\<not> isDead (player g) \<and> orb_ready (before_loop cfg lvl g) \<and>
    objects lvl = pre @ obj # post \<and>
    (\<forall>ob \<in> set pre. \<not> orb_in_range (tick_ctx cfg lvl g) ob) \<and>
    orb_in_range (tick_ctx cfg lvl g) obj \<and>
    collide cfg (tick_ctx cfg lvl g) pre (before_loop cfg lvl g) = Continue gm \<and>
    Release \<notin> set es"
  then have u: "orb_bursts (update cfg lvl g) = orb_bursts g @ [orb_burst obj]"
      "\<not> canOrbJump (player (update cfg lvl g))"
    using update_fires [of g cfg lvl pre obj post gm] by simp_all
  from a have "Release \<notin> set es"
    by simp
  from run_orbs [OF this, of cfg lvl "update cfg lvl g"] u
  show "orb_bursts (run cfg lvl (Tick # es) g) = orb_bursts g @ [orb_burst obj]"
    by auto
qed

theorem orb_activation_witness:
  "\<not> isDead (player orb_run) \<and> orb_ready (before_loop play_props orb_level orb_run) \<and>
   objects orb_level = [] @ tile ORB_JUMP 0 2 # [] \<and>
   orb_in_range (tick_ctx play_props orb_level orb_run) (tile ORB_JUMP 0 2) \<and>
   off_planes orb_level 1 (y_vec (position (player (before_loop play_props orb_level orb_run)))) \<and>
   \<not> isDead (player (press initial)) \<and> isGrounded (player (press initial)) \<and>
   jump (input (press initial)) \<and>
   y_vec (velocity (player (update play_props orb_level orb_run))) = - 21 \<and>
   gravityScale (player (update play_props orb_level orb_run)) = 1 \<and>
   \<not> isGrounded (player (update play_props orb_level orb_run)) \<and>
   orb_bursts (run play_props orb_level [Tick, Tick, Tick] orb_run) =
     [orb_burst (tile ORB_JUMP 0 2)] \<and>
   orb_bursts (run play_props orb_level [Tick, Tick, Tick] (press initial)) = []"
proof -
  let ?b = "before_loop play_props orb_level orb_run"
  have a: "\<not> isDead (player orb_run)" "orb_ready ?b"
      "orb_in_range (tick_ctx play_props orb_level orb_run) (tile ORB_JUMP 0 2)"
      "off_planes orb_level 1 (y_vec (position (player ?b)))"
      "gravityScale (player orb_run) = 1" "gravityScale (player ?b) = 1"
      "orb_bursts orb_run = []"
    unfolding orb_run_state by code_simp+
  have s: "\<not> isDead (player (press initial))" "isGrounded (player (press initial))"
      "jump (input (press initial))" "orb_bursts (press initial) = []"
    by code_simp+
  have o: "objects orb_level = [] @ tile ORB_JUMP 0 2 # []"
    by (simp add: orb_level_def single_level_def)
  have c: "collide play_props (tick_ctx play_props orb_level orb_run) [] ?b = Continue ?b"
    by simp
  have i: "orb_impulse (type_obj (tile ORB_JUMP 0 2)) 1 1 = - 21"
    by (simp add: orb_impulse_def tile_def)
  have t: "type_obj (tile ORB_JUMP 0 2) \<noteq> ORB_GRAVITY"
    by (simp add: tile_def)
  have r: "Release \<notin> set [Tick, Tick]"
    by simp
  have e: "\<forall>ob \<in> set []. \<not> orb_in_range (tick_ctx play_props orb_level orb_run) ob"
    by simp
  have p: "\<forall>ob \<in> set ([] :: LevelObject list). is_orb (type_obj ob)"
    by simp
  note th = orb_activation [where cfg = play_props and lvl = orb_level and g = orb_run
      and es = "[Tick, Tick]" and s = "press initial" and pre = "[]"
      and obj = "tile ORB_JUMP 0 2" and post = "[]" and gm = ?b]
  have g: "orb_bursts (run play_props orb_level (Tick # [Tick, Tick]) (press initial)) =
      orb_bursts (press initial)"
    using th [THEN conjunct2, THEN conjunct2, THEN conjunct1] s(1-3) r by blast
  have "\<not> isDead (player orb_run) \<and> orb_ready ?b \<and>
      objects orb_level = [] @ tile ORB_JUMP 0 2 # [] \<and>
      (\<forall>ob \<in> set []. \<not> orb_in_range (tick_ctx play_props orb_level orb_run) ob) \<and>
      orb_in_range (tick_ctx play_props orb_level orb_run) (tile ORB_JUMP 0 2) \<and>
      collide play_props (tick_ctx play_props orb_level orb_run) [] ?b = Continue ?b \<and>
      Release \<notin> set [Tick, Tick]"
    by (intro conjI a(1) a(2) o e a(3) c r)
  note q = th [THEN conjunct2, THEN conjunct2, THEN conjunct2, THEN mp, OF this]
  note f = q [THEN conjunct2]
  from q [THEN conjunct1] obtain g1 where
    g1: "handle_obj play_props (tick_ctx play_props orb_level orb_run) (tile ORB_JUMP 0 2) ?b =
           Continue g1 \<and>
         y_vec (velocity (player g1)) =
           orb_impulse (type_obj (tile ORB_JUMP 0 2)) (gravityScale (player orb_run))
             (gravityScale (player ?b)) \<and>
         gravityScale (player g1) =
           (if type_obj (tile ORB_JUMP 0 2) = ORB_GRAVITY then - gravityScale (player ?b)
            else gravityScale (player ?b)) \<and>
         position (player g1) = position (player ?b) \<and>
         \<not> isGrounded (player g1) \<and> \<not> canOrbJump (player g1) \<and>
         \<not> jumpPressedThisFrame (input g1) \<and>
         ((\<forall>ob \<in> set ([] :: LevelObject list). is_orb (type_obj ob)) \<and>
          off_planes orb_level (gravityScale (player orb_run)) (y_vec (position (player ?b))) \<longrightarrow>
            player (update play_props orb_level orb_run) = player g1)"
    by blast
  have u: "player (update play_props orb_level orb_run) = player g1"
    using g1 p a(4,5) by simp
  have v: "y_vec (velocity (player g1)) = - 21" "gravityScale (player g1) = 1"
      "\<not> isGrounded (player g1)"
    using g1 a(5,6) i t by simp_all
  show ?thesis
    unfolding u using a s o v f g by simp
qed

text \<open>Why the last part asks for a player clear of the floor. In the tick in which the
  falling player reaches the floor beside the orb, the orb fires and sets the velocity, and
  then the floor stops the player: after the tick the vertical velocity is 0 and the player
  is on the ground. With the key held, the tick after that is a jump off the floor.\<close>

lemma orb_fires_on_landing:
  "orb_ready (before_loop play_props (single_level ORB_JUMP 5 1 CLASSIC) orb_landing_state) \<and>
   orb_in_range (tick_ctx play_props (single_level ORB_JUMP 5 1 CLASSIC) orb_landing_state)
     (tile ORB_JUMP 5 1) \<and>
   position (player (before_loop play_props (single_level ORB_JUMP 5 1 CLASSIC) orb_landing_state)) =
     \<lparr>x_vec = 225, y_vec = 0\<rparr> \<and>
   \<not> off_planes (single_level ORB_JUMP 5 1 CLASSIC) 1 0 \<and>
   orb_bursts (update play_props (single_level ORB_JUMP 5 1 CLASSIC) orb_landing_state) =
     [orb_burst (tile ORB_JUMP 5 1)] \<and>
   y_vec (velocity (player (update play_props (single_level ORB_JUMP 5 1 CLASSIC)
     orb_landing_state))) = 0 \<and>
   isGrounded (player (update play_props (single_level ORB_JUMP 5 1 CLASSIC) orb_landing_state)) \<and>
   y_vec (velocity (player (run play_props (single_level ORB_JUMP 5 1 CLASSIC) [Tick, Tick]
     orb_landing_state))) = - 24"
  by code_simp

subsection \<open>Gravity symmetry\<close>

lemma mirror_obj_fields [simp]:
  "type_obj (mirror_obj obj) = type_obj obj"
  "x_obj (mirror_obj obj) = x_obj obj"
  "y_obj (mirror_obj obj) = (if is_portal (type_obj obj) then 11 - y_obj obj else 13 - y_obj obj)"
  by (simp_all add: mirror_obj_def)

lemma mirror_vec_fields [simp]:
  "x_vec (mirror_vec v) = x_vec v"
  "y_vec (mirror_vec v) = - 528 - y_vec v"
  by (simp_all add: mirror_vec_def)

lemma mirroredD:
  assumes "mirrored p q"
  shows "x_vec (position q) = x_vec (position p)"
    and "y_vec (position q) = - 528 - y_vec (position p)"
    and "x_vec (velocity q) = x_vec (velocity p)"
    and "y_vec (velocity q) = - y_vec (velocity p)"
    and "gravityScale q = - gravityScale p"
    and "isGrounded q = isGrounded p" and "isDead q = isDead p"
    and "canOrbJump q = canOrbJump p" and "speedMultiplier q = speedMultiplier p"
    and "lastPortalX q = lastPortalX p"
  using assms by (simp_all add: mirrored_def)

lemma block_supports_mirror:
  assumes "mirrored p q" "gm = 1 \<or> gm = - 1"
  shows "block_supports (- gm) q (mirror_obj obj) = block_supports gm p obj"
  using assms(2) mirroredD [OF assms(1)]
  by (auto simp add: block_supports_def is_portal_def Let_def)

lemma find_support_mirror:
  assumes "mirrored p q" "gm = 1 \<or> gm = - 1"
  shows "find_support (- gm) q (map mirror_obj objs) = find_support gm p objs"
  by (induction objs) (simp_all add: block_supports_mirror [OF assms])

lemma plane_supports_mirror:
  assumes "mirrored p q" "gm = 1 \<or> gm = - 1" "gameMode lvl = CLASSIC"
    "off_strips (y_vec (position p))"
  shows "plane_supports (mirror_level lvl) (- gm) q = plane_supports lvl gm p"
  using assms(2,3,4) mirroredD [OF assms(1)]
  by (auto simp add: plane_supports_def mirror_level_def off_strips_def)

lemma stability_mirror:
  assumes "mirrored p q" "gm = 1 \<or> gm = - 1" "gameMode lvl = CLASSIC"
    "isGrounded p \<longrightarrow> off_strips (y_vec (position p))"
  shows "isGrounded (stability_check (mirror_level lvl) inp (- gm) q) =
         isGrounded (stability_check lvl inp gm p)"
proof (cases "isGrounded p")
  case True
  then show ?thesis
    using plane_supports_mirror [OF assms(1,2,3)] find_support_mirror [OF assms(1,2), of "objects lvl"]
      assms(4) mirroredD(6) [OF assms(1)]
    by (simp add: stability_check_grounded mirror_level_def)
next
  case False
  then show ?thesis
    using mirroredD(6) [OF assms(1)] by (simp add: stability_check_grounded)
qed

lemma integrate_more:
  "camera (snd (integrate lvl gm g)) = camera g"
  "shake (snd (integrate lvl gm g)) = shake g"
  "time (snd (integrate lvl gm g)) = time g"
  "x_vec (velocity (player (snd (integrate lvl gm g)))) = 9 * speedMultiplier (player g)"
  by (simp_all add: integrate_def Let_def apply_jump_def spawnParticles_def)

lemma before_loop_rest:
  "x_vec (velocity (player (before_loop cfg lvl g))) = 9 * speedMultiplier (player g)"
  "camera (before_loop cfg lvl g) = camera g"
  "shake (before_loop cfg lvl g) = decay_shake (shake g)"
  "time (before_loop cfg lvl g) = time g + 1 / 20"
  "recordedTrail (before_loop cfg lvl g) = recordedTrail g @
     (if isTestMode cfg \<and> \<not> isDead (player g) \<and> js_rem (time g + 1 / 20) (1 / 10) < 1 / 20
      then [position (player g)] else [])"
  by (simp_all add: before_loop_def integrate_more record_trail_def)

text \<open>The movement of a tick carries mirror images to mirror images.\<close>

lemma before_loop_mirror:
  assumes m: "mirrored_game s t" and l: "gameMode lvl = CLASSIC" and i: "sym_inv (player s)"
  shows "mirrored_game (before_loop cfg lvl s) (before_loop cfg (mirror_level lvl) t)"
proof -
  note p = mirroredD [of "player s" "player t"]
  have mp: "mirrored (player s) (player t)" and inp: "input t = input s"
    using m by (simp_all add: mirrored_game_def)
  have gm: "gravityScale (player s) = 1 \<or> gravityScale (player s) = - 1"
    using i by (simp add: sym_inv_def)
  have st: "isGrounded (stability_check (mirror_level lvl) (input s) (- gravityScale (player s))
        (player t)) =
      isGrounded (stability_check lvl (input s) (gravityScale (player s)) (player s))"
    using stability_mirror [OF mp gm l] i by (simp add: sym_inv_def)
  have pos: "position (player t) = mirror_vec (position (player s))"
    using mp by (simp add: mirrored_def)
  have v: "y_vec (velocity (player (before_loop cfg (mirror_level lvl) t))) =
      - y_vec (velocity (player (before_loop cfg lvl s)))"
  proof -
    have t: "y_vec (velocity (player t)) = - y_vec (velocity (player s))" "input t = input s"
        "gravityScale (player t) = - gravityScale (player s)"
      using p(4,5) [OF mp] inp by simp_all
    show ?thesis
    proof (cases "gravityScale (player s) = 1")
      case True
      then have "isGrounded (stability_check (mirror_level lvl) (input s) (- 1) (player t)) =
          isGrounded (stability_check lvl (input s) 1 (player s))"
        using st by simp
      then show ?thesis
        using True t by (simp add: before_loop_fields(2) Let_def minus_min_eq_max)
    next
      case False
      then have f: "gravityScale (player s) = - 1"
        using gm by simp
      then have "isGrounded (stability_check (mirror_level lvl) (input s) 1 (player t)) =
          isGrounded (stability_check lvl (input s) (- 1) (player s))"
        using st by simp
      then show ?thesis
        using f t by (simp add: before_loop_fields(2) Let_def minus_max_eq_min)
    qed
  qed
  have "mirrored (player (before_loop cfg lvl s)) (player (before_loop cfg (mirror_level lvl) t))"
    unfolding mirrored_def
    using v st p [OF mp] inp
    by (simp add: before_loop_fields(1,3) before_loop_more before_loop_rest Vector2.equality)
  then show ?thesis
    using m pos p(7) [OF mp]
    by (simp add: mirrored_game_def before_loop_rest)
qed

lemma tick_ctx_mirror:
  assumes m: "mirrored_game s t" and l: "gameMode lvl = CLASSIC" and i: "sym_inv (player s)"
  shows "mirrored_ctx (tick_ctx cfg lvl s) (tick_ctx cfg (mirror_level lvl) t)"
proof -
  have b: "mirrored (player (before_loop cfg lvl s)) (player (before_loop cfg (mirror_level lvl) t))"
    using before_loop_mirror [OF assms, of cfg] by (simp add: mirrored_game_def)
  have mp: "mirrored (player s) (player t)"
    using m by (simp add: mirrored_game_def)
  show ?thesis
    using mirroredD(1,2,4) [OF b] mirroredD(2,5) [OF mp]
    by (simp add: mirrored_ctx_def tick_ctx_fields)
qed

lemma mirrored_gameD:
  assumes "mirrored_game s t"
  shows "mirrored (player s) (player t)" and "input t = input s" and "camera t = camera s"
    and "shake t = shake s" and "time t = time s"
    and "recordedTrail t = map mirror_vec (recordedTrail s)"
    and "calls t = map mirror_call (calls s)"
  using assms by (simp_all add: mirrored_game_def)

lemma crash_mirror:
  assumes "mirrored_game g h"
  shows "mirrored_game (crash cfg g) (crash cfg h)"
  using assms
  by (simp add: mirrored_game_def mirrored_def crash_def report_death_def)

lemma orb_near_mirror:
  assumes "mirrored_ctx c d" "is_orb (type_obj obj)"
  shows "orb_near d (mirror_obj obj) = orb_near c obj"
proof -
  have np: "\<not> is_portal (type_obj obj)"
    using assms(2) by (auto simp add: is_orb_def is_portal_def)
  define dx where "dx = pCenterX_ctx c - (x_obj obj * 48 + 48 / 2)"
  define dy where "dy = pCenterY_ctx c - (- y_obj obj * 48 + 48 / 2)"
  have x: "pCenterX_ctx d - (x_obj (mirror_obj obj) * 48 + 48 / 2) = dx"
    using assms(1) by (simp add: mirrored_ctx_def dx_def)
  have y: "pCenterY_ctx d - (- y_obj (mirror_obj obj) * 48 + 48 / 2) = - dy"
    using assms(1) np by (simp add: mirrored_ctx_def dy_def)
  have "orb_near d (mirror_obj obj) \<longleftrightarrow> sqrt (dx * dx + (- dy) * (- dy)) < 32"
    unfolding orb_near_def Let_def x y ..
  moreover have "orb_near c obj \<longleftrightarrow> sqrt (dx * dx + dy * dy) < 32"
    unfolding orb_near_def Let_def dx_def dy_def ..
  ultimately show ?thesis
    by simp
qed

lemma handle_orb_mirror:
  assumes c: "mirrored_ctx c d" and o: "is_orb (type_obj obj)" and m: "mirrored_game g h"
  shows "mirrored_game (handle_orb c obj g) (handle_orb d (mirror_obj obj) h)"
proof -
  note n = orb_near_mirror [OF c o]
  note p = mirroredD [OF mirrored_gameD(1) [OF m]]
  have gm: "gravityMult_ctx d = - gravityMult_ctx c"
    using c by (simp add: mirrored_ctx_def)
  show ?thesis
  proof (cases "orb_near c obj \<and> orb_ready g")
    case True
    then show ?thesis
      using n m p gm
      by (auto simp add: handle_orb_def orb_ready_def Let_def spawnParticles_def orb_effect_def
          mirrored_game_def mirrored_def)
  next
    case False
    then have "\<not> (orb_near d (mirror_obj obj) \<and> orb_ready h)"
      using n p(8) mirrored_gameD(2) [OF m] by (simp add: orb_ready_def)
    then show ?thesis
      using False m by (simp add: handle_orb_skip)
  qed
qed

lemma portal_collision_mirror:
  assumes "mirrored_ctx c d" "is_portal (type_obj obj)"
  shows "checkCollision (pRect_ctx d) (portal_rect (mirror_obj obj)) =
         checkCollision (pRect_ctx c) (portal_rect obj)"
  using assms by (auto simp add: mirrored_ctx_def checkCollision_def portal_rect_def)

lemma handle_portal_mirror:
  assumes c: "mirrored_ctx c d" and o: "is_portal (type_obj obj)" and m: "mirrored_game g h"
  shows "mirrored_game (handle_portal c obj g) (handle_portal d (mirror_obj obj) h)"
proof (cases "checkCollision (pRect_ctx c) (portal_rect obj)")
  case False
  then show ?thesis
    using portal_collision_mirror [OF c o] m by (simp add: handle_portal_def)
next
  case True
  note p = mirroredD [OF mirrored_gameD(1) [OF m]]
  let ?g1 = "g\<lparr>player := speed_portal (type_obj obj) (player g)\<rparr>"
  let ?h1 = "h\<lparr>player := speed_portal (type_obj obj) (player h)\<rparr>"
  have s1: "mirrored_game ?g1 ?h1"
    using m by (simp add: mirrored_game_def mirrored_def speed_portal_def)
  have gp: "mirrored_game (gravity_portal c ?g1) (gravity_portal d ?h1)"
    using s1 by (simp add: gravity_portal_def lastPortalX_or_def spawnParticles_def Let_def
        mirrored_game_def mirrored_def)
  show ?thesis
    using True portal_collision_mirror [OF c o] s1 gp
    by (cases "type_obj obj = PORTAL_GRAVITY") (simp_all add: handle_portal_def Let_def)
qed

lemma hitBox_collision_mirror:
  assumes "mirrored_ctx c d" "\<not> is_portal (type_obj obj)" "type_obj obj \<noteq> HALF_SPIKE"
  shows "checkCollision (pRect_ctx d) (hitBox (mirror_obj obj)) =
         checkCollision (pRect_ctx c) (hitBox obj)"
  using assms by (auto simp add: mirrored_ctx_def checkCollision_def hitBox_def Let_def)

lemma lands_mirror:
  assumes "mirrored_ctx c d" "gravityMult_ctx c = 1 \<or> gravityMult_ctx c = - 1"
    "mirrored p q" "type_obj obj = BLOCK"
  shows "lands d (mirror_obj obj) q = lands c obj p"
    and "land_y d (mirror_obj obj) = - 528 - land_y c obj"
  using assms(1,2,4) mirroredD(4) [OF assms(3)]
  by (auto simp add: mirrored_ctx_def lands_def land_y_def is_portal_def Let_def)

lemma handle_block_mirror:
  assumes c: "mirrored_ctx c d" and gm: "gravityMult_ctx c = 1 \<or> gravityMult_ctx c = - 1"
    and m: "mirrored_game g h" and b: "type_obj obj = BLOCK"
  shows "rel_flow mirrored_game (handle_block cfg c obj g) (handle_block cfg d (mirror_obj obj) h)"
proof (cases "lands c obj (player g)")
  case True
  then show ?thesis
    using lands_mirror [OF c gm mirrored_gameD(1) [OF m] b] m
    by (simp add: handle_block_def mirrored_game_def mirrored_def mirror_vec_def)
next
  case False
  then show ?thesis
    using lands_mirror(1) [OF c gm mirrored_gameD(1) [OF m] b] crash_mirror [OF m]
    by (simp add: handle_block_def)
qed

text \<open>One iteration of the loop on an object and on its mirror image.\<close>

lemma handle_obj_mirror:
  assumes c: "mirrored_ctx c d" and gm: "gravityMult_ctx c = 1 \<or> gravityMult_ctx c = - 1"
    and m: "mirrored_game g h" and t: "type_obj obj \<noteq> HALF_SPIKE"
  shows "rel_flow mirrored_game (handle_obj cfg c obj g) (handle_obj cfg d (mirror_obj obj) h)"
proof -
  consider (orb) "is_orb (type_obj obj)"
    | (portal) "\<not> is_orb (type_obj obj)" "is_portal (type_obj obj)"
    | (tile) "\<not> is_orb (type_obj obj)" "\<not> is_portal (type_obj obj)"
    by blast
  then show ?thesis
  proof cases
    case orb
    then show ?thesis
      using handle_orb_mirror [OF c orb m] by (simp add: handle_obj_def)
  next
    case portal
    then show ?thesis
      using handle_portal_mirror [OF c portal(2) m] by (simp add: handle_obj_def)
  next
    case tile
    note k = hitBox_collision_mirror [OF c tile(2) t]
    show ?thesis
    proof (cases "checkCollision (pRect_ctx c) (hitBox obj)")
      case False
      then show ?thesis
        using k tile m by (simp add: handle_obj_def)
    next
      case True
      show ?thesis
      proof (cases "type_obj obj = BLOCK")
        case b: True
        then show ?thesis
          using True k tile handle_block_mirror [OF c gm m b] by (simp add: handle_obj_def)
      next
        case False
        then show ?thesis
          using True k tile t m crash_mirror [OF m] by (simp add: handle_obj_def)
      qed
    qed
  qed
qed

lemma collide_mirror:
  assumes c: "mirrored_ctx c d" and gm: "gravityMult_ctx c = 1 \<or> gravityMult_ctx c = - 1"
    and t: "list_all (\<lambda>obj. type_obj obj \<noteq> HALF_SPIKE) objs"
  shows "mirrored_game g h \<Longrightarrow>
    rel_flow mirrored_game (collide cfg c objs g) (collide cfg d (map mirror_obj objs) h)"
  using t
proof (induction objs arbitrary: g h)
  case Nil
  then show ?case by simp
next
  case (Cons obj objs)
  from Cons.prems have t1: "type_obj obj \<noteq> HALF_SPIKE"
      and t2: "list_all (\<lambda>obj. type_obj obj \<noteq> HALF_SPIKE) objs"
    by simp_all
  note r = handle_obj_mirror [OF c gm Cons.prems(1) t1, of cfg]
  show ?case
  proof (cases "handle_obj cfg c obj g")
    case (Continue g1)
    then obtain h1 where h: "handle_obj cfg d (mirror_obj obj) h = Continue h1"
        and m1: "mirrored_game g1 h1"
      using r by (cases "handle_obj cfg d (mirror_obj obj) h") simp_all
    then show ?thesis
      using Continue Cons.IH [OF m1 t2] by simp
  next
    case (Return g1)
    then obtain h1 where h: "handle_obj cfg d (mirror_obj obj) h = Return h1"
        and m1: "mirrored_game g1 h1"
      using r by (cases "handle_obj cfg d (mirror_obj obj) h") simp_all
    then show ?thesis
      using Return by simp
  qed
qed

lemma finish_mirror:
  assumes m: "mirrored_game g h" and l: "gameMode lvl = CLASSIC" and gm: "gm = 1 \<or> gm = - 1"
  shows "mirrored_game (finish cfg lvl gm g) (finish cfg (mirror_level lvl) (- gm) h)"
proof -
  note p = mirroredD [OF mirrored_gameD(1) [OF m]]
  have f: "mirrored_game (floor_ceiling cfg lvl gm g) (floor_ceiling cfg (mirror_level lvl) (- gm) h)"
    using m l gm p(2,7)
    by (auto simp add: floor_ceiling_def Let_def mirror_level_def mirrored_game_def mirrored_def
        mirror_vec_def)
  then show ?thesis
    using mirroredD(1) [OF mirrored_gameD(1) [OF f]] l
    by (simp add: finish_def Let_def move_camera_def check_win_def mirror_level_def
        mirrored_game_def)
qed

text \<open>One tick on a run state and on its mirror image.\<close>

lemma update_mirror:
  assumes m: "mirrored_game s t" and l: "mirrorable lvl" and i: "sym_inv (player s)"
  shows "mirrored_game (update cfg lvl s) (update cfg (mirror_level lvl) t)"
proof (cases "isDead (player s)")
  case True
  then have "isDead (player t)"
    using mirroredD(7) [OF mirrored_gameD(1) [OF m]] by simp
  then show ?thesis
    using True m by (simp add: update_def spawnParticles_def mirrored_game_def)
next
  case False
  then have ft: "\<not> isDead (player t)"
    using mirroredD(7) [OF mirrored_gameD(1) [OF m]] by simp
  have cl: "gameMode lvl = CLASSIC"
    and hs: "list_all (\<lambda>obj. type_obj obj \<noteq> HALF_SPIKE) (objects lvl)"
    using l by (simp_all add: mirrorable_def list_all_iff)
  have gm: "gravityScale (player s) = 1 \<or> gravityScale (player s) = - 1"
    using i by (simp add: sym_inv_def)
  have gt: "gravityScale (player t) = - gravityScale (player s)"
    using mirroredD(5) [OF mirrored_gameD(1) [OF m]] .
  note c = tick_ctx_mirror [OF m cl i, of cfg]
  note b = before_loop_mirror [OF m cl i, of cfg]
  have gc: "gravityMult_ctx (tick_ctx cfg lvl s) = 1 \<or> gravityMult_ctx (tick_ctx cfg lvl s) = - 1"
    using gm by (simp add: tick_ctx_fields)
  have r: "rel_flow mirrored_game
      (collide cfg (tick_ctx cfg lvl s) (objects lvl) (before_loop cfg lvl s))
      (collide cfg (tick_ctx cfg (mirror_level lvl) t) (objects (mirror_level lvl))
         (before_loop cfg (mirror_level lvl) t))"
    using collide_mirror [OF c gc hs b, of cfg] by (simp add: mirror_level_def)
  show ?thesis
  proof (cases "collide cfg (tick_ctx cfg lvl s) (objects lvl) (before_loop cfg lvl s)")
    case (Continue g2)
    then obtain h2 where h: "collide cfg (tick_ctx cfg (mirror_level lvl) t)
        (objects (mirror_level lvl)) (before_loop cfg (mirror_level lvl) t) = Continue h2"
        and m2: "mirrored_game g2 h2"
      using r by (cases "collide cfg (tick_ctx cfg (mirror_level lvl) t)
        (objects (mirror_level lvl)) (before_loop cfg (mirror_level lvl) t)") simp_all
    show ?thesis
      using finish_mirror [OF m2 cl gm, of cfg] Continue h gt
      by (simp add: update_loop [OF False] update_loop [OF ft])
  next
    case (Return g2)
    then obtain h2 where h: "collide cfg (tick_ctx cfg (mirror_level lvl) t)
        (objects (mirror_level lvl)) (before_loop cfg (mirror_level lvl) t) = Return h2"
        and m2: "mirrored_game g2 h2"
      using r by (cases "collide cfg (tick_ctx cfg (mirror_level lvl) t)
        (objects (mirror_level lvl)) (before_loop cfg (mirror_level lvl) t)") simp_all
    show ?thesis
      using m2 Return h by (simp add: update_loop [OF False] update_loop [OF ft])
  qed
qed

subsection \<open>Where a player can stand\<close>

lemma off_strips_int:
  fixes n :: int
  assumes "\<not> (- 2 \<le> n \<and> n < 0)" "\<not> (- 528 < n \<and> n \<le> - 526)"
  shows "off_strips (of_int n)"
proof -
  have "(- 2 \<le> real_of_int n) = (- 2 \<le> n)" "(real_of_int n < 0) = (n < 0)"
    "(- 528 < real_of_int n) = (- 528 < n)" "(real_of_int n \<le> - 526) = (n \<le> - 526)"
    by linarith+
  then show ?thesis
    using assms by (simp only: off_strips_def) simp
qed

lemma off_strips_row:
  assumes "r = of_int \<lfloor>r\<rfloor>"
  shows "off_strips (- r * 48)" and "off_strips (- r * 48 + 48 + 48)"
proof -
  obtain k :: int where k: "r = of_int k"
    using assms by blast
  have e1: "- r * 48 = of_int (- 48 * k)"
    by (simp add: k)
  have e2: "- r * 48 + 48 + 48 = of_int (- 48 * k + 96)"
    by (simp add: k)
  show "off_strips (- r * 48)"
    unfolding e1 by (rule off_strips_int) presburger+
  show "off_strips (- r * 48 + 48 + 48)"
    unfolding e2 by (rule off_strips_int) presburger+
qed

lemma handle_orb_sym_inv:
  assumes "sym_inv (player g)" "is_orb (type_obj obj)"
  shows "sym_inv (player (handle_orb c obj g))"
  using assms
  by (auto simp add: handle_orb_def orb_effect_def is_orb_def spawnParticles_def Let_def
      sym_inv_def)

lemma handle_portal_sym_inv:
  assumes "sym_inv (player g)"
  shows "sym_inv (player (handle_portal c obj g))"
  using assms
  by (auto simp add: handle_portal_def gravity_portal_def speed_portal_def spawnParticles_def
      Let_def sym_inv_def)

lemma handle_obj_sym_inv:
  assumes i: "sym_inv (player g)" and h: "handle_obj cfg c obj g = Continue g'"
    and r: "type_obj obj = BLOCK \<longrightarrow> y_obj obj = of_int \<lfloor>y_obj obj\<rfloor>"
  shows "sym_inv (player g')"
  using h
proof (cases rule: handle_obj_Continue_cases)
  case orb
  then show ?thesis using handle_orb_sym_inv [OF i] by simp
next
  case portal
  then show ?thesis using handle_portal_sym_inv [OF i] by simp
next
  case block
  then have "off_strips (land_y c obj)"
    using r off_strips_row [of "y_obj obj"] by (simp add: land_y_def Let_def)
  then show ?thesis
    using block(4) i by (simp add: sym_inv_def)
next
  case miss
  then show ?thesis using i by simp
qed

lemma crash_sym_inv: "sym_inv (player g) \<Longrightarrow> sym_inv (player (crash cfg g))"
  by (simp add: crash_def report_death_def sym_inv_def)

lemma collide_sym_inv:
  assumes r: "list_all (\<lambda>obj. type_obj obj = BLOCK \<longrightarrow> y_obj obj = of_int \<lfloor>y_obj obj\<rfloor>) objs"
  shows "sym_inv (player g) \<Longrightarrow> collide cfg c objs g = Continue g' \<or> collide cfg c objs g = Return g'
    \<Longrightarrow> sym_inv (player g')"
  using r
proof (induction objs arbitrary: g)
  case Nil
  then show ?case by simp
next
  case (Cons obj objs)
  show ?case
  proof (cases "handle_obj cfg c obj g")
    case (Continue g1)
    then have "sym_inv (player g1)"
      using handle_obj_sym_inv [OF Cons.prems(1) Continue] Cons.prems(3) by simp
    then show ?thesis
      using Cons.IH [of g1] Cons.prems(2,3) Continue by simp
  next
    case (Return g1)
    then show ?thesis
      using Cons.prems(1,2) handle_obj_Return [OF Return] crash_sym_inv [of g cfg] by auto
  qed
qed

lemma before_loop_sym_inv:
  assumes "sym_inv (player g)"
  shows "sym_inv (player (before_loop cfg lvl g))"
proof (cases "isGrounded (player (before_loop cfg lvl g))")
  case True
  then have "isGrounded (stability_check lvl (input g) (gravityScale (player g)) (player g))"
      "\<not> jump (input g)"
    by (simp_all add: before_loop_more)
  moreover from this have "isGrounded (player g)"
    by (simp add: stability_check_grounded)
  ultimately have "y_vec (position (player (before_loop cfg lvl g))) = y_vec (position (player g))"
    by (auto simp add: before_loop_fields Let_def)
  then show ?thesis
    using assms \<open>isGrounded (player g)\<close> by (simp add: sym_inv_def before_loop_more)
next
  case False
  then show ?thesis
    using assms by (simp add: sym_inv_def before_loop_more(1))
qed

lemma finish_sym_inv:
  assumes "sym_inv (player g)"
  shows "sym_inv (player (finish cfg lvl gm g))"
  using assms
  by (auto simp add: floor_ceiling_def report_death_def Let_def sym_inv_def off_strips_def)

lemma update_sym_inv:
  assumes i: "sym_inv (player g)" and l: "mirrorable lvl"
  shows "sym_inv (player (update cfg lvl g))"
proof (cases "isDead (player g)")
  case True
  then show ?thesis using i by (simp add: update_dead)
next
  case False
  have r: "list_all (\<lambda>obj. type_obj obj = BLOCK \<longrightarrow> y_obj obj = of_int \<lfloor>y_obj obj\<rfloor>) (objects lvl)"
    using l by (simp add: mirrorable_def list_all_iff)
  note b = before_loop_sym_inv [OF i, of cfg lvl]
  show ?thesis
  proof (cases "collide cfg (tick_ctx cfg lvl g) (objects lvl) (before_loop cfg lvl g)")
    case (Continue g2)
    then have "sym_inv (player g2)"
      using collide_sym_inv [OF r b, of cfg "tick_ctx cfg lvl g" g2] by simp
    then show ?thesis
      using finish_sym_inv [of g2 cfg lvl "gravityScale (player g)"] Continue
      by (simp add: update_loop [OF False])
  next
    case (Return g2)
    then have "sym_inv (player g2)"
      using collide_sym_inv [OF r b, of cfg "tick_ctx cfg lvl g" g2] by simp
    then show ?thesis
      using Return by (simp add: update_loop [OF False])
  qed
qed

lemma step_mirror:
  assumes "mirrored_game s t" "mirrorable lvl" "sym_inv (player s)"
  shows "mirrored_game (step cfg lvl e s) (step cfg (mirror_level lvl) e t)"
    and "sym_inv (player (step cfg lvl e s))"
proof -
  show "mirrored_game (step cfg lvl e s) (step cfg (mirror_level lvl) e t)"
    using assms update_mirror [OF assms, of cfg]
    by (cases e) (simp_all add: press_def release_def mirrored_game_def mirrored_def)
  show "sym_inv (player (step cfg lvl e s))"
    using assms(3) update_sym_inv [OF assms(3,2), of cfg]
    by (cases e) (simp_all add: press_def release_def sym_inv_def)
qed

lemma run_mirror:
  assumes "mirrorable lvl"
  shows "mirrored_game s t \<Longrightarrow> sym_inv (player s) \<Longrightarrow>
    mirrored_game (run cfg lvl es s) (run cfg (mirror_level lvl) es t)"
proof (induction es arbitrary: s t)
  case Nil
  then show ?case by simp
next
  case (Cons e es)
  from step_mirror [OF Cons.prems(1) assms Cons.prems(2), of cfg e]
  show ?case
    using Cons.IH by simp
qed

lemma mirror_game_mirrored: "mirrored_game g (mirror_game g)"
  by (simp add: mirrored_game_def mirrored_def mirror_game_def mirror_player_def)

text \<open>
  C8, as the claim has it, fails. In FREE mode there is no ceiling: the player of the
  initial state stays on the floor with velocity 0, its mirror image leaves its plane with
  velocity \<open>- 2\<close>. In CLASSIC mode a HALF_SPIKE keeps its hitbox in the lower part of the
  tile whatever the gravity: a player dies of the HALF_SPIKE at tile (1, 2), and its mirror
  image survives the mirrored tile. And the stability check allows 2 pixels at the
  ceiling and none at the floor: a player taken to stand one pixel above the floor drops
  onto it, its mirror image stays one pixel below the ceiling.
\<close>

theorem gravity_symmetry_counterexample:
  "mirrored_game initial (mirror_game initial) \<and>
   y_vec (velocity (player (update play_props (empty_level 50 FREE) initial))) = 0 \<and>
   y_vec (velocity (player (update play_props (mirror_level (empty_level 50 FREE))
      (mirror_game initial)))) = - 2 \<and>
   \<not> mirrored_game (update play_props (empty_level 50 FREE) initial)
      (update play_props (mirror_level (empty_level 50 FREE)) (mirror_game initial)) \<and>
   isDead (player (update play_props (single_level HALF_SPIKE 1 2 CLASSIC) beside_spike)) \<and>
   \<not> isDead (player (update play_props (mirror_level (single_level HALF_SPIKE 1 2 CLASSIC))
      (mirror_game beside_spike))) \<and>
   y_vec (position (player (update play_props (empty_level 50 CLASSIC) above_floor))) = 0 \<and>
   y_vec (position (player (update play_props (mirror_level (empty_level 50 CLASSIC))
      (mirror_game above_floor)))) = - 527"
  by code_simp

text \<open>
  C8, amended. Take a level in CLASSIC mode without HALF_SPIKE and with its blocks in
  whole rows, and its mirror image: each tile moved from row \<open>r\<close> to row \<open>13 - r\<close>, each
  portal to row \<open>11 - r\<close>. Take two run states that are mirror images in the plane half-way
  between floor and ceiling: \<open>y\<close> and \<open>- 528 - y\<close>, opposite vertical velocities, opposite
  gravity signs of magnitude 1, everything else equal; and let a grounded player not be
  inside the 2 pixels that the stability check allows at the ceiling, or their image at
  the floor. Then the same ticks and input events, on the level from the one state and on
  the mirrored level from the other, lead to mirror images again: positions, velocities,
  gravity signs, the grounded and dead flags, the recorded trail and the callbacks.
\<close>

theorem gravity_symmetry:
  assumes "mirrorable lvl" and "mirrored_game s t" and "sym_inv (player s)"
  shows "mirrored_game (run cfg lvl es s) (run cfg (mirror_level lvl) es t) \<and>
         y_vec (position (player (run cfg (mirror_level lvl) es t))) =
           - 528 - y_vec (position (player (run cfg lvl es s))) \<and>
         y_vec (velocity (player (run cfg (mirror_level lvl) es t))) =
           - y_vec (velocity (player (run cfg lvl es s))) \<and>
         gravityScale (player (run cfg (mirror_level lvl) es t)) =
           - gravityScale (player (run cfg lvl es s))"
  using run_mirror [OF assms, of cfg es]
  by (simp add: mirrored_game_def mirrored_def)

theorem gravity_symmetry_witness:
  "mirrorable orb_level \<and> mirrored_game initial (mirror_game initial) \<and>
   sym_inv (player initial) \<and>
   y_vec (position (player (run play_props orb_level
      [Press, Tick, Release, Press, Tick, Tick] initial))) = - 65 \<and>
   y_vec (position (player (run play_props (mirror_level orb_level)
      [Press, Tick, Release, Press, Tick, Tick] (mirror_game initial)))) = - 463"
proof -
  have a: "mirrorable orb_level" "sym_inv (player initial)"
    by code_simp+
  have b: "y_vec (position (player (run play_props orb_level
      [Press, Tick, Release, Press, Tick, Tick] initial))) = - 65"
    by code_simp
  show ?thesis
    using gravity_symmetry [OF a(1) mirror_game_mirrored [of initial] a(2), of play_props
        "[Press, Tick, Release, Press, Tick, Tick]"] a b mirror_game_mirrored [of initial]
    by simp
qed

subsection \<open>Death and the end of the level in one tick\<close>

lemma rising_loop:
  assumes "rising a b v g"
  shows "collide test_props (tick_ctx test_props free_portal_level g) (objects free_portal_level)
      (before_loop test_props free_portal_level g) = Continue (before_loop test_props free_portal_level g)"
    and "position (player (before_loop test_props free_portal_level g)) =
      \<lparr>x_vec = a + 9, y_vec = b + max (v - 2) (- 30)\<rparr>"
    and "y_vec (velocity (player (before_loop test_props free_portal_level g))) = max (v - 2) (- 30)"
    and "\<not> isGrounded (player (before_loop test_props free_portal_level g))"
proof -
  have ng: "\<not> isGrounded (stability_check free_portal_level (input g) (- 1) (player g))"
    using assms by (simp add: rising_def stability_check_grounded)
  show v: "y_vec (velocity (player (before_loop test_props free_portal_level g))) = max (v - 2) (- 30)"
    using assms ng by (simp add: rising_def before_loop_fields Let_def max_def)
  show p: "position (player (before_loop test_props free_portal_level g)) =
      \<lparr>x_vec = a + 9, y_vec = b + max (v - 2) (- 30)\<rparr>"
    using assms v by (simp add: rising_def before_loop_fields(1,3) Vector2.equality)
  show "\<not> isGrounded (player (before_loop test_props free_portal_level g))"
    using assms ng by (simp add: rising_def before_loop_more)
  have "\<not> checkCollision (pRect_ctx (tick_ctx test_props free_portal_level g))
      (portal_rect (tile PORTAL_GRAVITY 1 1))"
    using assms p
    by (simp add: rising_def tick_ctx_fields checkCollision_def portal_rect_def tile_def max_def)
  then show "collide test_props (tick_ctx test_props free_portal_level g) (objects free_portal_level)
      (before_loop test_props free_portal_level g) = Continue (before_loop test_props free_portal_level g)"
    by (simp add: free_portal_level_def handle_obj_def is_orb_def is_portal_def handle_portal_def
        tile_def)
qed

lemma rising_update:
  assumes "rising a b v g"
  shows "update test_props free_portal_level g =
     finish test_props free_portal_level (- 1) (before_loop test_props free_portal_level g)"
  using assms rising_loop(1) [OF assms]
  by (simp add: update_loop rising_def)

lemma rising_tick:
  assumes "rising a b v g" "- 3000 \<le> b + max (v - 2) (- 30)" "a + 9 \<le> 912"
  shows "rising (a + 9) (b + max (v - 2) (- 30)) (max (v - 2) (- 30))
           (update test_props free_portal_level g)"
    and "calls (update test_props free_portal_level g) = calls g"
proof -
  let ?b = "before_loop test_props free_portal_level g"
  note l = rising_loop [OF assms(1)]
  have alive: "\<not> isDead (player ?b)"
    using assms(1) by (simp add: rising_def)
  have fc: "floor_ceiling test_props free_portal_level (- 1) ?b = ?b"
    using assms(1,2) l(2) alive
    by (simp add: floor_ceiling_def Let_def free_portal_level_def rising_def max_def)
  show "rising (a + 9) (b + max (v - 2) (- 30)) (max (v - 2) (- 30))
           (update test_props free_portal_level g)"
    using assms(1) l fc
    by (simp add: rising_update [OF assms(1)] rising_def before_loop_more max_def)
  have w: "\<not> length_lvl free_portal_level * 48 < x_vec (position (player ?b))"
    using assms(3) l(2) by (simp add: free_portal_level_def)
  show "calls (update test_props free_portal_level g) = calls g"
    unfolding rising_update [OF assms(1)] finish_calls fc using w by simp
qed

lemma rising_run:
  "rising a b (- 30) g \<Longrightarrow> - 3000 \<le> b - 30 * real k \<Longrightarrow> a + 9 * real k \<le> 912 \<Longrightarrow>
   rising (a + 9 * real k) (b - 30 * real k) (- 30)
     (run test_props free_portal_level (replicate k Tick) g) \<and>
   calls (run test_props free_portal_level (replicate k Tick) g) = calls g"
proof (induction k arbitrary: a b g)
  case 0
  then show ?case by simp
next
  case (Suc k)
  have b1: "- 3000 \<le> b + max (- 30 - 2) (- 30)" and a1: "a + 9 \<le> 912"
    using Suc.prems(2,3) by (simp_all add: algebra_simps)
  note t = rising_tick [OF Suc.prems(1) b1 a1]
  have r: "rising (a + 9) (b - 30) (- 30) (update test_props free_portal_level g)"
    using t(1) by simp
  have "- 3000 \<le> b - 30 - 30 * real k" "a + 9 + 9 * real k \<le> 912"
    using Suc.prems(2,3) by (simp_all add: algebra_simps)
  from Suc.IH [OF r this] show ?case
    by (simp add: t(2) algebra_simps)
qed

text \<open>The tick that takes a rising player out of bounds and past the end of the level.\<close>

lemma rising_last_tick:
  assumes "rising a b (- 30) g" "b - 30 < - 3000" "912 < a + 9"
  shows "isDead (player (update test_props free_portal_level g))"
    and "position (player (update test_props free_portal_level g)) = \<lparr>x_vec = a + 9, y_vec = b - 30\<rparr>"
    and "calls (update test_props free_portal_level g) = calls g @
      [OnTestComplete (recordedTrail (update test_props free_portal_level g))
         (Some \<lparr>x_vec = a + 9, y_vec = b - 30\<rparr>),
       OnTestComplete (recordedTrail (update test_props free_portal_level g)) None]"
proof -
  let ?b = "before_loop test_props free_portal_level g"
  have l: "position (player ?b) = \<lparr>x_vec = a + 9, y_vec = b - 30\<rparr>"
    using rising_loop(2) [OF assms(1)] by simp
  have alive: "\<not> isDead (player ?b)"
    using assms(1) by (simp add: rising_def)
  have d: "isDead (player (floor_ceiling test_props free_portal_level (- 1) ?b))"
    using floor_ceiling_dead(1) [OF alive, of test_props free_portal_level "- 1"] assms(2) l
    by (simp add: free_portal_level_def)
  note e = floor_ceiling_dead(2) [OF alive d]
  show "isDead (player (update test_props free_portal_level g))"
    using d by (simp add: rising_update [OF assms(1)])
  show "position (player (update test_props free_portal_level g)) = \<lparr>x_vec = a + 9, y_vec = b - 30\<rparr>"
    using e l by (simp add: rising_update [OF assms(1)])
  have u: "recordedTrail (update test_props free_portal_level g) = recordedTrail ?b"
    by (simp add: rising_update [OF assms(1)])
  have w: "length_lvl free_portal_level * 48 < x_vec (position (player ?b))"
    using assms(3) l by (simp add: free_portal_level_def)
  have "calls (update test_props free_portal_level g) =
      calls (floor_ceiling test_props free_portal_level (- 1) ?b) @
        [OnTestComplete (recordedTrail ?b) None]"
    using w unfolding rising_update [OF assms(1)] finish_calls
    by (simp add: test_props_def)
  also have "calls (floor_ceiling test_props free_portal_level (- 1) ?b) =
      calls g @ [OnTestComplete (recordedTrail ?b) (Some (position (player ?b)))]"
    using e by (simp add: test_props_def)
  finally show "calls (update test_props free_portal_level g) = calls g @
      [OnTestComplete (recordedTrail (update test_props free_portal_level g))
         (Some \<lparr>x_vec = a + 9, y_vec = b - 30\<rparr>),
       OnTestComplete (recordedTrail (update test_props free_portal_level g)) None]"
    unfolding u l by simp
qed

lemma free_portal_run_add:
  "free_portal_run (n + k) = run test_props free_portal_level (replicate k Tick) (free_portal_run n)"
  unfolding free_portal_run_def
  using run_append [of test_props free_portal_level "Press # replicate n Tick" "replicate k Tick" initial]
  by (simp add: replicate_add)

lemma free_portal_run_Suc:
  "free_portal_run (Suc n) = update test_props free_portal_level (free_portal_run n)"
  using free_portal_run_add [of n 1] by simp

lemma free_portal_run_steps:
  "free_portal_run 2 = update test_props free_portal_level (free_portal_run 1)"
  "free_portal_run 3 = update test_props free_portal_level (free_portal_run 2)"
  "free_portal_run 4 = update test_props free_portal_level (free_portal_run 3)"
  "free_portal_run 5 = update test_props free_portal_level (free_portal_run 4)"
  using free_portal_run_Suc [of 1] free_portal_run_Suc [of 2] free_portal_run_Suc [of 3]
    free_portal_run_Suc [of 4]
  by (simp_all add: eval_nat_numeral)

text \<open>The first five ticks of the run, one at a time.\<close>

lemma free_portal_run_1:
  "free_portal_run 1 =
     \<lparr>player =
        \<lparr>position = \<lparr>x_vec = 9, y_vec = - 24\<rparr>, velocity = \<lparr>x_vec = 9, y_vec = - 24\<rparr>,
         isGrounded = False, isDead = False, rotation = 6, gravityScale = 1,
         canOrbJump = False, speedMultiplier = 1, lastPortalX = None\<rparr>,
      input = \<lparr>jump = True, jumpPressedThisFrame = False\<rparr>,
      camera = \<lparr>x_vec = - 291, y_vec = - (87 / 5)\<rparr>, shake = 0, time = 1 / 20,
      recordedTrail = [],
      bursts =
       [\<lparr>x_burst = 24, y_burst = 0, count_burst = 10, color_burst = ''white'',
          speedMult_burst = 1\<rparr>],
      calls = []\<rparr>"
  unfolding free_portal_run_def by code_simp

lemma free_portal_run_2:
  "free_portal_run 2 =
     \<lparr>player =
        \<lparr>position = \<lparr>x_vec = 18, y_vec = - 46\<rparr>, velocity = \<lparr>x_vec = 9, y_vec = - 22\<rparr>,
         isGrounded = False, isDead = False, rotation = 12, gravityScale = 1,
         canOrbJump = False, speedMultiplier = 1, lastPortalX = None\<rparr>,
      input = \<lparr>jump = True, jumpPressedThisFrame = False\<rparr>,
      camera = \<lparr>x_vec = - 282, y_vec = - (1763 / 50)\<rparr>, shake = 0, time = 1 / 10,
      recordedTrail = [\<lparr>x_vec = 9, y_vec = - 24\<rparr>],
      bursts =
       [\<lparr>x_burst = 24, y_burst = 0, count_burst = 10, color_burst = ''white'',
          speedMult_burst = 1\<rparr>],
      calls = []\<rparr>"
  unfolding free_portal_run_steps(1) free_portal_run_1 by code_simp

lemma free_portal_run_3:
  "free_portal_run 3 =
     \<lparr>player =
        \<lparr>position = \<lparr>x_vec = 27, y_vec = - 66\<rparr>, velocity = \<lparr>x_vec = 9, y_vec = - 20\<rparr>,
         isGrounded = False, isDead = False, rotation = 18, gravityScale = - 1,
         canOrbJump = False, speedMultiplier = 1, lastPortalX = Some 27\<rparr>,
      input = \<lparr>jump = True, jumpPressedThisFrame = False\<rparr>,
      camera = \<lparr>x_vec = - 273, y_vec = - (26667 / 500)\<rparr>, shake = 0, time = 3 / 20,
      recordedTrail = [\<lparr>x_vec = 9, y_vec = - 24\<rparr>],
      bursts =
       [\<lparr>x_burst = 24, y_burst = 0, count_burst = 10, color_burst = ''white'',
          speedMult_burst = 1\<rparr>,
        \<lparr>x_burst = 51, y_burst = - 90, count_burst = 20, color_burst = ''#10b981'',
          speedMult_burst = 2\<rparr>],
      calls = []\<rparr>"
  unfolding free_portal_run_steps(2) free_portal_run_2 by code_simp

lemma free_portal_run_4:
  "free_portal_run 4 =
     \<lparr>player =
        \<lparr>position = \<lparr>x_vec = 36, y_vec = - 88\<rparr>, velocity = \<lparr>x_vec = 9, y_vec = - 22\<rparr>,
         isGrounded = False, isDead = False, rotation = 12, gravityScale = - 1,
         canOrbJump = False, speedMultiplier = 1, lastPortalX = Some 27\<rparr>,
      input = \<lparr>jump = True, jumpPressedThisFrame = False\<rparr>,
      camera = \<lparr>x_vec = - 264, y_vec = - (359003 / 5000)\<rparr>, shake = 0, time = 1 / 5,
      recordedTrail = [\<lparr>x_vec = 9, y_vec = - 24\<rparr>, \<lparr>x_vec = 27, y_vec = - 66\<rparr>],
      bursts =
       [\<lparr>x_burst = 24, y_burst = 0, count_burst = 10, color_burst = ''white'',
          speedMult_burst = 1\<rparr>,
        \<lparr>x_burst = 51, y_burst = - 90, count_burst = 20, color_burst = ''#10b981'',
          speedMult_burst = 2\<rparr>],
      calls = []\<rparr>"
  unfolding free_portal_run_steps(3) free_portal_run_3 by code_simp

lemma free_portal_run_5:
  "free_portal_run 5 =
     \<lparr>player =
        \<lparr>position = \<lparr>x_vec = 45, y_vec = - 112\<rparr>, velocity = \<lparr>x_vec = 9, y_vec = - 24\<rparr>,
         isGrounded = False, isDead = False, rotation = 6, gravityScale = - 1,
         canOrbJump = False, speedMultiplier = 1, lastPortalX = Some 27\<rparr>,
      input = \<lparr>jump = True, jumpPressedThisFrame = False\<rparr>,
      camera = \<lparr>x_vec = - 255, y_vec = - (4541027 / 50000)\<rparr>, shake = 0, time = 1 / 4,
      recordedTrail = [\<lparr>x_vec = 9, y_vec = - 24\<rparr>, \<lparr>x_vec = 27, y_vec = - 66\<rparr>],
      bursts =
       [\<lparr>x_burst = 24, y_burst = 0, count_burst = 10, color_burst = ''white'',
          speedMult_burst = 1\<rparr>,
        \<lparr>x_burst = 51, y_burst = - 90, count_burst = 20, color_burst = ''#10b981'',
          speedMult_burst = 2\<rparr>],
      calls = []\<rparr>"
  unfolding free_portal_run_steps(4) free_portal_run_4 by code_simp

lemma free_portal_run_8:
  "rising 72 (- 196) (- 30) (free_portal_run 8)" "calls (free_portal_run 8) = []"
proof -
  have r5: "rising 45 (- 112) (- 24) (free_portal_run 5)"
    by (simp add: rising_def free_portal_run_5)
  have s: "free_portal_run 6 = update test_props free_portal_level (free_portal_run 5)"
    "free_portal_run 7 = update test_props free_portal_level (free_portal_run 6)"
    "free_portal_run 8 = update test_props free_portal_level (free_portal_run 7)"
    using free_portal_run_Suc [of 5] free_portal_run_Suc [of 6] free_portal_run_Suc [of 7]
    by (simp_all add: eval_nat_numeral)
  have c5: "calls (free_portal_run 5) = []"
    by (simp add: free_portal_run_5)
  have r6: "rising 54 (- 138) (- 26) (free_portal_run 6)"
    and c6: "calls (free_portal_run 6) = []"
    using rising_tick [OF r5, folded s(1)] by (simp_all add: c5)
  have r7: "rising 63 (- 166) (- 28) (free_portal_run 7)"
    and c7: "calls (free_portal_run 7) = []"
    using rising_tick [OF r6, folded s(2)] by (simp_all add: c6)
  show "rising 72 (- 196) (- 30) (free_portal_run 8)" "calls (free_portal_run 8) = []"
    using rising_tick [OF r7, folded s(3)] by (simp_all add: c7)
qed

lemma free_portal_run_101:
  "rising 909 (- 2986) (- 30) (free_portal_run 101)" "calls (free_portal_run 101) = []"
  using rising_run [OF free_portal_run_8(1), of 93] free_portal_run_add [of 8 93]
  by (simp_all add: free_portal_run_8(2))

text \<open>
  C7. Test mode, with the completion callback passed, on a FREE level of length 19 whose only
  object is a gravity portal at tile (1, 1): the key goes down and 102 frames follow. The
  player jumps through the portal and rises under inverted gravity; after 101 ticks it is
  alive and no callback has been called. Tick 102 takes it to (918, -3016), out of bounds
  and past the end of the level (912): the tick marks the player dead and calls
  \<^verbatim>\<open>onTestComplete\<close> twice, first with the death position and then, from the check of
  the level end that the out-of-bounds death does not skip, with no death position.
\<close>

theorem test_completion_called_twice:
  "\<not> isDead (player (free_portal_run 101)) \<and> calls (free_portal_run 101) = [] \<and>
   isDead (player (free_portal_run 102)) \<and>
   position (player (free_portal_run 102)) = \<lparr>x_vec = 918, y_vec = - 3016\<rparr> \<and>
   calls (free_portal_run 102) =
     [OnTestComplete (recordedTrail (free_portal_run 102)) (Some \<lparr>x_vec = 918, y_vec = - 3016\<rparr>),
      OnTestComplete (recordedTrail (free_portal_run 102)) None]"
proof -
  note r = free_portal_run_101
  have b: "- 2986 - 30 < (- 3000 :: real)" "(912 :: real) < 909 + 9"
    by simp_all
  note t = rising_last_tick [OF r(1) b]
  have s: "free_portal_run 102 = update test_props free_portal_level (free_portal_run 101)"
    using free_portal_run_Suc [of 101] by simp
  have "\<not> isDead (player (free_portal_run 101))"
    using r(1) by (simp add: rising_def)
  then show ?thesis
    unfolding s using t r(2) by simp
qed

end
